(* ===== verification/Go_Prelude.thy ===== *)
theory Go_Prelude
  imports Main "HOL-Library.Sublist" "HOL-Library.Char_ord" "HOL-Library.List_Lexorder"
begin

text \<open>
  What the components share: Go strings as byte lists with the functions of the
  \<^verbatim>\<open>strings\<close> and \<^verbatim>\<open>strconv\<close> packages the code calls, points in time and durations as
  nanosecond counts, panics, and the generic list lemmas. A Go string is a byte sequence,
  so \<^typ>\<open>string\<close> (a list of 8-bit characters) is its exact counterpart. \<open>to_lower\<close> maps
  the ASCII letters and leaves bytes above 127 as they are.
\<close>

named_theorems go_defs \<open>definitions of the string helpers, for evaluation\<close>

section \<open>Errors, panics, time\<close>

type_synonym go_error = string
type_synonym gtime = int
type_synonym duration = int

datatype panic_value = PanicError string | PanicString string | PanicOther

definition nanosecond :: duration where "nanosecond = 1"
definition millisecond :: duration where "millisecond = 1000000"
definition second :: duration where "second = 1000000000"
definition minute :: duration where "minute = 60 * second"
definition hour :: duration where "hour = 60 * minute"

lemmas duration_defs = nanosecond_def millisecond_def second_def minute_def hour_def

text \<open>The zero \<^verbatim>\<open>time.Time\<close>: the first of January of the year 1, before the Unix epoch.\<close>

definition zero_time :: gtime where "zero_time = - 62135596800 * second"

text \<open>\<^verbatim>\<open>time.Time.Sub\<close> saturates at the range of a 64-bit duration.\<close>

definition time_sub :: "gtime \<Rightarrow> gtime \<Rightarrow> duration" where
  "time_sub t u = max (- (2 ^ 63)) (min (2 ^ 63 - 1) (t - u))"

lemma time_sub_exact: "\<bar>t - u\<bar> < 2 ^ 63 \<Longrightarrow> time_sub t u = t - u"
  by (auto simp: time_sub_def)

section \<open>Bytes\<close>

abbreviation byte :: "char \<Rightarrow> nat" where "byte c \<equiv> of_char c"

definition is_digit :: "char \<Rightarrow> bool" where "is_digit c \<longleftrightarrow> 48 \<le> byte c \<and> byte c \<le> 57"
definition is_lower :: "char \<Rightarrow> bool" where "is_lower c \<longleftrightarrow> 97 \<le> byte c \<and> byte c \<le> 122"
definition is_upper :: "char \<Rightarrow> bool" where "is_upper c \<longleftrightarrow> 65 \<le> byte c \<and> byte c \<le> 90"

definition lower_char :: "char \<Rightarrow> char" where
  "lower_char c = (if is_upper c then char_of (byte c + 32) else c)"

lemmas byte_defs [go_defs] = is_digit_def is_lower_def is_upper_def lower_char_def

lemma byte_bound [simp]: "byte c < 256"
  using of_char_mod_256 [where ?'a = nat, of c] by (metis mod_less_divisor zero_less_numeral)

lemma byte_char_of: "n < 256 \<Longrightarrow> byte (char_of n) = n"
  by simp

lemma lower_char_is_lower: "is_upper c \<Longrightarrow> is_lower (lower_char c)"
  by (simp add: byte_defs)

definition to_lower :: "string \<Rightarrow> string" where "to_lower s = map lower_char s"

declare to_lower_def [go_defs]

lemma to_lower_Nil [simp]: "to_lower [] = []"
  by (simp add: to_lower_def)

lemma length_to_lower [simp]: "length (to_lower s) = length s"
  by (simp add: to_lower_def)

section \<open>Substrings\<close>

text \<open>\<^verbatim>\<open>strings.Contains\<close>, \<^verbatim>\<open>strings.HasPrefix\<close> and \<^verbatim>\<open>strings.HasSuffix\<close>.\<close>

fun contains :: "string \<Rightarrow> string \<Rightarrow> bool" where
  "contains [] p = (p = [])"
| "contains (c # s) p = (prefix p (c # s) \<or> contains s p)"

lemma contains_iff: "contains s p \<longleftrightarrow> sublist p s"
proof (induction s)
  case Nil
  then show ?case by simp
next
  case (Cons c s)
  then show ?case by (auto simp: sublist_Cons_right)
qed

lemma contains_decomp: "contains s p \<longleftrightarrow> (\<exists>u v. s = u @ p @ v)"
  by (auto simp: contains_iff sublist_def)

lemma contains_length: "contains s p \<Longrightarrow> length p \<le> length s"
  by (simp add: contains_iff sublist_length_le)

lemma contains_set: "contains s p \<Longrightarrow> set p \<subseteq> set s"
  by (auto simp: contains_decomp)

lemma contains_appendI1: "contains s p \<Longrightarrow> contains (s @ t) p"
  by (auto simp: contains_decomp) (metis append.assoc)

lemma contains_appendI2: "contains t p \<Longrightarrow> contains (s @ t) p"
  by (auto simp: contains_decomp) (metis append.assoc)

lemma contains_self [simp]: "contains s s"
  by (simp add: contains_iff)

lemma contains_mid: "contains (u @ p @ v) p"
  by (auto simp: contains_decomp)

text \<open>
  \<^verbatim>\<open>strings.ReplaceAll\<close> for a non-empty \<open>old\<close> (the only way the code calls it): leftmost,
  non-overlapping occurrences are replaced, and replaced text is not scanned again.
\<close>

function replace_all :: "string \<Rightarrow> string \<Rightarrow> string \<Rightarrow> string" where
  "replace_all old new [] = []"
| "replace_all old new (c # s) =
     (if old \<noteq> [] \<and> prefix old (c # s)
      then new @ replace_all old new (drop (length old) (c # s))
      else c # replace_all old new s)"
  by pat_completeness auto
termination
  by (relation "measure (\<lambda>(_, _, s). length s)") (auto simp: neq_Nil_conv)

declare replace_all.simps(2) [simp del]

lemma replace_all_hit:
  "old \<noteq> [] \<Longrightarrow> replace_all old new (old @ s) = new @ replace_all old new s"
  by (cases old) (simp_all add: replace_all.simps(2))

lemma replace_all_miss:
  "\<not> prefix old (c # s) \<Longrightarrow> replace_all old new (c # s) = c # replace_all old new s"
  by (simp add: replace_all.simps(2))

lemma replace_all_no_occurrence: "\<not> contains s old \<Longrightarrow> replace_all old new s = s"
  by (induction s) (auto simp: replace_all.simps(2))

text \<open>
  A marker that no occurrence of \<open>w\<close> can overlap: replacing anything by it neither creates an occurrence of \<open>w\<close>
  nor leaves one of the text replaced.
\<close>

definition marker_skips :: "string \<Rightarrow> string \<Rightarrow> bool" where
  "marker_skips m w \<longleftrightarrow> m \<noteq> [] \<and> hd m \<notin> set w \<and> (\<forall>t. contains (m @ t) w \<longrightarrow> contains t w)"

lemma prefix_replace_all:
  "m \<noteq> [] \<Longrightarrow> hd m \<notin> set w \<Longrightarrow> prefix w (replace_all old m s) \<Longrightarrow> prefix w s"
proof (induction s arbitrary: w)
  case (Cons c s)
  show ?case
  proof (cases "old \<noteq> [] \<and> prefix old (c # s)")
    case True
    with Cons.prems have "prefix w (m @ replace_all old m (drop (length old) (c # s)))"
      by (simp add: replace_all.simps(2))
    with Cons.prems(1,2) have "w = []" by (cases w; cases m) auto
    then show ?thesis by simp
  next
    case False
    then have eq: "replace_all old m (c # s) = c # replace_all old m s"
      by (auto simp: replace_all.simps(2))
    show ?thesis
    proof (cases w)
      case (Cons d w')
      with eq Cons.prems Cons.IH [of w'] show ?thesis by simp
    qed simp
  qed
qed simp

lemma replace_all_no_new:
  assumes "marker_skips m w"
  shows "contains (replace_all old m s) w \<Longrightarrow> contains s w"
proof (induction s rule: length_induct)
  case (1 s)
  show ?case
  proof (cases s)
    case Nil
    with "1.prems" show ?thesis by simp
  next
    case (Cons c s')
    show ?thesis
    proof (cases "old \<noteq> [] \<and> prefix old s")
      case True
      let ?r = "drop (length old) s"
      have "contains (m @ replace_all old m ?r) w"
        using True "1.prems" Cons by (simp add: replace_all.simps(2))
      then have "contains (replace_all old m ?r) w"
        using assms by (simp add: marker_skips_def)
      moreover have "length ?r < length s" using True Cons by (cases old) auto
      ultimately have "contains ?r w" using "1.IH" by blast
      then show ?thesis by (metis append_take_drop_id contains_appendI2)
    next
      case False
      then have eq: "replace_all old m s = c # replace_all old m s'"
        using Cons by (auto simp: replace_all.simps(2))
      with "1.prems" consider "prefix w (replace_all old m s)" | "contains (replace_all old m s') w" by auto
      then show ?thesis
      proof cases
        case 1
        then have "prefix w s" using assms by (auto simp: marker_skips_def dest: prefix_replace_all)
        with Cons show ?thesis by simp
      next
        case 2
        with "1.IH" Cons show ?thesis by simp
      qed
    qed
  qed
qed

lemma replace_all_removes:
  assumes "marker_skips m v" and "v \<noteq> []"
  shows "\<not> contains (replace_all v m s) v"
proof (induction s rule: length_induct)
  case (1 s)
  show ?case
  proof (cases s)
    case Nil
    with assms(2) show ?thesis by simp
  next
    case (Cons c s')
    show ?thesis
    proof (cases "prefix v s")
      case True
      then have "length (drop (length v) s) < length s" using assms(2) Cons by (cases v) auto
      with "1.IH" have "\<not> contains (replace_all v m (drop (length v) s)) v" by blast
      then show ?thesis
        using True Cons assms by (auto simp: replace_all.simps(2) marker_skips_def)
    next
      case False
      then have eq: "replace_all v m s = c # replace_all v m s'"
        using Cons by (simp add: replace_all.simps(2))
      have "\<not> prefix v (replace_all v m s)"
        using False assms by (auto simp: marker_skips_def dest: prefix_replace_all)
      moreover have "\<not> contains (replace_all v m s') v"
        using "1.IH" Cons by simp
      ultimately show ?thesis using eq by simp
    qed
  qed
qed

section \<open>Trimming\<close>

definition trim_left :: "(char \<Rightarrow> bool) \<Rightarrow> string \<Rightarrow> string" where
  "trim_left P s = dropWhile P s"

definition trim_right :: "(char \<Rightarrow> bool) \<Rightarrow> string \<Rightarrow> string" where
  "trim_right P s = rev (dropWhile P (rev s))"

declare trim_left_def [go_defs] trim_right_def [go_defs]

lemma trim_right_Nil [simp]: "trim_right P [] = []"
  by (simp add: trim_right_def)

lemma trim_right_snoc:
  "trim_right P (s @ [c]) = (if P c then trim_right P s else s @ [c])"
  by (simp add: trim_right_def)

lemma trim_right_prefix: "prefix (trim_right P s) s"
proof (induction s rule: rev_induct)
  case (snoc c s)
  then show ?case by (auto simp: trim_right_snoc)
qed simp

lemma trim_right_length: "length (trim_right P s) \<le> length s"
  by (rule prefix_length_le) (rule trim_right_prefix)

lemma trim_right_set: "set (trim_right P s) \<subseteq> set s"
  by (rule set_mono_prefix) (rule trim_right_prefix)

lemma trim_right_last: "trim_right P s \<noteq> [] \<Longrightarrow> \<not> P (last (trim_right P s))"
  by (induction s rule: rev_induct) (auto simp: trim_right_snoc)

lemma trim_right_id: "s = [] \<or> \<not> P (last s) \<Longrightarrow> trim_right P s = s"
  by (induction s rule: rev_induct) (auto simp: trim_right_snoc)

lemma trim_right_eq_Nil: "trim_right P s = [] \<longleftrightarrow> (\<forall>c\<in>set s. P c)"
  by (induction s rule: rev_induct) (auto simp: trim_right_snoc)

lemma trim_right_hd: "trim_right P s \<noteq> [] \<Longrightarrow> hd (trim_right P s) = hd s"
  by (metis hd_append2 prefix_def trim_right_prefix)

text \<open>
  \<^verbatim>\<open>strings.TrimSpace\<close> removes every leading and trailing Unicode white-space character:
  the six ASCII ones and the UTF-8 encodings of U+0085, U+00A0, U+1680, U+2000 to U+200A,
  U+2028, U+2029, U+202F, U+205F and U+3000.
\<close>

definition space_encodings :: "string list" where
  "space_encodings =
     [[CHR 0x09], [CHR 0x0A], [CHR 0x0B], [CHR 0x0C], [CHR 0x0D], [CHR 0x20], [CHR 0xC2, CHR 0x85],
      [CHR 0xC2, CHR 0xA0], [CHR 0xE1, CHR 0x9A, CHR 0x80], [CHR 0xE2, CHR 0x80, CHR 0xA8],
      [CHR 0xE2, CHR 0x80, CHR 0xA9], [CHR 0xE2, CHR 0x80, CHR 0xAF],
      [CHR 0xE2, CHR 0x81, CHR 0x9F], [CHR 0xE3, CHR 0x80, CHR 0x80],
      [CHR 0xE2, CHR 0x80, CHR 0x80], [CHR 0xE2, CHR 0x80, CHR 0x81],
      [CHR 0xE2, CHR 0x80, CHR 0x82], [CHR 0xE2, CHR 0x80, CHR 0x83],
      [CHR 0xE2, CHR 0x80, CHR 0x84], [CHR 0xE2, CHR 0x80, CHR 0x85],
      [CHR 0xE2, CHR 0x80, CHR 0x86], [CHR 0xE2, CHR 0x80, CHR 0x87],
      [CHR 0xE2, CHR 0x80, CHR 0x88], [CHR 0xE2, CHR 0x80, CHR 0x89],
      [CHR 0xE2, CHR 0x80, CHR 0x8A]]"

fun strip_prefix :: "string list \<Rightarrow> string \<Rightarrow> string option" where
  "strip_prefix [] s = None"
| "strip_prefix (p # ps) s =
     (if p \<noteq> [] \<and> prefix p s then Some (drop (length p) s) else strip_prefix ps s)"

lemma strip_prefix_shorter: "strip_prefix ps s = Some t \<Longrightarrow> length t < length s"
  by (induction ps) (auto simp: prefix_def split: if_splits)

lemma strip_prefix_split: "strip_prefix ps s = Some t \<Longrightarrow> \<exists>p\<in>set ps. s = p @ t"
  by (induction ps) (auto simp: prefix_def split: if_splits)

function strip_all :: "string list \<Rightarrow> string \<Rightarrow> string" where
  "strip_all ps s = (case strip_prefix ps s of None \<Rightarrow> s | Some t \<Rightarrow> strip_all ps t)"
  by pat_completeness auto
termination
  by (relation "measure (\<lambda>(_, s). length s)") (auto dest: strip_prefix_shorter)

declare strip_all.simps [simp del]

lemma strip_all_suffix: "\<exists>u. s = u @ strip_all ps s"
proof (induction ps s rule: strip_all.induct)
  case (1 ps s)
  show ?case
  proof (cases "strip_prefix ps s")
    case None
    then show ?thesis by (simp add: strip_all.simps [of ps s])
  next
    case (Some t)
    then obtain u where "t = u @ strip_all ps t" using "1" by blast
    moreover obtain p where "s = p @ t" using Some strip_prefix_split by blast
    ultimately have "s = (p @ u) @ strip_all ps t" by simp
    then show ?thesis using Some by (metis option.simps(5) strip_all.simps)
  qed
qed

definition trim_space :: "string \<Rightarrow> string" where
  "trim_space s =
     rev (strip_all (map rev space_encodings) (rev (strip_all space_encodings s)))"

lemma trim_space_sublist: "\<exists>u v. s = u @ trim_space s @ v"
proof -
  obtain u where u: "s = u @ strip_all space_encodings s" using strip_all_suffix by blast
  obtain v where v: "rev (strip_all space_encodings s) =
      v @ strip_all (map rev space_encodings) (rev (strip_all space_encodings s))"
    using strip_all_suffix by blast
  from arg_cong [OF v, of rev] have "strip_all space_encodings s = trim_space s @ rev v"
    by (simp add: trim_space_def)
  with u show ?thesis by metis
qed

lemma trim_space_set: "set (trim_space s) \<subseteq> set s"
  using trim_space_sublist [of s] by (metis Un_commute Un_upper1 le_supI1 set_append)

lemma trim_space_Nil [simp]: "trim_space [] = []"
  using trim_space_sublist [of "[]"] by simp

lemma strip_prefix_none:
  "\<forall>p\<in>set ps. p \<noteq> [] \<longrightarrow> \<not> prefix p s \<Longrightarrow> strip_prefix ps s = None"
  by (induction ps) auto

section \<open>Decimal numbers\<close>

definition digit_char :: "nat \<Rightarrow> char" where "digit_char d = char_of (48 + d)"

fun nat_digits :: "nat \<Rightarrow> string" where
  "nat_digits n = (if n < 10 then [digit_char n] else nat_digits (n div 10) @ [digit_char (n mod 10)])"

declare nat_digits.simps [simp del]

definition itoa :: "int \<Rightarrow> string" where
  "itoa i = (if i < 0 then ''-'' @ nat_digits (nat (- i)) else nat_digits (nat i))"

definition digits_val :: "string \<Rightarrow> nat" where
  "digits_val s = foldl (\<lambda>a c. a * 10 + (byte c - 48)) 0 s"

text \<open>
  \<^verbatim>\<open>strconv.Atoi\<close> with the 64-bit \<^verbatim>\<open>int\<close> of the supported platforms: an optional sign,
  at least one digit, digits only, and the value in range; anything else is an error.
\<close>

definition atoi :: "string \<Rightarrow> int option" where
  "atoi s =
     (let neg = (s \<noteq> [] \<and> hd s = CHR ''-'');
          ds = (if s \<noteq> [] \<and> (hd s = CHR ''-'' \<or> hd s = CHR ''+'') then tl s else s);
          v = (if neg then - int (digits_val ds) else int (digits_val ds))
      in if ds = [] \<or> \<not> list_all is_digit ds then None
         else if - (2 ^ 63) \<le> v \<and> v < 2 ^ 63 then Some v else None)"

lemma digit_char_is_digit: "d < 10 \<Longrightarrow> is_digit (digit_char d)"
  by (simp add: digit_char_def byte_defs)

lemma digit_char_val: "d < 10 \<Longrightarrow> byte (digit_char d) - 48 = d"
  by (simp add: digit_char_def)

lemma nat_digits_props:
  "nat_digits n \<noteq> [] \<and> list_all is_digit (nat_digits n) \<and> digits_val (nat_digits n) = n"
proof (induction n rule: nat_digits.induct)
  case (1 n)
  show ?case
  proof (cases "n < 10")
    case True
    then show ?thesis
      by (simp add: nat_digits.simps [of n] digit_char_is_digit digits_val_def digit_char_val)
  next
    case False
    with "1" have IH: "list_all is_digit (nat_digits (n div 10))"
      "digits_val (nat_digits (n div 10)) = n div 10" by auto
    from False have "nat_digits n = nat_digits (n div 10) @ [digit_char (n mod 10)]"
      by (simp add: nat_digits.simps [of n])
    with IH show ?thesis
      by (simp add: digit_char_is_digit digits_val_def digit_char_val)
  qed
qed

lemma is_digit_not_sign: "is_digit c \<Longrightarrow> c \<noteq> CHR ''-'' \<and> c \<noteq> CHR ''+''"
  by (auto simp: is_digit_def)

theorem atoi_itoa: "- (2 ^ 63) \<le> i \<Longrightarrow> i < 2 ^ 63 \<Longrightarrow> atoi (itoa i) = Some i"
proof (cases "i < 0")
  case True
  assume "- (2 ^ 63) \<le> i"
  with True nat_digits_props [of "nat (- i)"] show ?thesis
    by (simp add: itoa_def atoi_def Let_def)
next
  case False
  assume "i < 2 ^ 63"
  moreover have "is_digit (hd (nat_digits (nat i)))"
    using nat_digits_props [of "nat i"] by (cases "nat_digits (nat i)") auto
  ultimately show ?thesis
    using False nat_digits_props [of "nat i"] is_digit_not_sign
    by (auto simp: itoa_def atoi_def Let_def)
qed

lemma itoa_nonempty: "itoa i \<noteq> []"
  using nat_digits_props by (auto simp: itoa_def)

section \<open>Joining, ASCII predicates, list lemmas\<close>

text \<open>The \<^verbatim>\<open>%q\<close> verb, for names without characters it would escape.\<close>

definition quoted :: "string \<Rightarrow> string" where "quoted s = ''\"'' @ s @ ''\"''"

fun join :: "string \<Rightarrow> string list \<Rightarrow> string" where
  "join sep [] = []"
| "join sep [s] = s"
| "join sep (s # t # ss) = s @ sep @ join sep (t # ss)"

fun first_non_empty :: "string list \<Rightarrow> string" where
  "first_non_empty [] = []"
| "first_non_empty (v # vs) = (if v \<noteq> [] then v else first_non_empty vs)"

lemma list_update_len_nth:
  "i < length xs \<Longrightarrow> (xs[i := x]) ! j = (if j = i then x else xs ! j)"
  by (auto simp: nth_list_update)

lemma sorted_key_stable_filter:
  "filter P (sort_key f xs) = sort_key f (filter P xs)"
  by (simp add: filter_sort)

end
