(* ===== verification/Go_Net.thy ===== *)
theory Go_Net
  imports Go_Prelude
begin

text \<open>
  What the code uses of Go's \<^verbatim>\<open>net\<close> package: an IP is a list of 4 or 16 bytes, \<^verbatim>\<open>ParseIP\<close> reads
  dotted IPv4 (no leading zeros) and IPv6 (one ellipsis, a trailing dotted quad, no zone),
  \<^verbatim>\<open>To4\<close> recognises the 4-byte and the v4-in-v6 form, \<^verbatim>\<open>String\<close> is needed for IPv4 only.
\<close>

type_synonym ip = "nat list"

section \<open>Splitting\<close>

text \<open>\<^verbatim>\<open>strings.Split\<close> by a one-byte separator: never empty, one part more than separators.\<close>

fun split_on :: "char \<Rightarrow> string \<Rightarrow> string list" where
  "split_on c [] = [[]]"
| "split_on c (x # xs) =
     (if x = c then [] # split_on c xs
      else (case split_on c xs of [] \<Rightarrow> [[x]] | p # ps \<Rightarrow> (x # p) # ps))"

lemma split_on_nonempty [simp]: "split_on c s \<noteq> []"
  by (induction s) (auto split: list.splits)

lemma split_on_free: "c \<notin> set s \<Longrightarrow> split_on c s = [s]"
  by (induction s) auto

lemma split_on_append: "c \<notin> set p \<Longrightarrow> split_on c (p @ c # s) = p # split_on c s"
  by (induction p) auto

lemma join_split_on: "join [c] (split_on c s) = s"
proof (induction s)
  case (Cons x s)
  then show ?case
    by (cases "split_on c s"; cases "tl (split_on c s)") auto
qed simp

lemma split_on_parts: "p \<in> set (split_on c s) \<Longrightarrow> c \<notin> set p \<and> set p \<subseteq> set s"
proof (induction s arbitrary: p)
  case (Cons x s)
  obtain q qs where q: "split_on c s = q # qs" by (meson list.exhaust split_on_nonempty)
  with Cons.IH have "\<forall>r\<in>set (q # qs). c \<notin> set r \<and> set r \<subseteq> set s" by simp
  with Cons.prems q show ?case by (auto split: if_splits)
qed simp

section \<open>IPv4\<close>

text \<open>One octet: one to three digits, no leading zero, at most 255.\<close>

definition parse_octet :: "string \<Rightarrow> nat option" where
  "parse_octet s =
     (if s = [] \<or> \<not> list_all is_digit s then None
      else if 1 < length s \<and> hd s = CHR ''0'' then None
      else if 255 < digits_val s then None
      else Some (digits_val s))"

fun all_some :: "'a option list \<Rightarrow> 'a list option" where
  "all_some [] = Some []"
| "all_some (None # xs) = None"
| "all_some (Some x # xs) = map_option (Cons x) (all_some xs)"

definition parse_ipv4 :: "string \<Rightarrow> ip option" where
  "parse_ipv4 s =
     (let parts = split_on (CHR ''.'') s
      in if length parts = 4 then all_some (map parse_octet parts) else None)"

definition ipv4_string :: "ip \<Rightarrow> string" where
  "ipv4_string ip = join ''.'' (map nat_digits ip)"

definition v4_bytes :: "ip \<Rightarrow> bool" where
  "v4_bytes ip \<longleftrightarrow> length ip = 4 \<and> (\<forall>b\<in>set ip. b < 256)"

lemma all_some_iff: "all_some xs = Some ys \<longleftrightarrow> xs = map Some ys"
  by (induction xs arbitrary: ys rule: all_some.induct) auto

lemma parse_octet_bound: "parse_octet s = Some n \<Longrightarrow> n < 256"
  by (auto simp: parse_octet_def split: if_splits)

lemma parse_ipv4_bytes: "parse_ipv4 s = Some q \<Longrightarrow> v4_bytes q"
proof -
  assume "parse_ipv4 s = Some q"
  then have p: "map parse_octet (split_on (CHR ''.'') s) = map Some q" "length (split_on (CHR ''.'') s) = 4"
    by (auto simp: parse_ipv4_def Let_def all_some_iff split: if_splits)
  have "length q = 4" using arg_cong [OF p(1), of length] p(2) by simp
  moreover have "b < 256" if "b \<in> set q" for b
  proof -
    have "Some b \<in> set (map parse_octet (split_on (CHR ''.'') s))" using that by (simp add: p(1))
    then show ?thesis using parse_octet_bound by (metis (no_types, lifting) imageE list.set_map)
  qed
  ultimately show ?thesis by (simp add: v4_bytes_def)
qed

section \<open>IPv6\<close>

definition is_hex :: "char \<Rightarrow> bool" where
  "is_hex c \<longleftrightarrow> is_digit c \<or> (97 \<le> byte c \<and> byte c \<le> 102) \<or> (65 \<le> byte c \<and> byte c \<le> 70)"

definition hex_val :: "char \<Rightarrow> nat" where
  "hex_val c = (if is_digit c then byte c - 48 else if 97 \<le> byte c then byte c - 87 else byte c - 55)"

definition hex_number :: "string \<Rightarrow> nat" where
  "hex_number s = foldl (\<lambda>a c. a * 16 + hex_val c) 0 s"

text \<open>
  One round of the loop of \<^verbatim>\<open>parseIPv6\<close>: \<open>acc\<close> the bytes so far, \<open>ell\<close> the position of the ellipsis.
  It fails, or returns the bytes, the ellipsis, the rest of the input and whether the loop ends.
\<close>

definition ipv6_group :: "ip \<Rightarrow> nat option \<Rightarrow> string \<Rightarrow> (ip \<times> nat option \<times> string \<times> bool) option" where
  "ipv6_group acc ell s =
     (let h = takeWhile is_hex s; rest = dropWhile is_hex s
      in if h = [] \<or> 4 < length h then None
         else if rest \<noteq> [] \<and> hd rest = CHR ''.'' then
           (if ell = None \<and> length acc \<noteq> 12 \<or> 16 < length acc + 4 then None
            else map_option (\<lambda>q. (acc @ q, ell, [], True)) (parse_ipv4 s))
         else
           (let acc = acc @ [hex_number h div 256, hex_number h mod 256]
            in if rest = [] then Some (acc, ell, [], True)
               else if hd rest \<noteq> CHR '':'' \<or> tl rest = [] then None
               else if hd (tl rest) = CHR '':'' then
                 (if ell \<noteq> None then None
                  else Some (acc, Some (length acc), tl (tl rest), tl (tl rest) = []))
               else Some (acc, ell, tl rest, False)))"

lemma hex_val_bound: "is_hex c \<Longrightarrow> hex_val c < 16"
  by (auto simp: hex_val_def is_hex_def is_digit_def)

lemma hex_number_bound: "\<forall>c\<in>set t. is_hex c \<Longrightarrow> hex_number t < 16 ^ length t"
proof (induction t rule: rev_induct)
  case (snoc c t)
  then have "hex_number t < 16 ^ length t" "hex_val c < 16" by (simp_all add: hex_val_bound)
  then have "hex_number t * 16 + hex_val c < 16 ^ length t * 16" by linarith
  then show ?case by (simp add: hex_number_def mult.commute)
qed (simp add: hex_number_def)

lemma hex_group_bound: "length (takeWhile is_hex s) \<le> 4 \<Longrightarrow> hex_number (takeWhile is_hex s) < 65536"
proof -
  assume l: "length (takeWhile is_hex s) \<le> 4"
  have "hex_number (takeWhile is_hex s) < 16 ^ length (takeWhile is_hex s)"
    by (rule hex_number_bound) (auto dest: set_takeWhileD)
  also have "\<dots> \<le> 16 ^ 4" using l by (intro power_increasing) auto
  finally show ?thesis by simp
qed

lemma ipv6_group_acc:
  "ipv6_group acc ell s = Some (acc', ell', s', stop) \<Longrightarrow>
     (\<exists>q. acc' = acc @ q \<and> (\<forall>b\<in>set q. b < 256) \<and>
        (length q = 2 \<or> stop \<and> length q = 4 \<and> length acc + 4 \<le> 16))"
  using hex_group_bound [of s] parse_ipv4_bytes [of s]
  by (auto simp: ipv6_group_def Let_def v4_bytes_def div_less_iff_less_mult split: if_split_asm)

function ipv6_loop :: "ip \<Rightarrow> nat option \<Rightarrow> string \<Rightarrow> (ip \<times> nat option \<times> string) option" where
  "ipv6_loop acc ell s =
     (if 16 \<le> length acc then Some (acc, ell, s)
      else case ipv6_group acc ell s of None \<Rightarrow> None
      | Some (acc', ell', s', stop) \<Rightarrow>
          if stop then Some (acc', ell', s') else ipv6_loop acc' ell' s')"
  by pat_completeness auto
termination
  by (relation "measure (\<lambda>(acc, _, _). 16 - length acc)") (auto dest!: ipv6_group_acc)

declare ipv6_loop.simps [simp del]

definition parse_ipv6 :: "string \<Rightarrow> ip option" where
  "parse_ipv6 s =
     (if CHR ''%'' \<in> set s then None
      else
        (let lead = take 2 s = ''::''; s' = (if lead then drop 2 s else s)
         in if lead \<and> s' = [] then Some (replicate 16 0)
            else case ipv6_loop [] (if lead then Some 0 else None) s' of
              None \<Rightarrow> None
            | Some (acc, ell, rest) \<Rightarrow>
                if rest \<noteq> [] then None
                else if length acc < 16 then
                  (case ell of None \<Rightarrow> None
                   | Some e \<Rightarrow> Some (take e acc @ replicate (16 - length acc) 0 @ drop e acc))
                else if ell \<noteq> None then None else Some acc))"

section \<open>\<open>ParseIP\<close> and \<open>To4\<close>\<close>

text \<open>The first of \<open>.\<close>, \<open>:\<close> and \<open>%\<close> decides the family. IPv4 is returned in the 16-byte form.\<close>

definition parse_ip :: "string \<Rightarrow> ip option" where
  "parse_ip s =
     (case dropWhile (\<lambda>c. c \<notin> set ''.:%'') s of
        c # _ \<Rightarrow>
          if c = CHR ''.'' then map_option (\<lambda>q. replicate 10 0 @ [255, 255] @ q) (parse_ipv4 s)
          else if c = CHR '':'' then parse_ipv6 s else None
      | [] \<Rightarrow> None)"

definition to4 :: "ip \<Rightarrow> ip option" where
  "to4 ip =
     (if length ip = 4 then Some ip
      else if length ip = 16 \<and> take 12 ip = replicate 10 0 @ [255, 255] then Some (drop 12 ip)
      else None)"

section \<open>Lemmas\<close>

lemma ipv6_loop_bytes:
  "ipv6_loop acc ell s = Some (acc', ell', rest) \<Longrightarrow> \<forall>b\<in>set acc. b < 256 \<Longrightarrow> length acc \<le> 16 \<Longrightarrow> even (length acc)
    \<Longrightarrow> (\<forall>b\<in>set acc'. b < 256) \<and> length acc' \<le> 16"
proof (induction acc ell s rule: ipv6_loop.induct)
  case (1 acc ell s)
  note r = 1(2) [unfolded ipv6_loop.simps [of acc ell s]]
  show ?case
  proof (cases "16 \<le> length acc")
    case True
    with r 1(3,4) show ?thesis by simp
  next
    case False
    with r obtain a e t stop where g: "ipv6_group acc ell s = Some (a, e, t, stop)"
      by (auto split: option.splits)
    from ipv6_group_acc [OF g] obtain q where q: "a = acc @ q" "\<forall>b\<in>set q. b < 256"
      "length q = 2 \<or> stop \<and> length q = 4 \<and> length acc + 4 \<le> 16" by blast
    from 1(5) obtain k where "length acc = 2 * k" by (elim evenE)
    with False q have a: "\<forall>b\<in>set a. b < 256" "length a \<le> 16" "even (length a)" using 1(3) by auto
    show ?thesis
    proof (cases stop)
      case True
      with r False g a show ?thesis by simp
    next
      case no: False
      with r False g have "ipv6_loop a e t = Some (acc', ell', rest)" by simp
      from 1(1) [OF False g refl refl refl no this a] show ?thesis .
    qed
  qed
qed

lemma parse_ipv6_bytes: "parse_ipv6 s = Some ip \<Longrightarrow> length ip = 16 \<and> (\<forall>b\<in>set ip. b < 256)"
  by (auto simp: parse_ipv6_def Let_def dest!: ipv6_loop_bytes split: if_split_asm option.splits)
    (meson in_set_takeD in_set_dropD)+

lemma parse_ip_bytes: "parse_ip s = Some ip \<Longrightarrow> length ip = 16 \<and> (\<forall>b\<in>set ip. b < 256)"
  by (auto simp: parse_ip_def v4_bytes_def dest!: parse_ipv6_bytes parse_ipv4_bytes
      split: list.splits if_split_asm)

lemma parse_ip_to4: "parse_ip s = Some ip \<Longrightarrow> to4 ip = Some q \<Longrightarrow> v4_bytes q"
  by (auto simp: to4_def v4_bytes_def dest!: parse_ip_bytes dest: in_set_dropD split: if_split_asm)

text \<open>Round trip of the dotted form.\<close>

lemma nat_digits_no_dot: "c \<in> set (nat_digits n) \<Longrightarrow> is_digit c"
  using nat_digits_props [of n] by (simp add: list_all_iff)

lemma parse_octet_digits: "n < 256 \<Longrightarrow> parse_octet (nat_digits n) = Some n"
proof -
  assume n: "n < 256"
  have "hd (nat_digits m) \<noteq> CHR ''0''" if "0 < m" for m
    using that
  proof (induction m rule: nat_digits.induct)
    case (1 m)
    have "digit_char m \<noteq> CHR ''0''" if "m < 10"
    proof
      assume "digit_char m = CHR ''0''"
      from arg_cong [OF this, of byte] that "1.prems" show False by (simp add: digit_char_def)
    qed
    then show ?case
      using 1 nat_digits_props [of "m div 10"] by (cases "m < 10") (auto simp: nat_digits.simps [of m])
  qed
  then have "\<not> (1 < length (nat_digits n) \<and> hd (nat_digits n) = CHR ''0'')"
    by (cases "n = 0") (auto simp: nat_digits.simps [of 0])
  with n nat_digits_props [of n] show ?thesis by (auto simp: parse_octet_def)
qed

lemma parse_ipv4_string: "v4_bytes q \<Longrightarrow> parse_ipv4 (ipv4_string q) = Some q"
proof -
  assume q: "v4_bytes q"
  then obtain a b c d where abcd: "q = [a, b, c, d]"
    by (auto simp: v4_bytes_def numeral_eq_Suc length_Suc_conv)
  have nd: "CHR ''.'' \<notin> set (nat_digits n)" for n using nat_digits_no_dot [of "CHR ''.''" n] by (auto simp: is_digit_def)
  have "split_on (CHR ''.'') (ipv4_string q) = map nat_digits q"
    using nd by (simp add: abcd ipv4_string_def split_on_append split_on_free)
  then show ?thesis using q by (simp add: parse_ipv4_def abcd v4_bytes_def parse_octet_digits)
qed

lemma parse_ip_v4_string: "v4_bytes q \<Longrightarrow> parse_ip (ipv4_string q) = Some (replicate 10 0 @ [255, 255] @ q)"
proof -
  assume q: "v4_bytes q"
  then obtain a b c d where abcd: "q = [a, b, c, d]"
    by (auto simp: v4_bytes_def numeral_eq_Suc length_Suc_conv)
  have "\<forall>x\<in>set (nat_digits a). x \<notin> set ''.:%''"
  proof
    fix x assume "x \<in> set (nat_digits a)"
    from nat_digits_no_dot [OF this] show "x \<notin> set ''.:%''" by (auto simp: is_digit_def)
  qed
  then have "dropWhile (\<lambda>c. c \<notin> set ''.:%'') (ipv4_string q) = CHR ''.'' # join ''.'' (map nat_digits [b, c, d])"
    by (simp add: abcd ipv4_string_def dropWhile_append2)
  then show ?thesis by (simp add: parse_ip_def parse_ipv4_string [OF q])
qed

lemma to4_mapped: "v4_bytes q \<Longrightarrow> to4 (replicate 10 0 @ [255, 255] @ q) = Some q"
  by (simp add: to4_def v4_bytes_def numeral_eq_Suc)

end
