(* ===== verification/Go_Text.thy ===== *)
theory Go_Text
  imports Go_Prelude
begin

text \<open>
  UTF-8 as Go reads it (\<^verbatim>\<open>range\<close> over a string, \<^verbatim>\<open>unicode/utf8\<close>) and what \<^verbatim>\<open>encoding/json\<close> writes:
  a JSON value as a datatype and its text. An invalid byte is one rune, \<^verbatim>\<open>RuneError\<close>, of width 1
  and rune length 3.
\<close>

section \<open>UTF-8\<close>

definition byte_at :: "string \<Rightarrow> nat \<Rightarrow> nat" where
  "byte_at s i = (if i < length s then byte (s ! i) else 0)"

definition cont_byte :: "nat \<Rightarrow> bool" where "cont_byte b \<longleftrightarrow> 128 \<le> b \<and> b \<le> 191"

text \<open>The width the first two bytes announce, 0 when no encoding starts with them.\<close>

definition lead_width :: "nat \<Rightarrow> nat \<Rightarrow> nat" where
  "lead_width b0 b1 =
     (if b0 < 128 then 1
      else if 194 \<le> b0 \<and> b0 \<le> 223 \<and> cont_byte b1 then 2
      else if b0 = 224 \<and> 160 \<le> b1 \<and> b1 \<le> 191 \<or> b0 = 237 \<and> 128 \<le> b1 \<and> b1 \<le> 159 then 3
      else if (225 \<le> b0 \<and> b0 \<le> 236 \<or> 238 \<le> b0 \<and> b0 \<le> 239) \<and> cont_byte b1 then 3
      else if b0 = 240 \<and> 144 \<le> b1 \<and> b1 \<le> 191 \<or> b0 = 244 \<and> 128 \<le> b1 \<and> b1 \<le> 143 then 4
      else if 241 \<le> b0 \<and> b0 \<le> 243 \<and> cont_byte b1 then 4
      else 0)"

text \<open>The width of the valid encoding at the head, 0 when there is none.\<close>

definition utf8_width :: "string \<Rightarrow> nat" where
  "utf8_width s =
     (let w = lead_width (byte_at s 0) (byte_at s 1)
      in if s \<noteq> [] \<and> w \<le> length s \<and> list_all (\<lambda>i. cont_byte (byte_at s i)) [2..<w] then w else 0)"

definition rune_advance :: "string \<Rightarrow> nat" where
  "rune_advance s = (if utf8_width s = 0 then 1 else utf8_width s)"

definition rune_len :: "string \<Rightarrow> nat" where
  "rune_len s = (if utf8_width s = 0 then 3 else utf8_width s)"

lemma rune_advance_pos: "0 < rune_advance s"
  by (simp add: rune_advance_def)

lemma utf8_width_le: "utf8_width s \<le> length s"
  by (simp add: utf8_width_def Let_def)

lemma lead_width_one: "lead_width b0 b1 = 1 \<longleftrightarrow> b0 < 128"
  by (simp add: lead_width_def)

text \<open>The width depends on the bytes it spans only.\<close>

lemma utf8_width_cong:
  assumes w: "0 < utf8_width s" and same: "take (utf8_width s) t = take (utf8_width s) s"
  shows "utf8_width t = utf8_width s"
proof -
  let ?w = "utf8_width s"
  have s: "s \<noteq> []" "?w = lead_width (byte_at s 0) (byte_at s 1)" "?w \<le> length s"
    "list_all (\<lambda>i. cont_byte (byte_at s i)) [2..<?w]"
    using w by (auto simp: utf8_width_def Let_def split: if_split_asm)
  have "length (take ?w t) = ?w" using s(3) by (simp add: same)
  then have lt: "?w \<le> length t" by simp
  have eq: "byte_at t i = byte_at s i" if "i < ?w" for i
    using that lt s(3) same by (metis byte_at_def nth_take order_less_le_trans)
  have "lead_width (byte_at t 0) (byte_at t 1) = ?w"
  proof (cases "?w = 1")
    case True
    then show ?thesis using s(2) eq [of 0] lead_width_one by (metis zero_less_one)
  next
    case False
    then show ?thesis using s(2) eq [of 0] eq [of 1] w by simp
  qed
  moreover have "list_all (\<lambda>i. cont_byte (byte_at t i)) [2..<?w]"
    using s(4) eq by (simp add: list_all_iff)
  moreover have "t \<noteq> []" using lt w by auto
  ultimately show ?thesis using lt by (simp add: utf8_width_def [of t] Let_def)
qed

lemma utf8_width_append: "0 < utf8_width s \<Longrightarrow> utf8_width (s @ t) = utf8_width s"
  by (rule utf8_width_cong) (simp_all add: utf8_width_le)

lemma utf8_width_take: "0 < utf8_width s \<Longrightarrow> utf8_width s \<le> n \<Longrightarrow> utf8_width (take n s) = utf8_width s"
  by (rule utf8_width_cong) (simp_all add: min_def)

function utf8_valid :: "string \<Rightarrow> bool" where
  "utf8_valid s =
     (if s = [] then True
      else if utf8_width s = 0 then False else utf8_valid (drop (utf8_width s) s))"
  by pat_completeness auto
termination
  by (relation "measure length") auto

declare utf8_valid.simps [simp del]

lemma utf8_valid_Nil [simp]: "utf8_valid []"
  by (simp add: utf8_valid.simps)

lemma utf8_valid_step:
  "s \<noteq> [] \<Longrightarrow> utf8_valid s \<longleftrightarrow> 0 < utf8_width s \<and> utf8_valid (drop (utf8_width s) s)"
  by (simp add: utf8_valid.simps [of s])

lemma utf8_valid_append: "utf8_valid s \<Longrightarrow> utf8_valid t \<Longrightarrow> utf8_valid (s @ t)"
proof (induction s rule: utf8_valid.induct)
  case (1 s)
  show ?case
  proof (cases "s = []")
    case False
    with 1(2) have w: "0 < utf8_width s" "utf8_valid (drop (utf8_width s) s)" by (simp_all add: utf8_valid_step)
    from 1(1) [OF False _ w(2) 1(3)] w(1) have "utf8_valid (drop (utf8_width s) s @ t)" by simp
    then have "utf8_valid (drop (utf8_width (s @ t)) (s @ t))"
      using w(1) by (simp add: utf8_width_append utf8_width_le)
    with w(1) False show ?thesis by (simp add: utf8_valid_step utf8_width_append)
  qed (simp add: 1)
qed

lemma utf8_valid_head: "0 < utf8_width s \<Longrightarrow> utf8_valid (take (utf8_width s) s)"
proof -
  assume w: "0 < utf8_width s"
  have "take (utf8_width s) s \<noteq> []" using w utf8_width_le [of s] by auto
  with w show ?thesis by (simp add: utf8_valid_step utf8_width_take)
qed

section \<open>JSON text\<close>

datatype json = JNull | JBool bool | JNum int | JStr string | JArr "json list" | JObj "(string \<times> json) list"

definition hex_digit :: "nat \<Rightarrow> char" where
  "hex_digit n = (if n < 10 then char_of (48 + n) else char_of (87 + n))"

text \<open>The escapes of \<^verbatim>\<open>json.Marshal\<close>, HTML-safe, for one rune at the head of the string.\<close>

definition json_rune :: "string \<Rightarrow> string" where
  "json_rune s =
     (let b = byte_at s 0
      in if utf8_width s = 0 then [char_of (92 :: nat)] @ ''ufffd''
         else if b = 34 \<or> b = 92 then [char_of (92 :: nat), char_of b]
         else if b = 8 then [char_of (92 :: nat)] @ ''b'' else if b = 12 then [char_of (92 :: nat)] @ ''f''
         else if b = 10 then [char_of (92 :: nat)] @ ''n'' else if b = 13 then [char_of (92 :: nat)] @ ''r''
         else if b = 9 then [char_of (92 :: nat)] @ ''t''
         else if b < 32 \<or> b = 60 \<or> b = 62 \<or> b = 38
           then [char_of (92 :: nat)] @ ''u00'' @ [hex_digit (b div 16), hex_digit (b mod 16)]
         else if b = 226 \<and> byte_at s 1 = 128 \<and> byte_at s 2 \<in> {168, 169}
           then [char_of (92 :: nat)] @ ''u202'' @ [hex_digit (byte_at s 2 mod 16)]
         else take (utf8_width s) s)"

function json_runes :: "string \<Rightarrow> string" where
  "json_runes s = (if s = [] then [] else json_rune s @ json_runes (drop (rune_advance s) s))"
  by pat_completeness auto
termination
  by (relation "measure length") (auto simp: rune_advance_pos)

declare json_runes.simps [simp del]

definition quote_char :: char where "quote_char = char_of (34 :: nat)"

definition json_string :: "string \<Rightarrow> string" where
  "json_string s = quote_char # json_runes s @ [quote_char]"

fun json_text :: "json \<Rightarrow> string" where
  "json_text JNull = ''null''"
| "json_text (JBool b) = (if b then ''true'' else ''false'')"
| "json_text (JNum n) = itoa n"
| "json_text (JStr s) = json_string s"
| "json_text (JArr vs) = ''['' @ join '','' (map json_text vs) @ '']''"
| "json_text (JObj kvs) = ''{'' @ join '','' (map (\<lambda>(k, v). json_string k @ '':'' @ json_text v) kvs) @ ''}''"

lemma json_text_nonempty: "json_text j \<noteq> []"
  by (cases j) (simp_all add: itoa_nonempty json_string_def)

section \<open>Shortening text\<close>

text \<open>
  \<^verbatim>\<open>truncateRunes\<close> of \<^verbatim>\<open>internal/sites/activity.go\<close>. The first loop (a budget below four bytes)
  steps back over continuation bytes; the second adds up the rune lengths that fit.
\<close>

fun back_to_start :: "string \<Rightarrow> nat \<Rightarrow> nat" where
  "back_to_start s 0 = 0"
| "back_to_start s (Suc i) = (if cont_byte (byte_at s i) then back_to_start s i else Suc i)"

function trunc_end :: "nat \<Rightarrow> nat \<Rightarrow> string \<Rightarrow> nat \<Rightarrow> nat" where
  "trunc_end limit i s e =
     (if s = [] \<or> limit < i + rune_len s then e
      else trunc_end limit (i + rune_advance s) (drop (rune_advance s) s) (i + rune_len s))"
  by pat_completeness auto
termination
  by (relation "measure (\<lambda>(_, _, s, _). length s)") (auto simp: rune_advance_pos)

declare trunc_end.simps [simp del]

definition text_ellipsis :: string where "text_ellipsis = map char_of [226, 128, 166 :: nat]"

definition truncate_runes :: "string \<Rightarrow> int \<Rightarrow> string" where
  "truncate_runes s max_bytes =
     (if max_bytes \<le> 0 \<or> int (length s) \<le> max_bytes then s
      else if max_bytes \<le> 3 then take (back_to_start s (nat max_bytes)) s
      else take (trunc_end (nat max_bytes - 3) 0 s 0) s @ text_ellipsis)"

lemma trunc_end_bound: "e \<le> limit \<Longrightarrow> trunc_end limit i s e \<le> limit"
proof (induction limit i s e rule: trunc_end.induct)
  case (1 limit i s e)
  show ?case
  proof (cases "s = [] \<or> limit < i + rune_len s")
    case True
    then show ?thesis using 1(2) by (simp add: trunc_end.simps [of limit i s e])
  next
    case False
    with 1(1) [OF False] show ?thesis by (simp add: trunc_end.simps [of limit i s e])
  qed
qed

lemma trunc_end_valid:
  "utf8_valid s \<Longrightarrow> i = e \<Longrightarrow> \<exists>n. trunc_end limit i s e = i + n \<and> n \<le> length s \<and> utf8_valid (take n s)"
proof (induction limit i s e rule: trunc_end.induct)
  case (1 limit i s e)
  show ?case
  proof (cases "s = [] \<or> limit < i + rune_len s")
    case True
    then have "trunc_end limit i s e = e" by (subst trunc_end.simps) simp
    then show ?thesis using 1(3) by (intro exI [of _ 0]) simp
  next
    case False
    let ?w = "utf8_width s"
    from 1(2) False have w: "0 < ?w" "utf8_valid (drop ?w s)" by (simp_all add: utf8_valid_step)
    then have a: "rune_advance s = ?w" "rune_len s = ?w" by (simp_all add: rune_advance_def rune_len_def)
    from 1(1) [OF False] w(2) a 1(3) obtain n where n: "trunc_end limit (i + ?w) (drop ?w s) (i + ?w) = i + ?w + n"
      "n \<le> length (drop ?w s)" "utf8_valid (take n (drop ?w s))" by auto
    have "utf8_valid (take (?w + n) s)"
      unfolding take_add by (rule utf8_valid_append [OF utf8_valid_head [OF w(1)] n(3)])
    moreover have "trunc_end limit i s e = i + (?w + n)"
      using False n(1) a 1(3) by (subst trunc_end.simps) simp
    moreover have "?w + n \<le> length s" using n(2) utf8_width_le [of s] by simp
    ultimately show ?thesis by blast
  qed
qed

lemma truncate_runes_length: "0 < max_bytes \<Longrightarrow> int (length (truncate_runes s max_bytes)) \<le> max_bytes"
proof -
  assume m: "0 < max_bytes"
  have b: "back_to_start s n \<le> n" for n by (induction n) (auto simp: le_SucI)
  have "trunc_end (nat max_bytes - 3) 0 s 0 \<le> nat max_bytes - 3" by (rule trunc_end_bound) simp
  then show ?thesis using m b [of "nat max_bytes"]
    by (auto simp: truncate_runes_def text_ellipsis_def)
qed

end
