(* ===== verification/Secrets.thy ===== *)
theory Secrets
  imports Go_Prelude
begin

text \<open>
  The secret registry of \<^verbatim>\<open>internal/secrets/registry.go\<close>: a set of sensitive strings and the
  redaction of every registered substring. Go iterates over a map in an unspecified order
  and \<^verbatim>\<open>sort.Slice\<close> is not stable, so the order among secrets of equal length is a
  parameter \<open>iter\<close> (the runtime's iteration); a stable sort of an arbitrary iteration gives
  exactly the orders an unstable one can give. The mutex makes each operation atomic, so an
  operation is a function of the state.
\<close>

section \<open>The registry and its operations\<close>

record registry = reg_values :: "string set"

definition redaction_marker :: string where "redaction_marker = ''[REDACTED]''"
definition min_secret_len :: nat where "min_secret_len = 8"

definition new_registry :: registry where "new_registry = \<lparr>reg_values = {}\<rparr>"

definition reg_add :: "string \<Rightarrow> registry \<Rightarrow> registry" where
  "reg_add s r =
     (if length s < min_secret_len then r else r\<lparr>reg_values := insert s (reg_values r)\<rparr>)"

definition reg_remove :: "string \<Rightarrow> registry \<Rightarrow> registry" where
  "reg_remove s r = (if s = [] then r else r\<lparr>reg_values := reg_values r - {s}\<rparr>)"

definition reg_reset :: "registry \<Rightarrow> registry" where
  "reg_reset r = r\<lparr>reg_values := {}\<rparr>"

text \<open>The order in which \<^verbatim>\<open>RedactString\<close> tries the secrets: longest first.\<close>

definition redact_order :: "(string set \<Rightarrow> string list) \<Rightarrow> registry \<Rightarrow> string list" where
  "redact_order iter r = sort_key (\<lambda>v. - int (length v)) (iter (reg_values r))"

definition redact_one :: "string \<Rightarrow> string \<Rightarrow> string" where
  "redact_one v s = (if contains s v then replace_all v redaction_marker s else s)"

definition redact_string :: "(string set \<Rightarrow> string list) \<Rightarrow> registry \<Rightarrow> string \<Rightarrow> string" where
  "redact_string iter r s =
     (if s = [] then s
      else if reg_values r = {} then s
      else fold redact_one (redact_order iter r) s)"

text \<open>\<^verbatim>\<open>Registry.Redact\<close> on the message of an error; \<^verbatim>\<open>nil\<close> is \<^const>\<open>None\<close>.\<close>

definition redact_error ::
  "(string set \<Rightarrow> string list) \<Rightarrow> registry \<Rightarrow> go_error option \<Rightarrow> go_error option" where
  "redact_error iter r e =
     (case e of None \<Rightarrow> None
      | Some msg \<Rightarrow> (let red = redact_string iter r msg in if red = msg then Some msg else Some red))"

section \<open>The registry invariant\<close>

datatype reg_op = RegAdd string | RegRemove string | RegReset

fun reg_step :: "registry \<Rightarrow> reg_op \<Rightarrow> registry" where
  "reg_step r (RegAdd s) = reg_add s r"
| "reg_step r (RegRemove s) = reg_remove s r"
| "reg_step r RegReset = reg_reset r"

definition reg_run :: "reg_op list \<Rightarrow> registry" where
  "reg_run ops = foldl reg_step new_registry ops"

definition reg_inv :: "registry \<Rightarrow> bool" where
  "reg_inv r \<longleftrightarrow> finite (reg_values r) \<and> (\<forall>v\<in>reg_values r. min_secret_len \<le> length v)"

lemma reg_inv_new: "reg_inv new_registry"
  by (simp add: reg_inv_def new_registry_def)

lemma reg_inv_step: "reg_inv r \<Longrightarrow> reg_inv (reg_step r x)"
  by (cases x) (auto simp: reg_inv_def reg_add_def reg_remove_def reg_reset_def)

lemma reg_inv_foldl: "reg_inv r \<Longrightarrow> reg_inv (foldl reg_step r ops)"
  by (induction ops arbitrary: r) (auto simp: reg_inv_step)

lemma reg_inv_run: "reg_inv (reg_run ops)"
  unfolding reg_run_def by (rule reg_inv_foldl) (rule reg_inv_new)

section \<open>What one replacement does\<close>

text \<open>
  A plain secret shares no bracket with the marker and is not its word; every password and
  token Locorum generates is plain.
\<close>

definition plain_secret :: "string \<Rightarrow> bool" where
  "plain_secret v \<longleftrightarrow> min_secret_len \<le> length v \<and> CHR ''['' \<notin> set v \<and> CHR '']'' \<notin> set v
     \<and> v \<noteq> ''REDACTED''"

lemma plain_not_in_marker:
  assumes "plain_secret w" and "u @ w @ z = redaction_marker"
  shows False
proof -
  have len: "length u + length w + length z = 10"
    using arg_cong [OF assms(2), of length] by (simp add: redaction_marker_def)
  have lw: "8 \<le> length w" using assms(1) by (simp add: plain_secret_def min_secret_len_def)
  obtain c w1 where c: "w = c # w1" using lw by (cases w) auto
  obtain d w2 where d: "w = w2 @ [d]" using lw by (cases w rule: rev_cases) auto
  have "u \<noteq> []"
    using assms c by (auto simp: redaction_marker_def plain_secret_def)
  moreover have "z \<noteq> []"
  proof
    assume "z = []"
    then have "last (u @ w2 @ [d]) = last redaction_marker" using assms(2) d by simp
    then show False using assms(1) d by (simp add: redaction_marker_def plain_secret_def)
  qed
  ultimately have "0 < length u" and "0 < length z" by simp_all
  with len lw have "length u = 1" and w8: "length w = 8" by linarith+
  then obtain a where "u = [a]" by (cases u) auto
  with assms(2) have "w @ z = ''REDACTED]''" by (simp add: redaction_marker_def)
  then have "take 8 (w @ z) = take 8 ''REDACTED]''" by simp
  then have "w = ''REDACTED''" using w8 by simp
  with assms(1) show False by (simp add: plain_secret_def)
qed

lemma contains_marker_append:
  assumes "plain_secret w" and "contains (redaction_marker @ t) w"
  shows "contains t w"
proof -
  obtain u z where eq: "redaction_marker @ t = u @ w @ z"
    using assms(2) by (auto simp: contains_decomp)
  then consider a where "u = redaction_marker @ a" "t = a @ w @ z"
    | b where "redaction_marker = u @ b" "b @ t = w @ z"
    by (auto simp: append_eq_append_conv2)
  then show ?thesis
  proof cases
    case 1
    then show ?thesis by (auto simp: contains_decomp)
  next
    case 2
    from 2(2) consider c where "w = b @ c" "t = c @ z" | d where "b = w @ d" "d @ t = z"
      by (auto simp: append_eq_append_conv2)
    then show ?thesis
    proof cases
      case 1
      show ?thesis
      proof (cases "b = []")
        case True
        with 1 show ?thesis by (auto simp: contains_decomp)
      next
        case False
        with 2(1) have "last b = CHR '']''"
          by (metis last_append last.simps list.distinct(1) redaction_marker_def)
        with False 1 assms(1) show ?thesis
          by (metis Un_iff last_in_set plain_secret_def set_append)
      qed
    next
      case 2
      with \<open>redaction_marker = u @ b\<close> assms(1) plain_not_in_marker show ?thesis by metis
    qed
  qed
qed

lemma redaction_skips:
  assumes "plain_secret w"
  shows "marker_skips redaction_marker w"
proof -
  have "redaction_marker \<noteq> [] \<and> hd redaction_marker \<notin> set w"
    using assms by (simp add: redaction_marker_def plain_secret_def)
  then show ?thesis using contains_marker_append [OF assms] by (simp add: marker_skips_def)
qed

lemma redact_one_no_new: "plain_secret w \<Longrightarrow> contains (redact_one v s) w \<Longrightarrow> contains s w"
  by (auto simp: redact_one_def replace_all_no_new [OF redaction_skips] split: if_splits)

lemma plain_nonempty: "plain_secret v \<Longrightarrow> v \<noteq> []"
  by (auto simp: plain_secret_def min_secret_len_def)

lemma redact_one_removes: "plain_secret v \<Longrightarrow> \<not> contains (redact_one v s) v"
  by (simp add: redact_one_def replace_all_removes redaction_skips plain_nonempty)

lemma redact_fold_no_new:
  "plain_secret w \<Longrightarrow> contains (fold redact_one vs s) w \<Longrightarrow> contains s w"
  by (induction vs arbitrary: s) (auto dest: redact_one_no_new)

lemma redact_fold_removes:
  "\<forall>v\<in>set vs. plain_secret v \<Longrightarrow> w \<in> set vs \<Longrightarrow> \<not> contains (fold redact_one vs s) w"
proof (induction vs arbitrary: s)
  case (Cons v vs)
  show ?case
  proof (cases "w = v")
    case True
    with Cons.prems have "plain_secret w" by simp
    with True show ?thesis
      using redact_one_removes [of w s] redact_fold_no_new [of w vs "redact_one w s"] by auto
  next
    case False
    with Cons show ?thesis by simp
  qed
qed simp

section \<open>The redaction interface\<close>

text \<open>
  What the boundaries that externalise error text rely on: in a ready state, scrubbed text
  holds no registered secret, clean text is left alone, and registering extends the set.
\<close>

locale redactor =
  fixes scrub :: "'r \<Rightarrow> string \<Rightarrow> string"
    and ready :: "'r \<Rightarrow> bool"
    and secrets :: "'r \<Rightarrow> string set"
    and register :: "string \<Rightarrow> 'r \<Rightarrow> 'r"
    and admissible :: "string \<Rightarrow> bool"
  assumes scrub_clean: "ready r \<Longrightarrow> v \<in> secrets r \<Longrightarrow> \<not> contains (scrub r s) v"
    and scrub_id: "ready r \<Longrightarrow> \<forall>v\<in>secrets r. \<not> contains s v \<Longrightarrow> scrub r s = s"
    and ready_register: "ready r \<Longrightarrow> admissible v \<Longrightarrow> ready (register v r)"
    and secrets_register: "ready r \<Longrightarrow> admissible v \<Longrightarrow> secrets (register v r) = insert v (secrets r)"
begin

lemma scrub_idem: "ready r \<Longrightarrow> scrub r (scrub r s) = scrub r s"
  by (rule scrub_id) (simp_all add: scrub_clean)

lemma scrub_registered:
  "ready r \<Longrightarrow> admissible v \<Longrightarrow> \<not> contains (scrub (register v r) s) v"
  by (simp add: scrub_clean ready_register secrets_register)

lemma scrub_keeps_clean:
  "ready r \<Longrightarrow> admissible v \<Longrightarrow> w \<in> secrets r \<Longrightarrow> \<not> contains (scrub (register v r) s) w"
  by (simp add: scrub_clean ready_register secrets_register)

end

text \<open>The map iteration of the runtime enumerates the keys, each once.\<close>

definition iterates :: "(string set \<Rightarrow> string list) \<Rightarrow> bool" where
  "iterates iter \<longleftrightarrow> (\<forall>V. finite V \<longrightarrow> set (iter V) = V \<and> distinct (iter V))"

lemma iterates_sorted: "iterates sorted_list_of_set"
  by (simp add: iterates_def)

definition reg_ready :: "(string set \<Rightarrow> string list) \<Rightarrow> registry \<Rightarrow> bool" where
  "reg_ready iter r \<longleftrightarrow> iterates iter \<and> finite (reg_values r) \<and> (\<forall>v\<in>reg_values r. plain_secret v)"

lemma set_redact_order:
  "iterates iter \<Longrightarrow> finite (reg_values r) \<Longrightarrow> set (redact_order iter r) = reg_values r"
  by (simp add: redact_order_def iterates_def)

lemma redact_string_removes:
  assumes "reg_ready iter r" and "v \<in> reg_values r"
  shows "\<not> contains (redact_string iter r s) v"
proof -
  have o: "set (redact_order iter r) = reg_values r"
    using assms(1) by (simp add: reg_ready_def set_redact_order)
  have "\<not> contains (fold redact_one (redact_order iter r) s) v"
    using assms o by (intro redact_fold_removes) (auto simp: reg_ready_def)
  moreover have "v \<noteq> []"
    using assms by (auto simp: reg_ready_def plain_secret_def min_secret_len_def)
  ultimately show ?thesis
    using assms(2) by (auto simp: redact_string_def)
qed

lemma redact_fold_id: "\<forall>v\<in>set vs. \<not> contains s v \<Longrightarrow> fold redact_one vs s = s"
  by (induction vs) (auto simp: redact_one_def)

lemma redact_string_id:
  assumes "iterates iter" "finite (reg_values r)" "\<forall>v\<in>reg_values r. \<not> contains s v"
  shows "redact_string iter r s = s"
  using assms by (simp add: redact_string_def redact_fold_id set_redact_order)

interpretation reg: redactor "redact_string iter" "reg_ready iter" reg_values reg_add plain_secret
  for iter
proof unfold_locales
  fix r v s
  show "reg_ready iter r \<Longrightarrow> v \<in> reg_values r \<Longrightarrow> \<not> contains (redact_string iter r s) v"
    by (rule redact_string_removes)
next
  fix r s
  show "reg_ready iter r \<Longrightarrow> \<forall>v\<in>reg_values r. \<not> contains s v \<Longrightarrow> redact_string iter r s = s"
    by (simp add: reg_ready_def redact_string_id)
qed (auto simp: reg_ready_def reg_add_def plain_secret_def)

section \<open>Properties\<close>

text \<open>
  C4. Redaction is complete: when every registered secret is plain, no registered secret
  is a substring of the redacted string, whatever the order of the map iteration.
\<close>

theorem redact_complete:
  assumes "reg_ready iter r" and "v \<in> reg_values r"
  shows "\<not> contains (redact_string iter r s) v"
  using assms by (rule reg.scrub_clean)

lemma redact_complete_witness:
  "\<not> contains (redact_string sorted_list_of_set
      \<lparr>reg_values = {''0123456789abcdef'', ''01234567''}\<rparr> ''pw=0123456789abcdef!'') ''01234567''"
  by (rule redact_complete)
    (simp_all add: reg_ready_def iterates_sorted plain_secret_def min_secret_len_def)

text \<open>
  Redaction is idempotent, so a string that crosses two boundaries (activity log, then
  RPC error) is not mangled the second time.
\<close>

theorem redact_idempotent:
  assumes "reg_ready iter r"
  shows "redact_string iter r (redact_string iter r s) = redact_string iter r s"
  using assms by (rule reg.scrub_idem)

lemma redact_idempotent_witness:
  "redact_string sorted_list_of_set \<lparr>reg_values = {''hunter2hunter2''}\<rparr>
     (redact_string sorted_list_of_set \<lparr>reg_values = {''hunter2hunter2''}\<rparr> ''x=hunter2hunter2'')
   = redact_string sorted_list_of_set \<lparr>reg_values = {''hunter2hunter2''}\<rparr> ''x=hunter2hunter2''"
  by (rule redact_idempotent)
    (simp add: reg_ready_def iterates_sorted plain_secret_def min_secret_len_def)

text \<open>
  Overlapping secrets can leave a tail behind, although the comment on \<open>RedactString\<close>
  says sorting by length prevents it: the two secrets below overlap without one containing
  the other, and the last four characters of the second survive.
\<close>

theorem redact_overlap_leaves_tail:
  "redact_string sorted_list_of_set \<lparr>reg_values = {''secret-01A'', ''01Atail99''}\<rparr> ''secret-01Atail99''
   = ''[REDACTED]tail99''"
  by (simp add: redact_string_def redact_order_def redact_one_def redaction_marker_def
      replace_all.simps sorted_list_of_set_insert_remove)

end
