(* ===== verification/Orch.thy ===== *)
theory Orch
  imports Go_Prelude
begin

text \<open>
  The step orchestrator of \<^verbatim>\<open>internal/orch\<close> (\<^verbatim>\<open>plan.go\<close>, \<^verbatim>\<open>dryrun.go\<close>). Steps and callbacks are
  arbitrary functions on the world \<open>'w\<close>, which holds whatever they read and write (Docker,
  files, rows, the clock and whether the caller's context is cancelled). A call ends with an
  error value or a panic. \<open>Run\<close> is sequential, so it is a function of the world; the abstract
  specification at the end is a transaction that undoes its log in reverse.
\<close>

section \<open>Data\<close>

datatype status = StatusPending | StatusRunning | StatusSucceeded | StatusFailed
  | StatusRolledBack | StatusSkipped

text \<open>The context a step is called with: the caller's, or the detached one of the rollback.\<close>

datatype ctx = Caller | Detached

datatype outcome = Returned "go_error option" | Panicked panic_value

record 'w step =
  step_name :: string
  step_apply :: "ctx \<Rightarrow> 'w \<Rightarrow> 'w \<times> outcome"
  step_rollback :: "ctx \<Rightarrow> 'w \<Rightarrow> 'w \<times> outcome"

record 'w plan =
  plan_name :: string
  plan_steps :: "'w step list"

record step_result =
  sr_name :: string
  sr_started :: gtime
  sr_duration :: duration
  sr_status :: status
  sr_error :: "go_error option"

record run_result =
  res_plan_name :: string
  res_started :: gtime
  res_duration :: duration
  res_steps :: "step_result list"
  res_rolled_back :: bool
  res_final_error :: "go_error option"

type_synonym ('a, 'w) callback = "('a \<Rightarrow> 'w \<Rightarrow> 'w \<times> panic_value option) option"

record 'w callbacks =
  on_step_start :: "(step_result, 'w) callback"
  on_step_done :: "(step_result, 'w) callback"
  on_plan_done :: "(run_result, 'w) callback"

text \<open>What \<open>Run\<close> asks its surroundings: \<^verbatim>\<open>ctx.Err()\<close> of the caller's context and the clock.\<close>

record 'w surroundings =
  ctx_err :: "'w \<Rightarrow> go_error option"
  clock :: "'w \<Rightarrow> gtime"

section \<open>Calling steps and callbacks\<close>

fun rec_string :: "panic_value \<Rightarrow> string" where
  "rec_string (PanicError msg) = msg"
| "rec_string (PanicString s) = s"
| "rec_string PanicOther = ''unknown panic''"

definition safe_apply :: "ctx \<Rightarrow> 'w step \<Rightarrow> 'w \<Rightarrow> 'w \<times> go_error option" where
  "safe_apply c s w =
     (case step_apply s c w of
        (w', Returned e) \<Rightarrow> (w', e)
      | (w', Panicked p) \<Rightarrow> (w', Some (''step panicked: '' @ rec_string p)))"

definition safe_rollback :: "ctx \<Rightarrow> 'w step \<Rightarrow> 'w \<Rightarrow> 'w \<times> go_error option" where
  "safe_rollback c s w =
     (case step_rollback s c w of
        (w', Returned e) \<Rightarrow> (w', e)
      | (w', Panicked p) \<Rightarrow> (w', Some (''rollback panicked: '' @ rec_string p)))"

definition fire :: "('a, 'w) callback \<Rightarrow> 'a \<Rightarrow> 'w \<Rightarrow> 'w" where
  "fire cb v w = (case cb of None \<Rightarrow> w | Some f \<Rightarrow> fst (f v w))"

section \<open>Rollback and the main loop\<close>

fun rollback_prior ::
  "'w callbacks \<Rightarrow> 'w step list \<Rightarrow> nat \<Rightarrow> step_result list \<Rightarrow> 'w \<Rightarrow> bool \<times> step_result list \<times> 'w" where
  "rollback_prior cb ss 0 rs w = (False, rs, w)"
| "rollback_prior cb ss (Suc i) rs w =
     (if sr_status (rs ! i) \<noteq> StatusSucceeded then rollback_prior cb ss i rs w
      else let (w1, err) = safe_rollback Detached (ss ! i) w;
               sr = (rs ! i)\<lparr>sr_status := StatusRolledBack, sr_error := err\<rparr>;
               (_, rs', w') = rollback_prior cb ss i (rs[i := sr]) (fire (on_step_done cb) sr w1)
           in (True, rs', w'))"

text \<open>The index one past the last \<^const>\<open>StatusSucceeded\<close> entry, 0 when there is none.\<close>

fun past_last_success :: "step_result list \<Rightarrow> nat \<Rightarrow> nat" where
  "past_last_success rs 0 = 0"
| "past_last_success rs (Suc i) =
     (if sr_status (rs ! i) = StatusSucceeded then Suc i else past_last_success rs i)"

definition mark_skipped_from :: "nat \<Rightarrow> step_result list \<Rightarrow> step_result list" where
  "mark_skipped_from j rs = take j rs @ map (\<lambda>r. r\<lparr>sr_status := StatusSkipped\<rparr>) (drop j rs)"

definition finish_run ::
  "'w surroundings \<Rightarrow> 'w callbacks \<Rightarrow> 'w plan \<Rightarrow> gtime \<Rightarrow> bool \<Rightarrow> go_error option \<Rightarrow> step_result list
    \<Rightarrow> 'w \<Rightarrow> run_result \<times> 'w" where
  "finish_run env cb pl t0 rb err rs w =
     (let res = \<lparr>res_plan_name = plan_name pl, res_started = t0,
                 res_duration = time_sub (clock env w) t0, res_steps = rs,
                 res_rolled_back = rb, res_final_error = err\<rparr>
      in (res, fire (on_plan_done cb) res w))"

fun run_loop ::
  "'w surroundings \<Rightarrow> 'w callbacks \<Rightarrow> 'w plan \<Rightarrow> gtime \<Rightarrow> nat \<Rightarrow> 'w step list \<Rightarrow> step_result list
    \<Rightarrow> 'w \<Rightarrow> run_result \<times> 'w" where
  "run_loop env cb pl t0 i [] rs w =
     (case ctx_err env w of
        None \<Rightarrow> finish_run env cb pl t0 False None rs w
      | Some e \<Rightarrow>
          (let (rb, rs', w') = rollback_prior cb (plan_steps pl)
                                 (past_last_success rs (length (plan_steps pl))) rs w
           in finish_run env cb pl t0 rb (Some e) rs' w'))"
| "run_loop env cb pl t0 i (s # ss) rs w =
     (case ctx_err env w of
        Some e \<Rightarrow>
          run_loop env cb pl t0 (Suc i) ss
            (rs[i := (rs ! i)\<lparr>sr_status := StatusSkipped, sr_error := Some e\<rparr>]) w
      | None \<Rightarrow>
          (let sr = \<lparr>sr_name = step_name s, sr_started = clock env w, sr_duration = 0,
                     sr_status = StatusRunning, sr_error = None\<rparr>;
               w1 = fire (on_step_start cb) sr w;
               (w2, err) = safe_apply Caller s w1;
               sr = sr\<lparr>sr_duration := time_sub (clock env w2) (sr_started sr)\<rparr>
           in case err of
                Some e \<Rightarrow>
                  (let sr = sr\<lparr>sr_status := StatusFailed, sr_error := Some e\<rparr>;
                       w3 = fire (on_step_done cb) sr w2;
                       rs1 = mark_skipped_from (Suc i) (rs[i := sr]);
                       (rb, rs2, w4) = rollback_prior cb (plan_steps pl) i rs1 w3
                   in finish_run env cb pl t0 rb (Some e) rs2 w4)
              | None \<Rightarrow>
                  (let sr = sr\<lparr>sr_status := StatusSucceeded\<rparr>
                   in run_loop env cb pl t0 (Suc i) ss (rs[i := sr]) (fire (on_step_done cb) sr w2))))"

definition initial_results :: "'w step list \<Rightarrow> step_result list" where
  "initial_results ss =
     map (\<lambda>s. \<lparr>sr_name = step_name s, sr_started = 0, sr_duration = 0,
               sr_status = StatusPending, sr_error = None\<rparr>) ss"

definition run :: "'w surroundings \<Rightarrow> 'w plan \<Rightarrow> 'w callbacks \<Rightarrow> 'w \<Rightarrow> run_result \<times> 'w" where
  "run env pl cb w =
     run_loop env cb pl (clock env w) 0 (plan_steps pl) (initial_results (plan_steps pl)) w"

section \<open>Dry runs\<close>

text \<open>
  A describer is optional; it may panic, and a panic leaves the empty description it had.
  The sentinel line has an em dash in the source, three bytes in UTF-8.
\<close>

datatype describe_outcome = Described string "go_error option" | DescribePanicked panic_value

record 'w dry_step =
  dry_name :: string
  dry_describer :: "('w \<Rightarrow> describe_outcome) option"

record dry_step_result =
  dsr_name :: string
  dsr_description :: string
  dsr_implemented :: bool
  dsr_error :: "go_error option"

record dry_result =
  dr_plan_name :: string
  dr_steps :: "dry_step_result list"

definition em_dash :: string where "em_dash = map char_of [226, 128, 148 :: nat]"

definition no_preview :: string where
  "no_preview = ''(no preview available '' @ em_dash @ '' step does not implement orch.Describer)''"

definition safe_describe :: "('w \<Rightarrow> describe_outcome) \<Rightarrow> 'w \<Rightarrow> string \<times> go_error option" where
  "safe_describe d w =
     (case d w of
        Described line e \<Rightarrow> (line, e)
      | DescribePanicked p \<Rightarrow> ([], Some (''describe panicked: '' @ rec_string p)))"

definition dry_entry :: "'w dry_step \<Rightarrow> 'w \<Rightarrow> dry_step_result" where
  "dry_entry s w =
     (case dry_describer s of
        Some d \<Rightarrow>
          (let (line, e) = safe_describe d w
           in \<lparr>dsr_name = dry_name s, dsr_description = line, dsr_implemented = True, dsr_error = e\<rparr>)
      | None \<Rightarrow>
          \<lparr>dsr_name = dry_name s, dsr_description = no_preview, dsr_implemented = False,
           dsr_error = None\<rparr>)"

text \<open>
  Describers read the world and may not write it, so the world is the same for all of them;
  the context can still be cancelled meanwhile, so \<open>cancelled i\<close> is \<^verbatim>\<open>ctx.Err()\<close> before step \<open>i\<close>.
\<close>

fun dry_loop ::
  "(nat \<Rightarrow> go_error option) \<Rightarrow> nat \<Rightarrow> 'w dry_step list \<Rightarrow> 'w \<Rightarrow> dry_step_result list
    \<Rightarrow> dry_step_result list \<times> go_error option" where
  "dry_loop cancelled i [] w acc = (acc, None)"
| "dry_loop cancelled i (s # ss) w acc =
     (case cancelled i of
        Some e \<Rightarrow> (acc, Some e)
      | None \<Rightarrow> dry_loop cancelled (Suc i) ss w (acc @ [dry_entry s w]))"

definition dry ::
  "(nat \<Rightarrow> go_error option) \<Rightarrow> string \<Rightarrow> 'w dry_step list \<Rightarrow> 'w \<Rightarrow> dry_result \<times> go_error option" where
  "dry cancelled name ss w =
     (let (rs, e) = dry_loop cancelled 0 ss w [] in (\<lparr>dr_plan_name = name, dr_steps = rs\<rparr>, e))"

definition newline :: string where "newline = [char_of (10 :: nat)]"

definition format_step :: "nat \<Rightarrow> dry_step_result \<Rightarrow> string" where
  "format_step i s =
     ''  '' @ itoa (int i + 1) @ ''. '' @ dsr_name s @ newline @
     (case dsr_error s of None \<Rightarrow> [] | Some e \<Rightarrow> ''     ! describe error: '' @ e @ newline) @
     (if dsr_description s \<noteq> [] then ''     - '' @ dsr_description s @ newline else [])"

definition dry_format :: "dry_result \<Rightarrow> string" where
  "dry_format r =
     ''Plan: '' @ dr_plan_name r @ '' ('' @ itoa (int (length (dr_steps r))) @ '' steps)'' @ newline @
     concat (map (\<lambda>(i, s). format_step i s) (enumerate 0 (dr_steps r)))"


section \<open>Status lists of a run\<close>

abbreviation statuses :: "step_result list \<Rightarrow> status list" where
  "statuses rs \<equiv> map sr_status rs"





lemma statuses_update: "i < length rs \<Longrightarrow> statuses (rs[i := x]) = (statuses rs)[i := sr_status x]"
  by (simp add: map_update)



lemma past_last_success_shape:
  assumes "statuses rs = replicate a StatusSucceeded @ replicate b StatusSkipped" and "i \<le> a + b" "a \<le> i"
  shows "past_last_success rs i = a"
  using assms(2,3)
proof (induction i)
  case (Suc i)
  have len: "length rs = a + b" using arg_cong [OF assms(1), of length] by simp
  then have "sr_status (rs ! i) = (if i < a then StatusSucceeded else StatusSkipped)"
    using Suc.prems assms(1) by (metis (no_types) Suc_le_eq length_replicate nth_append nth_map nth_replicate
        add_diff_inverse_nat nat_add_left_cancel_less)
  then show ?case using Suc by (cases "i < a") auto
qed simp









section \<open>The transaction a run implements\<close>

text \<open>
  The abstract specification: apply the steps in order, keeping the applied ones in a log
  (latest first); on the first error, or when the context is cancelled between steps or at
  the end, undo the log from its head.
\<close>

definition undo_all :: "'w step list \<Rightarrow> 'w \<Rightarrow> 'w" where
  "undo_all log w = fold (\<lambda>s v. fst (safe_rollback Detached s v)) log w"

fun transaction ::
  "('w \<Rightarrow> go_error option) \<Rightarrow> 'w step list \<Rightarrow> 'w step list \<Rightarrow> 'w \<Rightarrow> go_error option \<times> 'w" where
  "transaction cancelled [] log w =
     (case cancelled w of None \<Rightarrow> (None, w) | Some e \<Rightarrow> (Some e, undo_all log w))"
| "transaction cancelled (s # ss) log w =
     (case cancelled w of
        Some e \<Rightarrow> (Some e, undo_all log w)
      | None \<Rightarrow>
          (case safe_apply Caller s w of
             (v, None) \<Rightarrow> transaction cancelled ss (s # log) v
           | (v, Some e) \<Rightarrow> (Some e, undo_all log v)))"

definition quiet :: "'w callbacks \<Rightarrow> bool" where
  "quiet cb \<longleftrightarrow> (\<forall>v w. fire (on_step_start cb) v w = w) \<and> (\<forall>v w. fire (on_step_done cb) v w = w)
     \<and> (\<forall>v w. fire (on_plan_done cb) v w = w)"

lemma rollback_prior_undo:
  assumes "quiet cb"
  shows "rollback_prior cb ss i rs w = (b, rs', w') \<Longrightarrow> i \<le> length rs \<Longrightarrow> length ss = length rs \<Longrightarrow>
    (\<forall>j<i. sr_status (rs ! j) = StatusSucceeded) \<Longrightarrow> w' = undo_all (rev (take i ss)) w"
proof (induction i arbitrary: rs w b rs' w')
  case 0
  then show ?case by (simp add: undo_all_def)
next
  case (Suc i)
  define sr where "sr = (rs ! i)\<lparr>sr_status := StatusRolledBack,
      sr_error := snd (safe_rollback Detached (ss ! i) w)\<rparr>"
  have "sr_status (rs ! i) = StatusSucceeded" using Suc.prems(4) by simp
  with Suc.prems(1) obtain b1 where
    "rollback_prior cb ss i (rs[i := sr]) (fire (on_step_done cb) sr (fst (safe_rollback Detached (ss ! i) w)))
      = (b1, rs', w')"
    by (auto simp: Let_def sr_def split: prod.splits)
  with assms have "rollback_prior cb ss i (rs[i := sr]) (fst (safe_rollback Detached (ss ! i) w)) = (b1, rs', w')"
    by (simp add: quiet_def)
  from Suc.IH [OF this] Suc.prems
  have "w' = undo_all (rev (take i ss)) (fst (safe_rollback Detached (ss ! i) w))" by simp
  moreover have "take (Suc i) ss = take i ss @ [ss ! i]"
    using Suc.prems by (simp add: take_Suc_conv_app_nth)
  ultimately show ?case by (simp add: undo_all_def)
qed

lemma run_loop_skips:
  "ctx_err env w = Some e \<Longrightarrow> i + length ss \<le> length rs \<Longrightarrow>
     \<exists>rs'. run_loop env cb pl t0 i ss rs w = run_loop env cb pl t0 (i + length ss) [] rs' w
       \<and> length rs' = length rs
       \<and> statuses rs' = take i (statuses rs) @ replicate (length ss) StatusSkipped
                         @ drop (i + length ss) (statuses rs)"
proof (induction ss arbitrary: i rs)
  case Nil
  then show ?case by (intro exI [of _ rs]) simp
next
  case (Cons s ss)
  let ?rs = "rs[i := (rs ! i)\<lparr>sr_status := StatusSkipped, sr_error := Some e\<rparr>]"
  obtain rs' where rs': "run_loop env cb pl t0 (Suc i) ss ?rs w
      = run_loop env cb pl t0 (Suc i + length ss) [] rs' w" "length rs' = length rs"
    "statuses rs' = take (Suc i) (statuses ?rs) @ replicate (length ss) StatusSkipped
       @ drop (Suc i + length ss) (statuses ?rs)"
    using Cons.IH [of "Suc i" ?rs] Cons.prems by auto
  have "take (Suc i) (statuses ?rs) = take i (statuses rs) @ [StatusSkipped]"
    using Cons.prems by (simp add: statuses_update take_Suc_conv_app_nth)
  with rs' Cons.prems show ?case
    by (intro exI [of _ rs']) (simp add: statuses_update)
qed

lemma succeeded_prefix:
  assumes "statuses rs = replicate a StatusSucceeded @ xs"
  shows "\<forall>j<a. sr_status (rs ! j) = StatusSucceeded"
proof (intro allI impI)
  fix j assume j: "j < a"
  then have "statuses rs ! j = StatusSucceeded" by (simp add: assms nth_append)
  moreover have "j < length rs" using arg_cong [OF assms, of length] j by simp
  ultimately show "sr_status (rs ! j) = StatusSucceeded" by simp
qed

lemma run_loop_transaction:
  assumes q: "quiet cb"
  shows "run_loop env cb pl t0 a ss rs w = (r, w') \<Longrightarrow>
    statuses rs = replicate a StatusSucceeded @ replicate (length ss) StatusPending \<Longrightarrow>
    ss = drop a (plan_steps pl) \<Longrightarrow> a \<le> length (plan_steps pl) \<Longrightarrow>
    (res_final_error r, w') = transaction (ctx_err env) ss (rev (take a (plan_steps pl))) w"
proof (induction ss arbitrary: a rs w)
  case Nil
  then have a: "a = length (plan_steps pl)" by simp
  have len: "length rs = a" using arg_cong [OF Nil.prems(2), of length] by simp
  have succ: "\<forall>j<a. sr_status (rs ! j) = StatusSucceeded"
    using succeeded_prefix [OF Nil.prems(2)] .
  show ?case
  proof (cases "ctx_err env w")
    case None
    with Nil.prems q a show ?thesis by (auto simp: finish_run_def Let_def quiet_def)
  next
    case (Some e)
    have "past_last_success rs a = a" using succ by (cases a) auto
    moreover obtain rb rs' w1 where rb: "rollback_prior cb (plan_steps pl) a rs w = (rb, rs', w1)"
      by (metis prod_cases3)
    moreover have "w1 = undo_all (rev (take a (plan_steps pl))) w"
      by (rule rollback_prior_undo [OF q rb _ _ succ]) (use len a in simp_all)
    ultimately show ?thesis
      using Nil.prems(1) Some a q by (auto simp: finish_run_def Let_def quiet_def)
  qed
next
  case (Cons s ss)
  have len: "length rs = a + Suc (length ss)" using arg_cong [OF Cons.prems(2), of length] by simp
  have lp: "length (plan_steps pl) = a + Suc (length ss)"
    using Cons.prems(3,4) by (metis diff_diff_cancel diff_le_self length_drop length_Cons le_add_diff_inverse)
  have s: "s = plan_steps pl ! a" "ss = drop (Suc a) (plan_steps pl)"
    using Cons.prems(3) lp by (metis Cons_nth_drop_Suc less_add_Suc1 list.inject add_Suc_right)+
  have succ: "\<forall>j<a. sr_status (rs ! j) = StatusSucceeded"
    using succeeded_prefix [OF Cons.prems(2)] .
  have snoc: "rev (take (Suc a) (plan_steps pl)) = s # rev (take a (plan_steps pl))"
    using lp s by (simp add: take_Suc_conv_app_nth)
  show ?case
  proof (cases "ctx_err env w")
    case (Some e)
    obtain rs' where rs': "run_loop env cb pl t0 a (s # ss) rs w
        = run_loop env cb pl t0 (a + Suc (length ss)) [] rs' w" "length rs' = length rs"
      "statuses rs' = replicate a StatusSucceeded @ replicate (Suc (length ss)) StatusSkipped"
      using run_loop_skips [OF Some, of a "s # ss" rs cb pl t0] len by (auto simp: Cons.prems(2))
    have past: "past_last_success rs' (length (plan_steps pl)) = a"
      using lp by (intro past_last_success_shape [OF rs'(3)]) simp_all
    obtain rb rs2 w1 where rb: "rollback_prior cb (plan_steps pl) a rs' w = (rb, rs2, w1)"
      by (metis prod_cases3)
    have "\<forall>j<a. sr_status (rs' ! j) = StatusSucceeded"
      using succeeded_prefix [OF rs'(3)] .
    then have "w1 = undo_all (rev (take a (plan_steps pl))) w"
      using rollback_prior_undo [OF q rb] rs'(2) len lp by simp
    then show ?thesis
      using Cons.prems(1) rs'(1) Some past rb q by (auto simp: finish_run_def Let_def quiet_def)
  next
    case None
    define sr where "sr = \<lparr>sr_name = step_name s, sr_started = clock env w, sr_duration = 0,
                     sr_status = StatusRunning, sr_error = None\<rparr>"
    have q1: "fire (on_step_start cb) v u = u" "fire (on_step_done cb) v u = u" "fire (on_plan_done cb) x u = u"
      for v x u using q by (simp_all add: quiet_def)
    obtain w2 err where ap: "safe_apply Caller s w = (w2, err)" by (metis surj_pair)
    define sr1 where "sr1 = sr\<lparr>sr_duration := time_sub (clock env w2) (sr_started sr)\<rparr>"
    show ?thesis
    proof (cases err)
      case None
      let ?sr = "sr1\<lparr>sr_status := StatusSucceeded\<rparr>"
      have "run_loop env cb pl t0 (Suc a) ss (rs[a := ?sr]) w2 = (r, w')"
        using Cons.prems(1) \<open>ctx_err env w = None\<close> ap None by (simp add: q1 sr_def sr1_def Let_def)
      moreover have "statuses (rs[a := ?sr]) = replicate (Suc a) StatusSucceeded @ replicate (length ss) StatusPending"
        using Cons.prems(2) len
        by (simp add: statuses_update list_update_append replicate_app_Cons_same)
      ultimately have "(res_final_error r, w') =
          transaction (ctx_err env) ss (rev (take (Suc a) (plan_steps pl))) w2"
        by (rule Cons.IH [OF _ _ s(2)]) (use lp in simp)
      then show ?thesis using \<open>ctx_err env w = None\<close> ap None by (simp add: snoc)
    next
      case (Some e)
      let ?rs = "mark_skipped_from (Suc a) (rs[a := sr1\<lparr>sr_status := StatusFailed, sr_error := Some e\<rparr>])"
      obtain rb rs2 w4 where rb: "rollback_prior cb (plan_steps pl) a ?rs w2 = (rb, rs2, w4)"
        by (metis prod_cases3)
      have "\<forall>j<a. sr_status (?rs ! j) = StatusSucceeded"
        using succ len by (simp add: mark_skipped_from_def nth_append)
      moreover have "length ?rs = length rs" using len by (simp add: mark_skipped_from_def)
      ultimately have "w4 = undo_all (rev (take a (plan_steps pl))) w2"
        using rollback_prior_undo [OF q rb] len lp by simp
      moreover have "(r, w') = finish_run env cb pl t0 rb (Some e) rs2 w4"
        using Cons.prems(1) \<open>ctx_err env w = None\<close> ap Some rb
        by (simp add: q1 sr_def sr1_def Let_def)
      ultimately show ?thesis
        using \<open>ctx_err env w = None\<close> ap Some by (simp add: finish_run_def Let_def q1)
    qed
  qed
qed


section \<open>Atomicity of plans whose steps undo themselves\<close>

text \<open>
  The contract between the orchestrator and the steps of a plan, for the part \<open>obs\<close> of the
  world the plan must treat atomically. \<open>at i\<close> holds where step \<open>i\<close> may start: an applied step
  leads to the start of the next one and its rollback takes \<open>obs\<close> back to where the step found
  it, a step that fails leaves \<open>obs\<close> alone, and progress callbacks disturb neither.
\<close>

locale compensating_steps =
  fixes obs :: "'w \<Rightarrow> 'a" and "at" :: "nat \<Rightarrow> 'w \<Rightarrow> bool" and steps :: "'w step list" and cb :: "'w callbacks"
  assumes step_next: "i < length steps \<Longrightarrow> at i w \<Longrightarrow> safe_apply Caller (steps ! i) w = (w1, None) \<Longrightarrow>
      at (Suc i) w1"
    and undo: "i < length steps \<Longrightarrow> at i w \<Longrightarrow> safe_apply Caller (steps ! i) w = (w1, None) \<Longrightarrow> obs v = obs w1 \<Longrightarrow>
      obs (fst (safe_rollback Detached (steps ! i) v)) = obs w"
    and fail: "i < length steps \<Longrightarrow> at i w \<Longrightarrow> safe_apply Caller (steps ! i) w = (w1, Some e) \<Longrightarrow> obs w1 = obs w"
    and start_quiet: "obs (fire (on_step_start cb) sr w) = obs w" "at i w \<Longrightarrow> at i (fire (on_step_start cb) sr w)"
    and done_quiet: "obs (fire (on_step_done cb) sr w) = obs w" "at i w \<Longrightarrow> at i (fire (on_step_done cb) sr w)"
    and plan_quiet: "obs (fire (on_plan_done cb) res w) = obs w"
begin

text \<open>From \<open>w\<close>, undoing steps \<open>i - 1, \<dots>, 0\<close> of \<open>ss\<close> leads back to \<open>w0\<close>, as far as \<open>obs\<close> sees.\<close>

fun way_back :: "'w step list \<Rightarrow> nat \<Rightarrow> 'w \<Rightarrow> 'w \<Rightarrow> bool" where
  "way_back ss 0 w0 w = (obs w = obs w0)"
| "way_back ss (Suc i) w0 w =
     (\<exists>w1. way_back ss i w0 w1 \<and> (\<forall>v. obs v = obs w \<longrightarrow> obs (fst (safe_rollback Detached (ss ! i) v)) = obs w1))"

lemma way_back_obs: "way_back ss i w0 w \<Longrightarrow> obs v = obs w \<Longrightarrow> way_back ss i w0 v"
  by (cases i) auto

lemma rollback_prior_restores:
  "rollback_prior cb ss i rs w = (b, rs', w') \<Longrightarrow> \<forall>j<i. sr_status (rs ! j) = StatusSucceeded \<Longrightarrow>
     way_back ss i w0 w \<Longrightarrow> obs w' = obs w0"
proof (induction i arbitrary: rs w b rs' w')
  case (Suc i)
  define sr where "sr = (rs ! i)\<lparr>sr_status := StatusRolledBack,
      sr_error := snd (safe_rollback Detached (ss ! i) w)\<rparr>"
  have "sr_status (rs ! i) = StatusSucceeded" using Suc.prems(2) by simp
  with Suc.prems(1) obtain b1 where rb:
    "rollback_prior cb ss i (rs[i := sr])
       (fire (on_step_done cb) sr (fst (safe_rollback Detached (ss ! i) w))) = (b1, rs', w')"
    by (auto simp: Let_def sr_def split: prod.splits)
  from Suc.prems(3) obtain w1 where w1: "way_back ss i w0 w1"
    "obs (fst (safe_rollback Detached (ss ! i) w)) = obs w1" by auto
  have "way_back ss i w0 (fire (on_step_done cb) sr (fst (safe_rollback Detached (ss ! i) w)))"
    by (rule way_back_obs [OF w1(1)]) (simp add: done_quiet w1(2))
  with Suc.IH [OF rb] Suc.prems(2) show ?case by simp
qed simp

lemma finish_run_obs: "finish_run env cb pl t0 rb e rs w = (r, w') \<Longrightarrow> obs w' = obs w"
  by (auto simp: finish_run_def Let_def plan_quiet)

lemma run_loop_atomic:
  "run_loop env cb pl t0 a ss rs w = (r, w') \<Longrightarrow> plan_steps pl = steps \<Longrightarrow> at a w \<Longrightarrow>
   statuses rs = replicate a StatusSucceeded @ replicate (length ss) StatusPending \<Longrightarrow>
   ss = drop a (plan_steps pl) \<Longrightarrow> length (plan_steps pl) = a + length ss \<Longrightarrow>
   way_back (plan_steps pl) a w0 w \<Longrightarrow> res_final_error r \<noteq> None \<Longrightarrow> obs w' = obs w0"
proof (induction ss arbitrary: a rs w)
  case Nil
  show ?case
  proof (cases "ctx_err env w")
    case None
    with Nil.prems show ?thesis by (auto simp: finish_run_def Let_def)
  next
    case (Some e)
    have sh: "statuses rs = replicate a StatusSucceeded @ replicate 0 StatusSkipped"
      using Nil.prems(4) by simp
    obtain rb rs' w1 where rb: "rollback_prior cb (plan_steps pl) a rs w = (rb, rs', w1)"
      by (metis prod_cases3)
    from past_last_success_shape [OF sh, of a] have "past_last_success rs a = a" by simp
    then have "finish_run env cb pl t0 rb (Some e) rs' w1 = (r, w')"
      using Nil.prems(1,6) Some rb by simp
    from finish_run_obs [OF this] rollback_prior_restores [OF rb succeeded_prefix [OF sh] Nil.prems(7)]
    show ?thesis by simp
  qed
next
  case (Cons s ss)
  have len: "length rs = a + Suc (length ss)" using arg_cong [OF Cons.prems(4), of length] by simp
  have lp: "length (plan_steps pl) = a + Suc (length ss)" using Cons.prems(6) by simp
  have s: "s = plan_steps pl ! a" "ss = drop (Suc a) (plan_steps pl)"
    using Cons.prems(5) lp by (metis Cons_nth_drop_Suc less_add_Suc1 list.inject add_Suc_right)+
  then have sS: "a < length steps" "s = steps ! a" using Cons.prems(2) lp by auto
  show ?case
  proof (cases "ctx_err env w")
    case (Some e)
    obtain rs' where rs': "run_loop env cb pl t0 a (s # ss) rs w
        = run_loop env cb pl t0 (a + Suc (length ss)) [] rs' w"
      "statuses rs' = replicate a StatusSucceeded @ replicate (Suc (length ss)) StatusSkipped"
      using run_loop_skips [OF Some, of a "s # ss" rs cb pl t0] len by (auto simp: Cons.prems(4))
    have past: "past_last_success rs' (length (plan_steps pl)) = a"
      using lp by (intro past_last_success_shape [OF rs'(2)]) simp_all
    obtain rb rs2 w1 where rb: "rollback_prior cb (plan_steps pl) a rs' w = (rb, rs2, w1)"
      by (metis prod_cases3)
    then have "finish_run env cb pl t0 rb (Some e) rs2 w1 = (r, w')"
      using Cons.prems(1) rs'(1) Some past by simp
    from finish_run_obs [OF this] rollback_prior_restores [OF rb succeeded_prefix [OF rs'(2)] Cons.prems(7)]
    show ?thesis by simp
  next
    case None
    define sr where "sr = \<lparr>sr_name = step_name s, sr_started = clock env w, sr_duration = 0,
                     sr_status = StatusRunning, sr_error = None\<rparr>"
    define w1 where "w1 = fire (on_step_start cb) sr w"
    obtain w2 err where ap: "safe_apply Caller s w1 = (w2, err)" by (metis surj_pair)
    define sr1 where "sr1 = sr\<lparr>sr_duration := time_sub (clock env w2) (sr_started sr)\<rparr>"
    have o1: "way_back (plan_steps pl) a w0 w1"
      using way_back_obs [OF Cons.prems(7)] by (simp add: w1_def start_quiet)
    have at1: "at a w1" using Cons.prems(3) by (simp add: w1_def start_quiet)
    show ?thesis
    proof (cases err)
      case None
      let ?sr = "sr1\<lparr>sr_status := StatusSucceeded\<rparr>"
      let ?w3 = "fire (on_step_done cb) ?sr w2"
      have 1: "run_loop env cb pl t0 (Suc a) ss (rs[a := ?sr]) ?w3 = (r, w')"
        using Cons.prems(1) \<open>ctx_err env w = None\<close> ap None by (simp add: sr_def sr1_def w1_def Let_def)
      have 2: "statuses (rs[a := ?sr]) = replicate (Suc a) StatusSucceeded @ replicate (length ss) StatusPending"
        using Cons.prems(4) len
        by (simp add: statuses_update list_update_append replicate_app_Cons_same)
      have "\<forall>v. obs v = obs ?w3 \<longrightarrow> obs (fst (safe_rollback Detached (plan_steps pl ! a) v)) = obs w1"
        using undo [OF sS(1) at1] ap None s(1) sS(2) done_quiet(1) by auto
      with o1 have 3: "way_back (plan_steps pl) (Suc a) w0 ?w3" by auto
      show ?thesis
        by (rule Cons.IH [OF 1 Cons.prems(2) _ 2 s(2) _ 3 Cons.prems(8)])
          (use lp step_next [OF sS(1) at1] ap None sS(2) done_quiet(2) in auto)
    next
      case (Some e)
      let ?sr = "sr1\<lparr>sr_status := StatusFailed, sr_error := Some e\<rparr>"
      let ?rs = "mark_skipped_from (Suc a) (rs[a := ?sr])"
      let ?w3 = "fire (on_step_done cb) ?sr w2"
      obtain rb rs2 w4 where rb: "rollback_prior cb (plan_steps pl) a ?rs ?w3 = (rb, rs2, w4)"
        by (metis prod_cases3)
      have "\<forall>j<a. sr_status (?rs ! j) = StatusSucceeded"
        using succeeded_prefix [OF Cons.prems(4)] len by (simp add: mark_skipped_from_def nth_append)
      moreover have "way_back (plan_steps pl) a w0 ?w3"
        by (rule way_back_obs [OF o1]) (use fail [OF sS(1) at1] ap Some sS(2) done_quiet(1) in simp)
      ultimately have "obs w4 = obs w0" using rollback_prior_restores [OF rb] by blast
      moreover have "finish_run env cb pl t0 rb (Some e) rs2 w4 = (r, w')"
        using Cons.prems(1) \<open>ctx_err env w = None\<close> ap Some rb
        by (simp add: sr_def sr1_def w1_def Let_def)
      ultimately show ?thesis using finish_run_obs by metis
    qed
  qed
qed

theorem run_atomic:
  assumes "run env pl cb w = (r, w')" and "plan_steps pl = steps" and "at 0 w" and "res_final_error r \<noteq> None"
  shows "obs w' = obs w"
proof -
  have "run_loop env cb pl (clock env w) 0 (plan_steps pl) (initial_results (plan_steps pl)) w = (r, w')"
    using assms(1) by (simp add: run_def)
  from run_loop_atomic [OF this assms(2,3), where ?w0.0 = w] assms(4) show ?thesis
    by (simp add: initial_results_def comp_def map_replicate_const)
qed

end

section \<open>Properties\<close>


text \<open>
  C3. Refinement: when the callbacks leave the world alone, the error and the world a run ends
  with are those of the transaction that applies the steps in order and, on the first failure
  or cancellation, undoes the applied ones in reverse order under a detached context.
\<close>

theorem run_refines_transaction:
  assumes "quiet cb"
  shows "(case run env pl cb w of (r, w') \<Rightarrow> (res_final_error r, w'))
    = transaction (ctx_err env) (plan_steps pl) [] w"
proof (cases "run env pl cb w")
  case (Pair r w')
  then have "run_loop env cb pl (clock env w) 0 (plan_steps pl) (initial_results (plan_steps pl)) w = (r, w')"
    by (simp add: run_def)
  from run_loop_transaction [OF assms this] Pair show ?thesis
    by (simp add: initial_results_def comp_def map_replicate_const)
qed

definition no_callbacks :: "'w callbacks" where
  "no_callbacks = \<lparr>on_step_start = None, on_step_done = None, on_plan_done = None\<rparr>"

lemma quiet_no_callbacks: "quiet no_callbacks"
  by (simp add: quiet_def no_callbacks_def fire_def)

definition log_step :: "string \<Rightarrow> outcome \<Rightarrow> string list step" where
  "log_step n out = \<lparr>step_name = n, step_apply = (\<lambda>_ w. (w @ [n], out)),
     step_rollback = (\<lambda>_ w. (w @ [''undo '' @ n], Returned None))\<rparr>"

lemma run_refines_transaction_witness:
  "(case run \<lparr>ctx_err = (\<lambda>_. None), clock = (\<lambda>_. 0)\<rparr>
      \<lparr>plan_name = ''p'', plan_steps = [log_step ''a'' (Returned None), log_step ''b'' (Returned None),
         log_step ''c'' (Panicked PanicOther)]\<rparr> no_callbacks [] of (r, w') \<Rightarrow> (res_final_error r, w'))
   = (Some ''step panicked: unknown panic'', [''a'', ''b'', ''c'', ''undo b'', ''undo a''])"
  by (subst run_refines_transaction [OF quiet_no_callbacks])
    (simp add: log_step_def safe_apply_def safe_rollback_def undo_all_def)

definition cancel_point :: "(nat \<Rightarrow> go_error option) \<Rightarrow> nat \<Rightarrow> nat \<Rightarrow> nat" where
  "cancel_point cancelled i n = length (takeWhile (\<lambda>j. cancelled j = None) [i..<i + n])"

lemma cancel_point_Suc:
  "cancel_point cancelled i (Suc n) = (if cancelled i = None then Suc (cancel_point cancelled (Suc i) n) else 0)"
  by (simp add: cancel_point_def upt_conv_Cons del: upt_Suc)

lemma dry_loop_eq:
  "dry_loop cancelled i ss w acc =
     (acc @ map (\<lambda>s. dry_entry s w) (take (cancel_point cancelled i (length ss)) ss),
      if cancel_point cancelled i (length ss) = length ss then None
      else cancelled (i + cancel_point cancelled i (length ss)))"
  by (induction ss arbitrary: i acc) (auto simp: cancel_point_Suc split: option.splits, simp_all add: cancel_point_def)

text \<open>
  A dry run never applies anything and keeps every step's position: it has one entry per
  step, in order, up to the first step at which the context is cancelled, whose error it
  returns; with no cancellation it describes the whole plan and returns no error.
\<close>

theorem dry_describes_prefix:
  "case dry cancelled name ss w of (r, e) \<Rightarrow>
     let n = cancel_point cancelled 0 (length ss)
     in dr_plan_name r = name \<and> dr_steps r = map (\<lambda>s. dry_entry s w) (take n ss)
       \<and> map dsr_name (dr_steps r) = map dry_name (take n ss)
       \<and> e = (if n = length ss then None else cancelled n)"
proof -
  have nm: "dsr_name (dry_entry s w) = dry_name s" for s :: "'a dry_step"
    by (simp add: dry_entry_def split: option.splits prod.splits)
  then show ?thesis by (simp add: dry_def dry_loop_eq comp_def Let_def)
qed

end
