(* ===== verification/Site_Types.thy ===== *)
theory Site_Types
  imports Go_Prelude
begin

text \<open>
  The data model shared by storage, hooks, the site manager and the daemon: the \<^verbatim>\<open>Site\<close> struct of
  \<^verbatim>\<open>internal/types/types.go\<close>, field by field, and the container names derived from a slug
  (\<^verbatim>\<open>internal/docker/specs_builders.go\<close>).
\<close>

record site =
  site_id :: string
  site_name :: string
  site_slug :: string
  site_domain :: string
  site_files_dir :: string
  site_public_dir :: string
  site_started :: bool
  site_php_version :: string
  site_redis_version :: string
  site_db_password :: string
  site_web_server :: string
  site_multisite :: string
  site_db_engine :: string
  site_db_version :: string
  site_mysql_version :: string
  site_publish_db_port :: bool
  site_spx_enabled :: bool
  site_lan_enabled :: bool
  site_spx_key :: string
  site_salts :: string
  site_git_remote :: string
  site_git_branch :: string
  site_worktree_path :: string
  site_parent_site_id :: string
  site_created_at :: string
  site_updated_at :: string

text \<open>Go's zero value of the struct.\<close>

definition empty_site :: site where
  "empty_site =
     \<lparr>site_id = [], site_name = [], site_slug = [], site_domain = [], site_files_dir = [],
      site_public_dir = [], site_started = False, site_php_version = [], site_redis_version = [],
      site_db_password = [], site_web_server = [], site_multisite = [], site_db_engine = [],
      site_db_version = [], site_mysql_version = [], site_publish_db_port = False,
      site_spx_enabled = False, site_lan_enabled = False, site_spx_key = [], site_salts = [],
      site_git_remote = [], site_git_branch = [], site_worktree_path = [], site_parent_site_id = [],
      site_created_at = [], site_updated_at = []\<rparr>"

definition site_container_name :: "string \<Rightarrow> string \<Rightarrow> string" where
  "site_container_name slug role = ''locorum-'' @ slug @ ''-'' @ role"

lemma site_container_name_inj: "site_container_name slug r = site_container_name slug r' \<longleftrightarrow> r = r'"
  by (simp add: site_container_name_def)

end
