(* ===== verification/Hooks.thy ===== *)
theory Hooks
  imports Site_Types
begin

text \<open>
  Lifecycle hooks: \<^verbatim>\<open>internal/hooks\<close> (\<^verbatim>\<open>hooks.go\<close>, \<^verbatim>\<open>events.go\<close>, \<^verbatim>\<open>env.go\<close>, \<^verbatim>\<open>tasks.go\<close>). Events, task
  types and services are Go strings and stay strings here, so unknown values are values. The
  runner is in \<^verbatim>\<open>Hook_Runner\<close>.
\<close>

section \<open>Events\<close>

definition all_events :: "string list" where
  "all_events =
     [''pre-start'', ''post-start'', ''pre-stop'', ''post-stop'', ''pre-delete'', ''post-delete'',
      ''pre-clone'', ''post-clone'', ''pre-versions-change'', ''post-versions-change'',
      ''pre-multisite'', ''post-multisite'', ''pre-export'', ''post-export'',
      ''pre-import-db'', ''post-import-db'', ''pre-import-files'', ''post-import-files'',
      ''pre-snapshot'', ''post-snapshot'', ''pre-restore-snapshot'', ''post-restore-snapshot'',
      ''pre-import-site'', ''post-import-site'', ''pre-lan-enable'', ''post-lan-enable'',
      ''pre-lan-disable'', ''post-lan-disable'']"

definition active_events :: "string list" where
  "active_events =
     [''pre-start'', ''post-start'', ''pre-stop'', ''post-stop'', ''pre-delete'', ''post-delete'',
      ''pre-clone'', ''post-clone'', ''pre-versions-change'', ''post-versions-change'',
      ''pre-multisite'', ''post-multisite'', ''pre-export'', ''post-export'',
      ''pre-import-db'', ''post-import-db'', ''pre-snapshot'', ''post-snapshot'',
      ''pre-lan-enable'', ''post-lan-enable'', ''pre-lan-disable'', ''post-lan-disable'']"

definition sorted_active_events :: "string list" where
  "sorted_active_events = sort active_events"

definition event_valid :: "string \<Rightarrow> bool" where
  "event_valid e \<longleftrightarrow> e \<in> set all_events"

definition allows_container_tasks :: "string \<Rightarrow> bool" where
  "allows_container_tasks e \<longleftrightarrow>
     e \<notin> {''pre-start'', ''post-stop'', ''pre-delete'', ''post-delete'', ''pre-snapshot'',
          ''post-snapshot'', ''pre-restore-snapshot'', ''post-restore-snapshot'',
          ''pre-import-site'', ''post-import-site''}"

section \<open>Hooks and their validation\<close>

definition task_exec :: string where "task_exec = ''exec''"
definition task_exec_host :: string where "task_exec_host = ''exec-host''"
definition task_wpcli :: string where "task_wpcli = ''wp-cli''"

lemmas task_defs = task_exec_def task_exec_host_def task_wpcli_def

definition task_type_valid :: "string \<Rightarrow> bool" where
  "task_type_valid t \<longleftrightarrow> t = task_exec \<or> t = task_exec_host \<or> t = task_wpcli"

record hook =
  hook_id :: int
  hook_site_id :: string
  hook_event :: string
  hook_position :: int
  hook_task_type :: string
  hook_command :: string
  hook_service :: string
  hook_run_as_user :: string
  hook_enabled :: bool
  hook_created_at :: string
  hook_updated_at :: string

datatype hook_error = ErrEmptyCommand | InvalidHook string | ErrSkipped | PlainError string

text \<open>\<^verbatim>\<open>errors.Is(err, ErrHookInvalid)\<close>, and \<^verbatim>\<open>err.Error()\<close>.\<close>

fun is_hook_invalid :: "hook_error \<Rightarrow> bool" where
  "is_hook_invalid (InvalidHook _) = True"
| "is_hook_invalid _ = False"

fun hook_error_string :: "hook_error \<Rightarrow> string" where
  "hook_error_string ErrEmptyCommand = ''hook command is empty''"
| "hook_error_string (InvalidHook msg) = msg"
| "hook_error_string ErrSkipped = ''hooks skipped: LOCORUM_SKIP_HOOKS=1''"
| "hook_error_string (PlainError msg) = msg"

definition valid_service :: "string \<Rightarrow> bool" where
  "valid_service s \<longleftrightarrow> s = ''php'' \<or> s = ''web'' \<or> s = ''database'' \<or> s = ''redis''"

definition hook_validate :: "hook \<Rightarrow> hook_error option" where
  "hook_validate h =
     (if \<not> task_type_valid (hook_task_type h)
        then Some (InvalidHook (''unknown task type: '' @ hook_task_type h))
      else if hook_command h = [] then Some ErrEmptyCommand
      else if hook_event h \<noteq> [] \<and> \<not> event_valid (hook_event h)
        then Some (InvalidHook (''unknown event: '' @ hook_event h))
      else if hook_task_type h = task_exec \<and> hook_service h \<noteq> [] \<and> \<not> valid_service (hook_service h)
        then Some (InvalidHook (''unknown service: '' @ hook_service h))
      else if hook_task_type h \<noteq> task_exec \<and> hook_service h \<noteq> []
        then Some (InvalidHook ''service is only valid for task_type=exec'')
      else if hook_task_type h \<noteq> task_exec \<and> hook_run_as_user h \<noteq> []
        then Some (InvalidHook ''run_as_user is only valid for task_type=exec'')
      else if hook_event h \<noteq> [] \<and> \<not> allows_container_tasks (hook_event h)
              \<and> (hook_task_type h = task_exec \<or> hook_task_type h = task_wpcli)
        then Some (InvalidHook (''event '' @ hook_event h
               @ '' runs before containers exist; use exec-host''))
      else None)"

section \<open>The environment of a task\<close>

datatype env_context = ContextContainer | ContextHost

fun env_context_string :: "env_context \<Rightarrow> string" where
  "env_context_string ContextHost = ''host''"
| "env_context_string ContextContainer = ''container''"

definition host_db_port :: string where "host_db_port = ''3306''"

definition primary_url :: "string \<Rightarrow> string" where
  "primary_url domain = (if domain = [] then [] else ''https://'' @ domain)"

text \<open>What \<^verbatim>\<open>BuildEnv\<close> reads besides the site: the app version, the platform, the GUI probe.\<close>

record build_info =
  bi_version :: string
  bi_goos :: string
  bi_gui :: bool

text \<open>The map literal of \<^verbatim>\<open>BuildEnv\<close>, in source order.\<close>

definition env_vars :: "build_info \<Rightarrow> site \<Rightarrow> env_context \<Rightarrow> (string \<times> string) list" where
  "env_vars bi s ctx =
     (let domain = (if site_domain s = [] \<and> site_slug s \<noteq> [] then site_slug s @ ''.localhost''
                    else site_domain s);
          web_server = (if site_web_server s = [] then ''nginx'' else site_web_server s);
          db_host = (if ctx = ContextHost then ''127.0.0.1'' else ''database'');
          db_port = (if ctx = ContextHost then host_db_port else ''3306'');
          gui = (if \<not> bi_gui bi then ''0'' else ''1'')
      in [(''LOCORUM_VERSION'', bi_version bi),
          (''LOCORUM_SITE_ID'', site_id s),
          (''LOCORUM_SITE_NAME'', site_name s),
          (''LOCORUM_SITE_SLUG'', site_slug s),
          (''LOCORUM_DOMAIN'', domain),
          (''LOCORUM_PRIMARY_URL'', primary_url domain),
          (''LOCORUM_PHP_VERSION'', site_php_version s),
          (''LOCORUM_MYSQL_VERSION'', site_mysql_version s),
          (''LOCORUM_REDIS_VERSION'', site_redis_version s),
          (''LOCORUM_WEBSERVER'', web_server),
          (''LOCORUM_MULTISITE'', site_multisite s),
          (''LOCORUM_FILES_DIR'', site_files_dir s),
          (''LOCORUM_PUBLIC_DIR'', site_public_dir s),
          (''LOCORUM_DB_HOST'', db_host),
          (''LOCORUM_DB_NAME'', ''wordpress''),
          (''LOCORUM_DB_USER'', ''wordpress''),
          (''LOCORUM_DB_PASSWORD'', site_db_password s),
          (''LOCORUM_DB_PORT'', db_port),
          (''LOCORUM_OS'', bi_goos bi),
          (''LOCORUM_GUI'', gui),
          (''LOCORUM_CONTEXT'', env_context_string ctx)])"

definition build_env :: "build_info \<Rightarrow> site option \<Rightarrow> env_context \<Rightarrow> string list" where
  "build_env bi so ctx =
     (case so of None \<Rightarrow> []
      | Some s \<Rightarrow>
          (let vars = env_vars bi s ctx
           in map (\<lambda>k. k @ ''='' @ (case map_of vars k of None \<Rightarrow> [] | Some v \<Rightarrow> v))
                (sort (map fst vars))))"

section \<open>Tasks\<close>

datatype task =
    ExecTask (et_container: string) (et_service: string) (et_cmd: "string list")
      (et_user: string) (et_env: "string list")
  | HostTask (ht_command: string) (ht_cwd: string) (ht_env: "string list")

definition task_describe :: "task \<Rightarrow> string" where
  "task_describe t =
     (case t of
        ExecTask _ svc cmd _ _ \<Rightarrow> ''[exec/'' @ svc @ ''] '' @ join '' '' cmd
      | HostTask cmd _ _ \<Rightarrow> ''[exec-host] '' @ cmd)"

definition task_from_hook :: "hook \<Rightarrow> site option \<Rightarrow> string list \<Rightarrow> hook_error + task" where
  "task_from_hook h so env =
     (case so of None \<Rightarrow> Inl (PlainError ''taskFromHook: nil site'')
      | Some s \<Rightarrow>
          (case hook_validate h of
             Some e \<Rightarrow> Inl e
           | None \<Rightarrow>
               if hook_task_type h = task_exec then
                 (let service = (if hook_service h = [] then ''php'' else hook_service h);
                      container = ''locorum-'' @ site_slug s @ ''-'' @ service
                  in Inr (ExecTask container service [''/bin/sh'', ''-c'', hook_command h]
                       (hook_run_as_user h) env))
               else if hook_task_type h = task_wpcli then
                 Inr (ExecTask (''locorum-'' @ site_slug s @ ''-php'') ''php''
                       [''/bin/sh'', ''-c'', ''wp '' @ hook_command h] (hook_run_as_user h) env)
               else if hook_task_type h = task_exec_host then
                 Inr (HostTask (hook_command h) (site_files_dir s) env)
               else Inl (PlainError (''taskFromHook: unhandled task type ''
                      @ hook_task_type h))))"

definition default_task_timeout :: duration where "default_task_timeout = 5 * minute"

section \<open>Lemmas\<close>

lemma distinct_all_events: "distinct all_events"
  by (simp add: all_events_def)

lemma active_subset_all: "set active_events \<subseteq> set all_events"
  by (simp add: active_events_def all_events_def)

lemma hook_validate_None:
  "hook_validate h = None \<longleftrightarrow>
     task_type_valid (hook_task_type h) \<and> hook_command h \<noteq> [] \<and>
     (hook_event h = [] \<or> event_valid (hook_event h)) \<and>
     (if hook_task_type h = task_exec then hook_service h = [] \<or> valid_service (hook_service h)
      else hook_service h = [] \<and> hook_run_as_user h = []) \<and>
     (hook_event h = [] \<or> allows_container_tasks (hook_event h) \<or> hook_task_type h = task_exec_host)"
  by (auto simp: hook_validate_def task_type_valid_def task_defs)

lemma hook_validate_type: "hook_validate h = None \<Longrightarrow>
  hook_task_type h = task_exec \<or> hook_task_type h = task_wpcli \<or> hook_task_type h = task_exec_host"
  by (auto simp: hook_validate_None task_type_valid_def)

lemma task_from_hook_valid:
  "hook_validate h = None \<Longrightarrow> \<exists>t. task_from_hook h (Some s) env = Inr t"
  using hook_validate_type [of h] by (auto simp: task_from_hook_def Let_def)

lemma task_from_hook_invalid:
  "hook_validate h = Some e \<Longrightarrow> task_from_hook h (Some s) env = Inl e"
  by (simp add: task_from_hook_def)

lemma task_from_hook_ok:
  "(\<exists>t. task_from_hook h (Some s) env = Inr t) \<longleftrightarrow> hook_validate h = None"
proof (cases "hook_validate h")
  case None
  then show ?thesis by (simp add: task_from_hook_valid)
next
  case (Some e)
  then show ?thesis by (simp add: task_from_hook_invalid)
qed

lemma task_from_hook_error:
  "task_from_hook h (Some s) env = Inl e \<longleftrightarrow> hook_validate h = Some e"
proof (cases "hook_validate h")
  case None
  then show ?thesis using task_from_hook_valid [OF None, of s env] by auto
next
  case (Some e)
  then show ?thesis by (auto simp: task_from_hook_invalid)
qed

lemma env_vars_keys:
  "map fst (env_vars bi s ctx) = map fst (env_vars bi' s' ctx')"
  by (simp only: env_vars_def Let_def list.map fst_conv)

lemma distinct_env_keys: "distinct (map fst (env_vars bi s ctx))"
  by (simp only: env_vars_def Let_def list.map fst_conv) code_simp

section \<open>Properties\<close>

text \<open>
  No task runs inside a container at an event where the site's containers do not exist:
  whatever a hook row holds, if \<open>taskFromHook\<close> accepts it at such an event, the task is a
  host task in the site's files directory.
\<close>

theorem no_container_task_without_containers:
  assumes "\<not> allows_container_tasks (hook_event h)" and "task_from_hook h (Some s) env = Inr t"
  shows "t = HostTask (hook_command h) (site_files_dir s) env"
proof -
  have v: "hook_validate h = None" using assms(2) task_from_hook_ok by blast
  moreover have "hook_event h \<noteq> []" using assms(1) by (auto simp: allows_container_tasks_def)
  ultimately have "hook_task_type h = task_exec_host"
    using assms(1) by (simp add: hook_validate_None)
  with assms(2) v show ?thesis by (simp add: task_from_hook_def task_defs)
qed

definition sample_hook :: hook where
  "sample_hook = \<lparr>hook_id = 1, hook_site_id = ''s1'', hook_event = ''pre-start'', hook_position = 0,
     hook_task_type = ''exec-host'', hook_command = ''ls'', hook_service = [], hook_run_as_user = [],
     hook_enabled = True, hook_created_at = [], hook_updated_at = []\<rparr>"

lemma sample_hook_valid: "hook_validate sample_hook = None"
  by (simp add: hook_validate_None sample_hook_def task_type_valid_def task_defs event_valid_def
      all_events_def)

lemma no_container_task_without_containers_witness:
  "\<not> allows_container_tasks (hook_event sample_hook) \<and>
   (\<exists>t. task_from_hook sample_hook (Some empty_site) [] = Inr t \<and> t = HostTask ''ls'' [] [])"
proof -
  have a: "\<not> allows_container_tasks (hook_event sample_hook)"
    by (simp add: allows_container_tasks_def sample_hook_def)
  obtain t where t: "task_from_hook sample_hook (Some empty_site) [] = Inr t"
    using task_from_hook_ok sample_hook_valid by blast
  from no_container_task_without_containers [OF a t] a t show ?thesis
    by (simp add: sample_hook_def empty_site_def)
qed

text \<open>
  A container task always addresses one of the four containers of the hook's own site,
  through \<open>/bin/sh -c\<close>, never a container of another site.
\<close>

theorem container_task_stays_on_site:
  assumes "task_from_hook h (Some s) env = Inr (ExecTask c svc cmd user env')"
  shows "c = site_container_name (site_slug s) svc \<and> svc \<in> {''php'', ''web'', ''database'', ''redis''}
    \<and> take 2 cmd = [''/bin/sh'', ''-c''] \<and> length cmd = 3 \<and> env' = env"
proof -
  have v: "hook_validate h = None" using assms task_from_hook_ok by blast
  with assms show ?thesis
    by (auto simp: task_from_hook_def Let_def hook_validate_None valid_service_def
        site_container_name_def split: if_splits)
qed

lemma container_task_stays_on_site_witness:
  "''locorum-blog-php'' = site_container_name ''blog'' ''php'' \<and> ''php'' \<in> {''php'', ''web'', ''database'', ''redis''}
    \<and> take 2 [''/bin/sh'', ''-c'', ''wp cron event run''] = [''/bin/sh'', ''-c'']
    \<and> length [''/bin/sh'', ''-c'', ''wp cron event run''] = 3 \<and> ([] :: string list) = []"
  using container_task_stays_on_site
    [of "sample_hook\<lparr>hook_event := ''post-start'', hook_task_type := ''wp-cli'', hook_command := ''cron event run''\<rparr>"
        "empty_site\<lparr>site_slug := ''blog''\<rparr>" "[]" "''locorum-blog-php''" "''php''"
        "[''/bin/sh'', ''-c'', ''wp cron event run'']" "[]" "[]"]
  by (simp add: task_from_hook_def hook_validate_def sample_hook_def empty_site_def task_type_valid_def
      task_defs event_valid_def all_events_def allows_container_tasks_def)

text \<open>
  The task environment is reproducible: its variable names are exactly the 21 documented
  ones in sorted order, for every site, platform and context.
\<close>

theorem build_env_names_sorted:
  "\<exists>ks. sorted ks \<and> distinct ks \<and> length ks = 21 \<and>
     (\<forall>bi s ctx. set ks = fst ` set (env_vars bi s ctx) \<and>
        build_env bi (Some s) ctx = map (\<lambda>k. k @ ''='' @ the (map_of (env_vars bi s ctx) k)) ks)"
proof -
  define ks where "ks = sort (map fst (env_vars undefined undefined undefined))"
  have len: "length ks = 21" by (simp add: ks_def env_vars_def Let_def del: if_split)
  have dk: "distinct ks" using distinct_env_keys by (simp add: ks_def)
  have st: "set ks = fst ` set (env_vars bi s ctx)" for bi s ctx
    using env_vars_keys [of undefined undefined undefined bi s ctx] by (metis ks_def list.set_map set_sort)
  have "build_env bi (Some s) ctx = map (\<lambda>k. k @ ''='' @ the (map_of (env_vars bi s ctx) k)) ks" for bi s ctx
  proof -
    have "build_env bi (Some s) ctx =
        map (\<lambda>k. k @ ''='' @ (case map_of (env_vars bi s ctx) k of None \<Rightarrow> [] | Some v \<Rightarrow> v)) ks"
      by (simp add: build_env_def Let_def ks_def env_vars_keys [of undefined undefined undefined bi s ctx])
    also have "\<dots> = map (\<lambda>k. k @ ''='' @ the (map_of (env_vars bi s ctx) k)) ks"
      using st [of bi s ctx]
      by (auto simp: map_of_eq_None_iff split: option.splits)
    finally show ?thesis .
  qed
  moreover have "sorted ks" by (simp add: ks_def)
  ultimately show ?thesis using len dk st by blast
qed

end
