(* ===== verification/Hook_Runner.thy ===== *)
theory Hook_Runner
  imports Hooks
begin

text \<open>
  The hook runner of \<^verbatim>\<open>internal/hooks/runner.go\<close>. The world \<open>'w\<close> and the functions on it stand
  for what the runner is configured with: the lister, the settings, the container and host
  executors, the environment variable, the log directory, the caller's context and the clock.
  The log file is the list of the lines written to it (timestamps as instants, not formatted);
  the callbacks, which a panic or a nil cannot make fail, are the list of the events fired.
\<close>

section \<open>Results, summaries, events\<close>

datatype run_error = HookErr hook_error | ExitedWith string int | CtxErr go_error | LoadErr go_error | NilSite

record result =
  r_hook :: hook
  r_started :: gtime
  r_finished :: gtime
  r_exit_code :: int
  r_err :: "hook_error option"
  r_stderr_seen :: bool
  r_lines :: int
  r_log_path :: string

definition result_duration :: "result \<Rightarrow> duration" where
  "result_duration r = time_sub (r_finished r) (r_started r)"

definition result_succeeded :: "result \<Rightarrow> bool" where
  "result_succeeded r \<longleftrightarrow> r_err r = None \<and> r_exit_code r = 0"

record summary =
  s_event :: string
  s_site_id :: string
  s_total :: int
  s_succeeded :: int
  s_failed :: int
  s_skipped :: int
  s_aborted :: bool
  s_duration :: duration
  s_log_path :: string

definition empty_summary :: "string \<Rightarrow> string \<Rightarrow> summary" where
  "empty_summary ev sid = \<lparr>s_event = ev, s_site_id = sid, s_total = 0, s_succeeded = 0, s_failed = 0,
     s_skipped = 0, s_aborted = False, s_duration = 0, s_log_path = []\<rparr>"

datatype callback_event = TaskStart hook | Output string bool | TaskDone result | AllDone summary

datatype log_line = LogHeader string string string int gtime | LogText string | LogStartedAt gtime
  | LogFinishedAt gtime int duration | LogFooter summary

section \<open>Dependencies and state\<close>

record 'w hook_deps =
  hd_list :: "string \<Rightarrow> string \<Rightarrow> 'w \<Rightarrow> go_error + hook list"
  hd_setting :: "string \<Rightarrow> 'w \<Rightarrow> string"
  hd_skip :: "'w \<Rightarrow> bool"
  hd_open_log :: "string \<Rightarrow> 'w \<Rightarrow> bool"
  hd_exec :: "task \<Rightarrow> 'w \<Rightarrow> 'w \<times> (string \<times> bool) list \<times> int \<times> hook_error option"
  hd_ctx_err :: "'w \<Rightarrow> go_error option"
  hd_clock :: "'w \<Rightarrow> gtime"
  hd_stamp :: "'w \<Rightarrow> string"
  hd_build :: build_info
  hd_logs_base :: string

record 'w run_state =
  rs_world :: 'w
  rs_log :: "log_line list option"
  rs_trace :: "callback_event list"

definition fire_event :: "callback_event \<Rightarrow> 'w run_state \<Rightarrow> 'w run_state" where
  "fire_event e st = st\<lparr>rs_trace := rs_trace st @ [e]\<rparr>"

definition write_log :: "log_line \<Rightarrow> 'w run_state \<Rightarrow> 'w run_state" where
  "write_log l st = st\<lparr>rs_log := map_option (\<lambda>ls. ls @ [l]) (rs_log st)\<rparr>"

section \<open>Settings and the log file\<close>

definition hook_parse_bool :: "string \<Rightarrow> bool" where
  "hook_parse_bool s \<longleftrightarrow> to_lower (trim_space s) \<in> {''true'', ''1'', ''yes'', ''on''}"

definition setting_key_fail_global :: string where
  "setting_key_fail_global = ''hooks.fail_on_error.global''"
definition setting_key_fail_prefix :: string where
  "setting_key_fail_prefix = ''hooks.fail_on_error.''"

definition fail_strict_for :: "'w hook_deps \<Rightarrow> string \<Rightarrow> 'w \<Rightarrow> bool" where
  "fail_strict_for d sid w =
     (let v = hd_setting d (setting_key_fail_prefix @ sid) w
      in if v \<noteq> [] then hook_parse_bool v
         else hook_parse_bool (hd_setting d setting_key_fail_global w))"

definition run_log_path :: "'w hook_deps \<Rightarrow> string \<Rightarrow> string \<Rightarrow> 'w \<Rightarrow> string" where
  "run_log_path d slug ev w =
     (let slug = (if slug = [] then ''_unknown'' else slug);
          name = (if ev = [] then ''ad-hoc'' else ev)
      in hd_logs_base d @ ''/'' @ slug @ ''/'' @ name @ ''-'' @ hd_stamp d w @ ''.log'')"

text \<open>\<^verbatim>\<open>openRunLog\<close>: the path and the empty file, or nothing when the file cannot be created.\<close>

definition open_run_log ::
  "'w hook_deps \<Rightarrow> string \<Rightarrow> string \<Rightarrow> 'w \<Rightarrow> string \<times> log_line list option" where
  "open_run_log d slug ev w =
     (let p = run_log_path d slug ev w
      in if hd_open_log d p w then (p, Some []) else ([], None))"

definition format_log_line :: "string \<Rightarrow> bool \<Rightarrow> string" where
  "format_log_line line stderr = (if stderr then ''! '' else ''  '') @ line"

definition ellipsis :: string where "ellipsis = map char_of [226, 128, 166 :: nat]"

definition truncate_to :: "string \<Rightarrow> nat \<Rightarrow> string" where
  "truncate_to s limit = (if length s \<le> limit then s else take limit s @ ellipsis)"

definition format_hook_header :: "hook \<Rightarrow> string" where
  "format_hook_header h = ''['' @ hook_task_type h @ ''] '' @ truncate_to (hook_command h) 80"

definition combine_task_error :: "result \<Rightarrow> run_error" where
  "combine_task_error r =
     (case r_err r of
        Some e \<Rightarrow> HookErr e
      | None \<Rightarrow> ExitedWith (format_hook_header (r_hook r)) (r_exit_code r))"

section \<open>Running one task\<close>

fun emit_lines :: "(string \<times> bool) list \<Rightarrow> 'w run_state \<Rightarrow> 'w run_state" where
  "emit_lines [] st = st"
| "emit_lines ((line, is_err) # ls) st =
     emit_lines ls (fire_event (Output line is_err) (write_log (LogText (format_log_line line is_err)) st))"

definition run_task ::
  "'w hook_deps \<Rightarrow> task \<Rightarrow> hook \<Rightarrow> string \<Rightarrow> 'w run_state \<Rightarrow> result \<times> 'w run_state" where
  "run_task d t h log_path st =
     (let t0 = hd_clock d (rs_world st);
          st = write_log (LogText []) st;
          st = write_log (LogText (''== '' @ task_describe t @ '' =='')) st;
          st = write_log (LogStartedAt t0) st;
          st = fire_event (TaskStart h) st;
          (w', ls, code, err) = hd_exec d t (rs_world st);
          st = emit_lines ls (st\<lparr>rs_world := w'\<rparr>);
          r = \<lparr>r_hook = h, r_started = t0, r_finished = hd_clock d w', r_exit_code = code, r_err = err,
               r_stderr_seen = (\<exists>l\<in>set ls. snd l), r_lines = int (length ls), r_log_path = log_path\<rparr>;
          st = write_log (LogFinishedAt (r_finished r) code (result_duration r)) st;
          st = (case err of None \<Rightarrow> st
                | Some e \<Rightarrow> write_log (LogText (''error: '' @ hook_error_string e)) st)
      in (r, fire_event (TaskDone r) st))"

definition failed_result :: "'w hook_deps \<Rightarrow> hook \<Rightarrow> hook_error \<Rightarrow> string \<Rightarrow> 'w \<Rightarrow> result" where
  "failed_result d h e log_path w =
     \<lparr>r_hook = h, r_started = hd_clock d w, r_finished = hd_clock d w, r_exit_code = - 1,
      r_err = Some e, r_stderr_seen = False, r_lines = 0, r_log_path = log_path\<rparr>"

definition handle_failed_task :: "result \<Rightarrow> hook_error \<Rightarrow> 'w run_state \<Rightarrow> 'w run_state" where
  "handle_failed_task r e st =
     (let st = write_log (LogText []) st;
          st = write_log (LogText (''== '' @ format_hook_header (r_hook r) @ '' =='')) st;
          st = write_log (LogText (''validation error: '' @ hook_error_string e)) st
      in fire_event (TaskDone r)
           (fire_event (Output (hook_error_string e) True) (fire_event (TaskStart (r_hook r)) st)))"

section \<open>Running an event\<close>

fun first_error :: "run_error option \<Rightarrow> run_error \<Rightarrow> run_error option" where
  "first_error None e = Some e"
| "first_error (Some f) e = Some f"

definition done_count :: "summary \<Rightarrow> int" where
  "done_count s = s_succeeded s + s_failed s + s_skipped s"

fun hooks_loop ::
  "'w hook_deps \<Rightarrow> site \<Rightarrow> bool \<Rightarrow> string \<Rightarrow> gtime \<Rightarrow> hook list \<Rightarrow> summary \<Rightarrow> run_error option
    \<Rightarrow> 'w run_state \<Rightarrow> run_error option \<times> 'w run_state" where
  "hooks_loop d s strict lp t0 [] sm fe st =
     (let sm = sm\<lparr>s_duration := time_sub (hd_clock d (rs_world st)) t0\<rparr>;
          st = fire_event (AllDone sm) (write_log (LogFooter sm) st)
      in (if strict then fe else None, st))"
| "hooks_loop d s strict lp t0 (h # hs) sm fe st =
     (case hd_ctx_err d (rs_world st) of
        Some e \<Rightarrow>
          (let sm = sm\<lparr>s_skipped := s_skipped sm + (s_total sm - s_succeeded sm - s_failed sm - s_skipped sm),
                       s_aborted := True, s_duration := time_sub (hd_clock d (rs_world st)) t0\<rparr>
           in (first_error fe (CtxErr e), fire_event (AllDone sm) st))
      | None \<Rightarrow>
          if \<not> hook_enabled h then
            hooks_loop d s strict lp t0 hs (sm\<lparr>s_skipped := s_skipped sm + 1\<rparr>) fe
              (write_log (LogText (''== SKIPPED (disabled): '' @ hook_command h @ '' =='')) st)
          else
            (let env = build_env (hd_build d) (Some s)
                         (if hook_task_type h = task_exec_host then ContextHost else ContextContainer)
             in case task_from_hook h (Some s) env of
                  Inl e \<Rightarrow>
                    (let r = failed_result d h e lp (rs_world st);
                         sm = sm\<lparr>s_failed := s_failed sm + 1\<rparr>;
                         st = handle_failed_task r e st
                     in if strict then
                          (let sm = sm\<lparr>s_aborted := True, s_duration := time_sub (hd_clock d (rs_world st)) t0\<rparr>
                           in (Some (HookErr e), fire_event (AllDone sm) st))
                        else hooks_loop d s strict lp t0 hs sm (first_error fe (HookErr e)) st)
                | Inr t \<Rightarrow>
                    (let (r, st) = run_task d t h lp st
                     in if result_succeeded r then
                          hooks_loop d s strict lp t0 hs (sm\<lparr>s_succeeded := s_succeeded sm + 1\<rparr>) fe st
                        else
                          (let sm = sm\<lparr>s_failed := s_failed sm + 1\<rparr>;
                               fe = first_error fe (combine_task_error r)
                           in if strict then
                                (let sm = sm\<lparr>s_aborted := True,
                                             s_skipped := s_skipped sm + (s_total sm - done_count sm),
                                             s_duration := time_sub (hd_clock d (rs_world st)) t0\<rparr>
                                 in (fe, fire_event (AllDone sm) st))
                              else hooks_loop d s strict lp t0 hs sm fe st))))"

definition run_hooks ::
  "'w hook_deps \<Rightarrow> string \<Rightarrow> site option \<Rightarrow> 'w \<Rightarrow> run_error option \<times> 'w run_state" where
  "run_hooks d ev so w =
     (let st = \<lparr>rs_world = w, rs_log = None, rs_trace = []\<rparr>
      in case so of None \<Rightarrow> (Some NilSite, st)
         | Some s \<Rightarrow>
             if hd_skip d w then (None, fire_event (AllDone (empty_summary ev (site_id s))) st)
             else case hd_list d (site_id s) ev w of
                    Inl e \<Rightarrow> (Some (LoadErr e), st)
                  | Inr hs \<Rightarrow>
                      if hs = [] then (None, fire_event (AllDone (empty_summary ev (site_id s))) st)
                      else
                        (let strict = fail_strict_for d (site_id s) w;
                             (lp, lf) = open_run_log d (site_slug s) ev w;
                             sm = (empty_summary ev (site_id s))\<lparr>s_log_path := lp, s_total := int (length hs)\<rparr>;
                             t0 = hd_clock d w;
                             st = write_log (LogHeader ev (site_name s) (site_slug s) (int (length hs)) t0)
                                    (st\<lparr>rs_log := lf\<rparr>)
                         in hooks_loop d s strict lp t0 hs sm None st))"

text \<open>\<^verbatim>\<open>RunOne\<close>: one hook outside the persistent flow, its error returned verbatim.\<close>

definition one_summary :: "hook \<Rightarrow> site \<Rightarrow> string \<Rightarrow> result \<Rightarrow> summary" where
  "one_summary h s lp r =
     \<lparr>s_event = hook_event h, s_site_id = site_id s, s_total = 1,
      s_succeeded = (if result_succeeded r then 1 else 0), s_failed = (if result_succeeded r then 0 else 1),
      s_skipped = 0, s_aborted = False, s_duration = result_duration r, s_log_path = lp\<rparr>"

definition run_one ::
  "'w hook_deps \<Rightarrow> hook \<Rightarrow> site option \<Rightarrow> 'w \<Rightarrow> result option \<times> run_error option \<times> 'w run_state" where
  "run_one d h so w =
     (let st = \<lparr>rs_world = w, rs_log = None, rs_trace = []\<rparr>
      in case so of None \<Rightarrow> (None, Some NilSite, st)
         | Some s \<Rightarrow>
             if hd_skip d w then
               (Some ((failed_result d h ErrSkipped [] w)\<lparr>r_exit_code := 0\<rparr>), Some (HookErr ErrSkipped), st)
             else
               (let (lp, lf) = open_run_log d (site_slug s) (hook_event h) w;
                    st = st\<lparr>rs_log := lf\<rparr>;
                    env = build_env (hd_build d) (Some s)
                            (if hook_task_type h = task_exec_host then ContextHost else ContextContainer)
                in case task_from_hook h (Some s) env of
                     Inl e \<Rightarrow>
                       (let r = failed_result d h e lp w
                        in (Some r, Some (HookErr e), handle_failed_task r e st))
                   | Inr t \<Rightarrow>
                       (let st = write_log (LogHeader (hook_event h) (site_name s) (site_slug s) 1
                                   (hd_clock d w)) st;
                            (r, st) = run_task d t h lp st;
                            st = write_log (LogFooter (one_summary h s lp r)) st
                        in (Some r,
                            (case r_err r of
                               Some e \<Rightarrow> Some (HookErr e)
                             | None \<Rightarrow>
                                 if r_exit_code r \<noteq> 0 then Some (ExitedWith [] (r_exit_code r)) else None),
                            st))))"

section \<open>What was started, what finished\<close>

fun started :: "callback_event list \<Rightarrow> hook list" where
  "started [] = []"
| "started (TaskStart h # es) = h # started es"
| "started (_ # es) = started es"

fun finished :: "callback_event list \<Rightarrow> result list" where
  "finished [] = []"
| "finished (TaskDone r # es) = r # finished es"
| "finished (_ # es) = finished es"

fun summaries :: "callback_event list \<Rightarrow> summary list" where
  "summaries [] = []"
| "summaries (AllDone s # es) = s # summaries es"
| "summaries (_ # es) = summaries es"

lemma started_append [simp]: "started (xs @ ys) = started xs @ started ys"
  by (induction xs rule: started.induct) auto

lemma finished_append [simp]: "finished (xs @ ys) = finished xs @ finished ys"
  by (induction xs rule: finished.induct) auto

lemma summaries_append [simp]: "summaries (xs @ ys) = summaries xs @ summaries ys"
  by (induction xs rule: summaries.induct) auto

lemma trace_simps [simp]:
  "rs_trace (fire_event e st) = rs_trace st @ [e]"
  "rs_trace (write_log l st) = rs_trace st"
  "rs_world (fire_event e st) = rs_world st"
  "rs_world (write_log l st) = rs_world st"
  by (simp_all add: fire_event_def write_log_def)

lemma emit_lines_trace:
  "rs_trace (emit_lines ls st) = rs_trace st @ map (\<lambda>(l, b). Output l b) ls"
  by (induction ls st rule: emit_lines.induct) auto

lemma emit_lines_views [simp]:
  "started (rs_trace (emit_lines ls st)) = started (rs_trace st)"
  "finished (rs_trace (emit_lines ls st)) = finished (rs_trace st)"
  "summaries (rs_trace (emit_lines ls st)) = summaries (rs_trace st)"
  by (induction ls st rule: emit_lines.induct) simp_all

lemma run_task_views:
  assumes "run_task d t h lp st = (r, st')"
  shows "started (rs_trace st') = started (rs_trace st) @ [h]"
    and "finished (rs_trace st') = finished (rs_trace st) @ [r]"
    and "summaries (rs_trace st') = summaries (rs_trace st)"
    and "r_hook r = h"
  using assms by (auto simp: run_task_def Let_def split: prod.splits option.splits)

lemma handle_failed_views [simp]:
  "started (rs_trace (handle_failed_task r e st)) = started (rs_trace st) @ [r_hook r]"
  "finished (rs_trace (handle_failed_task r e st)) = finished (rs_trace st) @ [r]"
  "summaries (rs_trace (handle_failed_task r e st)) = summaries (rs_trace st)"
  "rs_world (handle_failed_task r e st) = rs_world st"
  by (simp_all add: handle_failed_task_def Let_def)

lemma failed_result_simps [simp]:
  "r_hook (failed_result d h e lp w) = h" "\<not> result_succeeded (failed_result d h e lp w)"
  by (simp_all add: failed_result_def result_succeeded_def)


section \<open>What a run of the loop reports\<close>

text \<open>
  The report of the loop entered with the counters \<open>sm\<close> on the remaining hooks \<open>hs\<close>: it starts
  the enabled hooks of a prefix, each exactly once and in order, finishes each of them, and
  ends with one summary whose counters account for the results.
\<close>

definition all_valid :: "hook list \<Rightarrow> bool" where
  "all_valid hs \<longleftrightarrow> (\<forall>h\<in>set hs. hook_enabled h \<longrightarrow> hook_validate h = None)"

definition loop_report ::
  "bool \<Rightarrow> hook list \<Rightarrow> summary \<Rightarrow> run_error option \<Rightarrow> callback_event list \<Rightarrow> run_error option
    \<Rightarrow> callback_event list \<Rightarrow> nat \<Rightarrow> result list \<Rightarrow> summary \<Rightarrow> bool" where
  "loop_report strict hs sm fe tr e tr' n rs sm' \<longleftrightarrow>
     n \<le> length hs \<and> started tr' = started tr @ filter hook_enabled (take n hs) \<and>
     finished tr' = finished tr @ rs \<and> map r_hook rs = filter hook_enabled (take n hs) \<and>
     summaries tr' = summaries tr @ [sm'] \<and> s_total sm' = s_total sm \<and>
     s_succeeded sm' = s_succeeded sm + int (length (filter result_succeeded rs)) \<and>
     s_failed sm' = s_failed sm + int (length (filter (\<lambda>r. \<not> result_succeeded r) rs)) \<and>
     (strict \<longrightarrow> (\<forall>r\<in>set (butlast rs). result_succeeded r)) \<and>
     (strict \<longrightarrow> fe = None \<longrightarrow> (e = None \<longleftrightarrow> n = length hs \<and> (\<forall>r\<in>set rs. result_succeeded r))) \<and>
     (\<not> s_aborted sm \<longrightarrow> \<not> strict \<longrightarrow> \<not> s_aborted sm' \<longrightarrow> n = length hs \<and> e = None)"

lemma loop_report_disabled:
  "loop_report strict hs (sm\<lparr>s_skipped := k\<rparr>) fe tr e tr' n rs sm' \<Longrightarrow> \<not> hook_enabled h \<Longrightarrow>
     loop_report strict (h # hs) sm fe tr e tr' (Suc n) rs sm'"
  by (auto simp: loop_report_def)

lemma loop_report_done:
  assumes "loop_report strict hs sm1 fe1 tr1 e tr' n rs sm'" and "hook_enabled h"
    and "started tr1 = started tr @ [h]" "finished tr1 = finished tr @ [r]"
      "summaries tr1 = summaries tr" "r_hook r = h"
    and "s_total sm1 = s_total sm" "s_aborted sm1 = s_aborted sm"
    and "s_succeeded sm1 = s_succeeded sm + (if result_succeeded r then 1 else 0)"
    and "s_failed sm1 = s_failed sm + (if result_succeeded r then 0 else 1)"
    and "strict \<longrightarrow> result_succeeded r \<and> fe1 = fe"
  shows "loop_report strict (h # hs) sm fe tr e tr' (Suc n) (r # rs) sm'"
  using assms by (auto simp: loop_report_def)

lemma loop_report_abort:
  assumes "hook_enabled h" "started tr' = started tr @ [h]" "finished tr' = finished tr @ [r]"
    and "summaries tr' = summaries tr @ [sm']" "r_hook r = h" "\<not> result_succeeded r"
    and "s_total sm' = s_total sm" "s_succeeded sm' = s_succeeded sm" "s_failed sm' = s_failed sm + 1"
    and "s_aborted sm'" "e \<noteq> None"
  shows "loop_report strict (h # hs) sm fe tr e tr' (Suc 0) [r] sm'"
  using assms by (auto simp: loop_report_def)

lemma first_error_some [simp]: "\<exists>y. first_error fe e = Some y"
  by (cases fe) auto

lemma hooks_loop_report:
  "hooks_loop d s strict lp t0 hs sm fe st = (e, st') \<Longrightarrow>
     \<exists>n rs sm'. loop_report strict hs sm fe (rs_trace st) e (rs_trace st') n rs sm' \<and>
       ((strict \<longrightarrow> all_valid hs) \<longrightarrow> done_count sm + int (length hs) = s_total sm \<longrightarrow>
          done_count sm' = s_total sm')"
proof (induction hs arbitrary: sm fe st)
  case Nil
  then show ?case
    by (intro exI [of _ 0] exI [of _ "[]"] exI [of _ "sm\<lparr>s_duration := time_sub (hd_clock d (rs_world st)) t0\<rparr>"])
      (auto simp: loop_report_def Let_def done_count_def)
next
  case (Cons h hs)
  let ?env = "build_env (hd_build d) (Some s)
      (if hook_task_type h = task_exec_host then ContextHost else ContextContainer)"
  have valid_tl: "all_valid (h # hs) \<Longrightarrow> all_valid hs" by (simp add: all_valid_def)
  show ?case
  proof (cases "hd_ctx_err d (rs_world st)")
    case (Some x)
    then show ?thesis using Cons.prems
      by (intro exI [of _ 0] exI [of _ "[]"]) (auto simp: loop_report_def Let_def done_count_def)
  next
    case None
    note step = Cons.prems [unfolded hooks_loop.simps None option.case]
    show ?thesis
    proof (cases "hook_enabled h")
      case False
      with step have l: "hooks_loop d s strict lp t0 hs (sm\<lparr>s_skipped := s_skipped sm + 1\<rparr>) fe
          (write_log (LogText (''== SKIPPED (disabled): '' @ hook_command h @ '' =='')) st) = (e, st')"
        by simp
      from Cons.IH [OF l] obtain n rs sm' where
        "loop_report strict hs (sm\<lparr>s_skipped := s_skipped sm + 1\<rparr>) fe (rs_trace st) e (rs_trace st') n rs sm'"
        "(strict \<longrightarrow> all_valid hs) \<longrightarrow> done_count sm + 1 + int (length hs) = s_total sm \<longrightarrow>
          done_count sm' = s_total sm'"
        by (auto simp: done_count_def add.assoc)
      then show ?thesis using loop_report_disabled False valid_tl by fastforce
    next
      case en: True
      show ?thesis
      proof (cases "task_from_hook h (Some s) ?env")
        case (Inl x)
        define r where "r = failed_result d h x lp (rs_world st)"
        have notval: "\<not> all_valid (h # hs)" using en Inl task_from_hook_error by (force simp: all_valid_def)
        have r: "r_hook r = h" "\<not> result_succeeded r" by (simp_all add: r_def)
        show ?thesis
        proof (cases strict)
          case True
          with step en Inl show ?thesis using notval
            by (intro exI [of _ "Suc 0"] exI [of _ "[r]"] exI [of _ "sm\<lparr>s_failed := s_failed sm + 1,
                  s_aborted := True, s_duration := time_sub (hd_clock d (rs_world st)) t0\<rparr>"]
                conjI loop_report_abort)
              (auto simp: Let_def r_def)
        next
          case False
          with step en Inl have l: "hooks_loop d s False lp t0 hs (sm\<lparr>s_failed := s_failed sm + 1\<rparr>)
              (first_error fe (HookErr x)) (handle_failed_task r x st) = (e, st')"
            by (simp add: Let_def r_def)
          from Cons.IH [unfolded \<open>\<not> strict\<close> [THEN eq_False [THEN iffD2]], OF l] obtain n rs sm' where 1:
            "loop_report False hs (sm\<lparr>s_failed := s_failed sm + 1\<rparr>) (first_error fe (HookErr x))
               (rs_trace (handle_failed_task r x st)) e (rs_trace st') n rs sm'"
            and 2: "done_count sm + 1 + int (length hs) = s_total sm \<longrightarrow> done_count sm' = s_total sm'"
            by (auto simp: done_count_def algebra_simps)
          have "loop_report False (h # hs) sm fe (rs_trace st) e (rs_trace st') (Suc n) (r # rs) sm'"
            by (rule loop_report_done [OF 1 en]) (use r in auto)
          with 2 False show ?thesis by fastforce
        qed
      next
        case (Inr t)
        obtain r st1 where rt: "run_task d t h lp st = (r, st1)" by (metis surj_pair)
        note v = run_task_views [OF rt]
        show ?thesis
        proof (cases "result_succeeded r")
          case True
          with step en Inr rt have l: "hooks_loop d s strict lp t0 hs
              (sm\<lparr>s_succeeded := s_succeeded sm + 1\<rparr>) fe st1 = (e, st')" by (simp add: Let_def)
          from Cons.IH [OF l] obtain n rs sm' where 1:
            "loop_report strict hs (sm\<lparr>s_succeeded := s_succeeded sm + 1\<rparr>) fe (rs_trace st1) e
               (rs_trace st') n rs sm'"
            and 2: "(strict \<longrightarrow> all_valid hs) \<longrightarrow> done_count sm + 1 + int (length hs) = s_total sm \<longrightarrow>
              done_count sm' = s_total sm'"
            by (auto simp: done_count_def algebra_simps)
          have "loop_report strict (h # hs) sm fe (rs_trace st) e (rs_trace st') (Suc n) (r # rs) sm'"
            by (rule loop_report_done [OF 1 en]) (use v True in auto)
          with 2 valid_tl show ?thesis by fastforce
        next
          case nosucc: False
          show ?thesis
          proof (cases strict)
            case True
            let ?sm = "sm\<lparr>s_failed := s_failed sm + 1\<rparr>"
            from True step en Inr rt nosucc show ?thesis using v
              by (intro exI [of _ "Suc 0"] exI [of _ "[r]"]
                  exI [of _ "?sm\<lparr>s_aborted := True, s_skipped := s_skipped ?sm + (s_total ?sm - done_count ?sm),
                    s_duration := time_sub (hd_clock d (rs_world st1)) t0\<rparr>"] conjI loop_report_abort)
                (auto simp: Let_def done_count_def)
          next
            case False
            with step en Inr rt nosucc have l: "hooks_loop d s False lp t0 hs
                (sm\<lparr>s_failed := s_failed sm + 1\<rparr>) (first_error fe (combine_task_error r)) st1 = (e, st')"
              by (simp add: Let_def)
            from Cons.IH [unfolded \<open>\<not> strict\<close> [THEN eq_False [THEN iffD2]], OF l] obtain n rs sm' where 1:
              "loop_report False hs (sm\<lparr>s_failed := s_failed sm + 1\<rparr>) (first_error fe (combine_task_error r))
                 (rs_trace st1) e (rs_trace st') n rs sm'"
              and 2: "done_count sm + 1 + int (length hs) = s_total sm \<longrightarrow> done_count sm' = s_total sm'"
              by (auto simp: done_count_def algebra_simps)
            have "loop_report False (h # hs) sm fe (rs_trace st) e (rs_trace st') (Suc n) (r # rs) sm'"
              by (rule loop_report_done [OF 1 en]) (use v nosucc in auto)
            with 2 False show ?thesis by fastforce
          qed
        qed
      qed
    qed
  qed
qed

lemma run_hooks_loop:
  assumes "\<not> hd_skip d w" "hd_list d (site_id s) ev w = Inr hs" "hs \<noteq> []" "run_hooks d ev (Some s) w = (e, st)"
  obtains lp lf where "hooks_loop d s (fail_strict_for d (site_id s) w) lp (hd_clock d w) hs
      ((empty_summary ev (site_id s))\<lparr>s_log_path := lp, s_total := int (length hs)\<rparr>) None
      (write_log (LogHeader ev (site_name s) (site_slug s) (int (length hs)) (hd_clock d w))
        \<lparr>rs_world = w, rs_log = lf, rs_trace = []\<rparr>) = (e, st)"
  using assms by (auto simp: run_hooks_def Let_def split: prod.splits)

lemma run_hooks_report:
  assumes "\<not> hd_skip d w" "hd_list d (site_id s) ev w = Inr hs" "run_hooks d ev (Some s) w = (e, st)"
  shows "\<exists>n rs sm. loop_report (fail_strict_for d (site_id s) w) hs
        ((empty_summary ev (site_id s))\<lparr>s_total := int (length hs)\<rparr>) None [] e (rs_trace st) n rs sm \<and>
      ((fail_strict_for d (site_id s) w \<longrightarrow> all_valid hs) \<longrightarrow> done_count sm = s_total sm)"
proof (cases "hs = []")
  case True
  then show ?thesis using assms
    by (intro exI [of _ 0] exI [of _ "[]"] exI [of _ "empty_summary ev (site_id s)"])
      (auto simp: run_hooks_def Let_def loop_report_def empty_summary_def done_count_def)
next
  case False
  then obtain lp lf where "hooks_loop d s (fail_strict_for d (site_id s) w) lp (hd_clock d w) hs
      ((empty_summary ev (site_id s))\<lparr>s_log_path := lp, s_total := int (length hs)\<rparr>) None
      (write_log (LogHeader ev (site_name s) (site_slug s) (int (length hs)) (hd_clock d w))
        \<lparr>rs_world = w, rs_log = lf, rs_trace = []\<rparr>) = (e, st)"
    using run_hooks_loop assms by metis
  from hooks_loop_report [OF this] show ?thesis
    by (simp add: loop_report_def empty_summary_def done_count_def)
qed

section \<open>Properties\<close>

text \<open>
  An event that is not skipped starts the enabled hooks of a prefix of the lister's list,
  in its order, each once; disabled hooks never start; every started hook finishes; and
  without fail-strict and cancellation the prefix is the whole list and no error is returned,
  however many hooks fail.
\<close>

theorem run_hooks_starts_enabled_in_order:
  assumes "\<not> hd_skip d w" and "hd_list d (site_id s) ev w = Inr hs"
    and "run_hooks d ev (Some s) w = (e, st)"
  shows "\<exists>n \<le> length hs. started (rs_trace st) = filter hook_enabled (take n hs)
    \<and> map r_hook (finished (rs_trace st)) = started (rs_trace st)
    \<and> (\<not> fail_strict_for d (site_id s) w \<longrightarrow> \<not> (\<exists>sm\<in>set (summaries (rs_trace st)). s_aborted sm)
        \<longrightarrow> n = length hs \<and> e = None)"
  using run_hooks_report [OF assms] by (auto simp: loop_report_def empty_summary_def)


text \<open>
  The accounting of \<open>OnAllDone\<close>: it fires exactly once, the counters of its summary are
  those of the results, and succeeded, failed and skipped hooks add up to the total whenever the
  run is not fail-strict or every enabled hook validates.
\<close>

theorem run_hooks_summary_accounts:
  assumes "\<not> hd_skip d w" and "hd_list d (site_id s) ev w = Inr hs"
    and "run_hooks d ev (Some s) w = (e, st)"
    and "fail_strict_for d (site_id s) w \<Longrightarrow> all_valid hs"
  shows "\<exists>sm. summaries (rs_trace st) = [sm] \<and> s_total sm = int (length hs)
    \<and> s_succeeded sm = int (length (filter result_succeeded (finished (rs_trace st))))
    \<and> s_failed sm = int (length (filter (\<lambda>r. \<not> result_succeeded r) (finished (rs_trace st))))
    \<and> s_succeeded sm + s_failed sm + s_skipped sm = s_total sm"
  using run_hooks_report [OF assms(1-3)] assms(4)
  by (auto simp: loop_report_def empty_summary_def done_count_def)

definition sample_deps :: "hook list \<Rightarrow> string \<Rightarrow> (task \<Rightarrow> int) \<Rightarrow> unit hook_deps" where
  "sample_deps hs strict code =
     \<lparr>hd_list = (\<lambda>_ _ _. Inr hs), hd_setting = (\<lambda>_ _. strict), hd_skip = (\<lambda>_. False),
      hd_open_log = (\<lambda>_ _. False), hd_exec = (\<lambda>t w. (w, [], code t, None)), hd_ctx_err = (\<lambda>_. None),
      hd_clock = (\<lambda>_. 0), hd_stamp = (\<lambda>_. []), hd_build = \<lparr>bi_version = [], bi_goos = [], bi_gui = False\<rparr>,
      hd_logs_base = ''/logs''\<rparr>"

definition fails_on :: "string \<Rightarrow> task \<Rightarrow> int" where
  "fails_on c t = (case t of HostTask c' _ _ \<Rightarrow> if c' = c then 1 else 0 | _ \<Rightarrow> 0)"

abbreviation sample_list :: "hook list" where
  "sample_list \<equiv> [sample_hook, sample_hook\<lparr>hook_enabled := False\<rparr>, sample_hook\<lparr>hook_command := ''false''\<rparr>,
     sample_hook\<lparr>hook_command := ''pwd''\<rparr>]"

lemma sample_deps_simps:
  "\<not> hd_skip (sample_deps hs strict code) ()"
  "hd_list (sample_deps hs strict code) sid ev () = Inr hs"
  "fail_strict_for (sample_deps hs strict code) sid () \<longleftrightarrow> hook_parse_bool strict"
  by (simp_all add: sample_deps_def fail_strict_for_def Let_def)

lemma sample_list_valid: "all_valid sample_list"
  using sample_hook_valid by (auto simp: all_valid_def hook_validate_None sample_hook_def)

lemma parse_bool_samples: "hook_parse_bool ''true''" "\<not> hook_parse_bool []"
  by code_simp+

abbreviation sample_run :: "string \<Rightarrow> run_error option \<times> unit run_state" where
  "sample_run strict \<equiv> run_hooks (sample_deps sample_list strict (fails_on ''false'')) ''pre-start''
     (Some empty_site) ()"

lemma run_hooks_starts_enabled_in_order_witness:
  "\<exists>n \<le> length sample_list. started (rs_trace (snd (sample_run []))) = filter hook_enabled (take n sample_list)
    \<and> map r_hook (finished (rs_trace (snd (sample_run [])))) = started (rs_trace (snd (sample_run [])))
    \<and> (\<not> (\<exists>sm\<in>set (summaries (rs_trace (snd (sample_run [])))). s_aborted sm)
        \<longrightarrow> n = length sample_list \<and> fst (sample_run []) = None)"
  using run_hooks_starts_enabled_in_order
    [OF sample_deps_simps(1) sample_deps_simps(2) surjective_pairing, of sample_list "[]" "fails_on ''false''"]
  by (simp only: sample_deps_simps parse_bool_samples not_False_eq_True True_implies_equals simp_thms)


lemma run_hooks_summary_accounts_witness:
  "\<exists>sm. summaries (rs_trace (snd (sample_run ''true''))) = [sm] \<and> s_total sm = int (length sample_list)
    \<and> s_succeeded sm = int (length (filter result_succeeded (finished (rs_trace (snd (sample_run ''true''))))))
    \<and> s_failed sm = int (length (filter (\<lambda>r. \<not> result_succeeded r) (finished (rs_trace (snd (sample_run ''true''))))))
    \<and> s_succeeded sm + s_failed sm + s_skipped sm = s_total sm"
  by (rule run_hooks_summary_accounts
      [OF sample_deps_simps(1) sample_deps_simps(2) surjective_pairing sample_list_valid])

text \<open>
  The hypothesis is needed: when a fail-strict run stops at a hook that does not validate, the
  remaining hooks are not counted as skipped, and the summary of two hooks accounts for one.
\<close>

theorem strict_validation_abort_loses_hooks:
  "case run_hooks (sample_deps [sample_hook\<lparr>hook_command := []\<rparr>, sample_hook] ''true'' (\<lambda>_. 0)) ''pre-start''
      (Some empty_site) () of (e, st) \<Rightarrow>
     e = Some (HookErr ErrEmptyCommand) \<and>
     map (\<lambda>sm. (s_total sm, s_succeeded sm, s_failed sm, s_skipped sm)) (summaries (rs_trace st)) = [(2, 0, 1, 0)]"
  by code_simp

end
