(* ===== verification/Storage.thy ===== *)
theory Storage
  imports Hooks
begin

text \<open>
  The SQLite storage of \<^verbatim>\<open>internal/storage\<close> (\<^verbatim>\<open>storage.go\<close>, \<^verbatim>\<open>hooks.go\<close>, \<^verbatim>\<open>activity.go\<close>, with the
  schema of \<^verbatim>\<open>migrations/\<close>). The database is the record of its tables in row order; every SQL
  statement the code sends is a definition on it, with the constraints the schema declares
  (primary keys, \<^verbatim>\<open>UNIQUE(site_id, event, position)\<close>, the cascading foreign keys, the
  \<^verbatim>\<open>AUTOINCREMENT\<close> sequences). Any statement (reading its rows included), begin or commit can also
  fail: \<open>flt label i\<close> is the driver's error at the \<open>i\<close>-th execution of the statement \<open>label\<close>. A transaction
  that does not commit leaves the database as it was. A text column of the \<^verbatim>\<open>sites\<close> table that
  is \<^verbatim>\<open>NULL\<close> (no code path writes one) is not modelled. \<^verbatim>\<open>now()\<close> is a parameter.
\<close>

section \<open>Tables and errors\<close>

record activity_event =
  ev_id :: int
  ev_site_id :: string
  ev_time :: "gtime option"
  ev_plan :: string
  ev_kind :: string
  ev_status :: string
  ev_duration_ms :: int
  ev_message :: string
  ev_details :: string

record db =
  db_sites :: "site list"
  db_settings :: "string \<rightharpoonup> string"
  db_hooks :: "hook list"
  db_activity :: "activity_event list"
  db_next_hook :: int
  db_next_activity :: int

definition empty_db :: db where
  "empty_db = \<lparr>db_sites = [], db_settings = Map.empty, db_hooks = [], db_activity = [],
     db_next_hook = 1, db_next_activity = 1\<rparr>"

datatype db_error = Fault go_error | UniqueViolation | ForeignKeyViolation

datatype storage_error = Plain db_error | Wrapped string db_error | Refused string
  | HookNotFound | HookRejected hook_error | ActivityInvalid string

type_synonym faults = "string \<Rightarrow> nat \<Rightarrow> go_error option"

definition no_faults :: faults where "no_faults = (\<lambda>_ _. None)"

text \<open>A statement runs unless the driver fails.\<close>

definition exec :: "faults \<Rightarrow> string \<Rightarrow> nat \<Rightarrow> db_error + 'a \<Rightarrow> db_error + 'a" where
  "exec flt label i r = (case flt label i of Some e \<Rightarrow> Inl (Fault e) | None \<Rightarrow> r)"

lemma exec_no_faults [simp]: "exec no_faults label i r = r"
  by (simp add: exec_def no_faults_def)

lemma exec_Inr: "exec flt label i r = Inr x \<Longrightarrow> r = Inr x"
  by (simp add: exec_def split: option.splits)

section \<open>Sites\<close>

definition hydrate_legacy_db_fields :: "site \<Rightarrow> site" where
  "hydrate_legacy_db_fields s =
     (let s = (if site_db_engine s = [] then s\<lparr>site_db_engine := ''mysql''\<rparr> else s)
      in if site_db_version s = [] then s\<lparr>site_db_version := site_mysql_version s\<rparr> else s)"

definition mirror_mysql_version :: "site \<Rightarrow> site" where
  "mirror_mysql_version s =
     (if site_mysql_version s = [] \<and> site_db_engine s = ''mysql''
      then s\<lparr>site_mysql_version := site_db_version s\<rparr> else s)"

definition get_sites :: "faults \<Rightarrow> db \<Rightarrow> storage_error + site list" where
  "get_sites flt d =
     (case exec flt ''sites'' 0 (Inr (map hydrate_legacy_db_fields (db_sites d))) of
        Inl e \<Rightarrow> Inl (Plain e) | Inr ss \<Rightarrow> Inr ss)"

definition get_site :: "faults \<Rightarrow> string \<Rightarrow> db \<Rightarrow> storage_error + site option" where
  "get_site flt sid d =
     (case exec flt ''site'' 0 (Inr (find (\<lambda>s. site_id s = sid) (db_sites d))) of
        Inl e \<Rightarrow> Inl (Plain e)
      | Inr so \<Rightarrow> Inr (map_option hydrate_legacy_db_fields so))"

definition sql_insert_site :: "site \<Rightarrow> db \<Rightarrow> db_error + db" where
  "sql_insert_site s d =
     (if site_id s \<in> site_id ` set (db_sites d) then Inl UniqueViolation
      else Inr (d\<lparr>db_sites := db_sites d @ [s]\<rparr>))"

definition add_site :: "faults \<Rightarrow> string \<Rightarrow> site \<Rightarrow> db \<Rightarrow> site \<times> storage_error option \<times> db" where
  "add_site flt now s d =
     (let s = s\<lparr>site_created_at := now, site_updated_at := now\<rparr>;
          s = mirror_mysql_version s
      in case exec flt ''insert'' 0 (sql_insert_site s d) of
           Inl e \<Rightarrow> (s, Some (Plain e), d)
         | Inr d' \<Rightarrow> (s, None, d'))"

text \<open>The \<^verbatim>\<open>UPDATE\<close> sets every column but \<^verbatim>\<open>id\<close> and \<^verbatim>\<open>createdAt\<close>; no matching row is not an error.\<close>

definition sql_update_site :: "site \<Rightarrow> db \<Rightarrow> db" where
  "sql_update_site s d =
     d\<lparr>db_sites := map (\<lambda>r. if site_id r = site_id s then s\<lparr>site_created_at := site_created_at r\<rparr> else r)
        (db_sites d)\<rparr>"

definition update_site :: "faults \<Rightarrow> string \<Rightarrow> site \<Rightarrow> db \<Rightarrow> site \<times> storage_error option \<times> db" where
  "update_site flt now s d =
     (let s = s\<lparr>site_updated_at := now\<rparr>;
          s = mirror_mysql_version s
      in case exec flt ''update'' 0 (Inr (sql_update_site s d)) of
           Inl e \<Rightarrow> (s, Some (Plain e), d)
         | Inr d' \<Rightarrow> (s, None, d'))"

definition sites_by_parent :: "faults \<Rightarrow> string \<Rightarrow> db \<Rightarrow> storage_error + site list" where
  "sites_by_parent flt pid d =
     (if pid = [] then Inr []
      else case exec flt ''children'' 0
             (Inr (map hydrate_legacy_db_fields (filter (\<lambda>s. site_parent_site_id s = pid) (db_sites d)))) of
             Inl e \<Rightarrow> Inl (Plain e) | Inr ss \<Rightarrow> Inr ss)"

text \<open>The foreign keys of hooks and activity cascade.\<close>

definition sql_delete_site :: "string \<Rightarrow> db \<Rightarrow> db" where
  "sql_delete_site sid d =
     d\<lparr>db_sites := filter (\<lambda>s. site_id s \<noteq> sid) (db_sites d),
       db_hooks := filter (\<lambda>h. hook_site_id h \<noteq> sid) (db_hooks d),
       db_activity := filter (\<lambda>ev. ev_site_id ev \<noteq> sid) (db_activity d)\<rparr>"

definition delete_site :: "faults \<Rightarrow> string \<Rightarrow> db \<Rightarrow> storage_error option \<times> db" where
  "delete_site flt sid d =
     (case exec flt ''delete'' 0 (Inr (sql_delete_site sid d)) of
        Inl e \<Rightarrow> (Some (Plain e), d)
      | Inr d' \<Rightarrow> (None, d'))"

section \<open>Settings\<close>

definition get_setting :: "faults \<Rightarrow> string \<Rightarrow> db \<Rightarrow> storage_error + string" where
  "get_setting flt k d =
     (case exec flt ''setting'' 0 (Inr (db_settings d k)) of
        Inl e \<Rightarrow> Inl (Plain e)
      | Inr None \<Rightarrow> Inr []
      | Inr (Some v) \<Rightarrow> Inr v)"

definition set_setting :: "faults \<Rightarrow> string \<Rightarrow> string \<Rightarrow> db \<Rightarrow> storage_error option \<times> db" where
  "set_setting flt k v d =
     (case exec flt ''set'' 0 (Inr (d\<lparr>db_settings := (db_settings d)(k \<mapsto> v)\<rparr>)) of
        Inl e \<Rightarrow> (Some (Plain e), d)
      | Inr d' \<Rightarrow> (None, d'))"

section \<open>Hooks\<close>

definition hook_rows :: "string \<Rightarrow> string \<Rightarrow> db \<Rightarrow> hook list" where
  "hook_rows sid ev d = filter (\<lambda>h. hook_site_id h = sid \<and> hook_event h = ev) (db_hooks d)"

definition list_hooks :: "faults \<Rightarrow> string \<Rightarrow> db \<Rightarrow> storage_error + hook list" where
  "list_hooks flt sid d =
     (case exec flt ''list'' 0 (Inr (sort_key hook_event (sort_key hook_position
             (filter (\<lambda>h. hook_site_id h = sid) (db_hooks d))))) of
        Inl e \<Rightarrow> Inl (Wrapped ''listing hooks: '' e) | Inr hs \<Rightarrow> Inr hs)"

definition list_hooks_by_event :: "faults \<Rightarrow> string \<Rightarrow> string \<Rightarrow> db \<Rightarrow> storage_error + hook list" where
  "list_hooks_by_event flt sid ev d =
     (case exec flt ''list-event'' 0 (Inr (sort_key hook_position (hook_rows sid ev d))) of
        Inl e \<Rightarrow> Inl (Wrapped ''listing hooks by event: '' e) | Inr hs \<Rightarrow> Inr hs)"

definition get_hook :: "faults \<Rightarrow> int \<Rightarrow> db \<Rightarrow> storage_error + hook" where
  "get_hook flt hid d =
     (case exec flt ''hook'' 0 (Inr (find (\<lambda>h. hook_id h = hid) (db_hooks d))) of
        Inl e \<Rightarrow> Inl (Plain e)
      | Inr None \<Rightarrow> Inl HookNotFound
      | Inr (Some h) \<Rightarrow> Inr h)"

text \<open>\<^verbatim>\<open>SELECT MAX(position)\<close>, NULL when no row matches.\<close>

definition sql_max_position :: "string \<Rightarrow> string \<Rightarrow> db \<Rightarrow> int option" where
  "sql_max_position sid ev d =
     (case map hook_position (hook_rows sid ev d) of [] \<Rightarrow> None | p # ps \<Rightarrow> Some (foldl max p ps))"

definition sql_insert_hook :: "hook \<Rightarrow> db \<Rightarrow> db_error + int \<times> db" where
  "sql_insert_hook h d =
     (if \<exists>r\<in>set (hook_rows (hook_site_id h) (hook_event h) d). hook_position r = hook_position h
        then Inl UniqueViolation
      else if hook_site_id h \<notin> site_id ` set (db_sites d) then Inl ForeignKeyViolation
      else Inr (db_next_hook d,
             d\<lparr>db_hooks := db_hooks d @ [h\<lparr>hook_id := db_next_hook d\<rparr>], db_next_hook := db_next_hook d + 1\<rparr>))"

definition next_position :: "int option \<Rightarrow> int" where
  "next_position m = (case m of None \<Rightarrow> 0 | Some p \<Rightarrow> p + 1)"

text \<open>\<^verbatim>\<open>AddHook\<close> returns the caller's struct as it leaves it, on the error paths too.\<close>

definition add_hook ::
  "faults \<Rightarrow> string \<Rightarrow> hook option \<Rightarrow> db \<Rightarrow> hook option \<times> storage_error option \<times> db" where
  "add_hook flt now ho d =
     (case ho of None \<Rightarrow> (None, Some (Refused ''AddHook: nil hook''), d)
      | Some h \<Rightarrow>
          (case hook_validate h of Some e \<Rightarrow> (Some h, Some (HookRejected e), d)
           | None \<Rightarrow>
               (case exec flt ''begin'' 0 (Inr ()) of
                  Inl e \<Rightarrow> (Some h, Some (Wrapped ''AddHook: begin: '' e), d)
                | Inr _ \<Rightarrow>
                    (case exec flt ''max'' 0 (Inr (sql_max_position (hook_site_id h) (hook_event h) d)) of
                       Inl e \<Rightarrow> (Some h, Some (Wrapped ''AddHook: max position: '' e), d)
                     | Inr m \<Rightarrow>
                         (let h = h\<lparr>hook_position := next_position m, hook_created_at := now,
                                    hook_updated_at := now\<rparr>
                          in case exec flt ''insert'' 0 (sql_insert_hook h d) of
                               Inl e \<Rightarrow> (Some h, Some (Wrapped ''AddHook: insert: '' e), d)
                             | Inr (hid, d') \<Rightarrow>
                                 (case exec flt ''last-id'' 0 (Inr ()) of
                                    Inl e \<Rightarrow> (Some h, Some (Wrapped ''AddHook: last insert id: '' e), d)
                                  | Inr _ \<Rightarrow>
                                      (let h = h\<lparr>hook_id := hid\<rparr>
                                       in case exec flt ''commit'' 0 (Inr ()) of
                                            Inl e \<Rightarrow> (Some h, Some (Plain e), d)
                                          | Inr _ \<Rightarrow> (Some h, None, d'))))))))"

definition hook_update_matches :: "hook \<Rightarrow> hook \<Rightarrow> bool" where
  "hook_update_matches h r \<longleftrightarrow>
     hook_id r = hook_id h \<and> hook_site_id r = hook_site_id h \<and> hook_event r = hook_event h"

definition sql_update_hook :: "hook \<Rightarrow> db \<Rightarrow> nat \<times> db" where
  "sql_update_hook h d =
     (length (filter (hook_update_matches h) (db_hooks d)),
      d\<lparr>db_hooks := map (\<lambda>r. if hook_update_matches h r
          then r\<lparr>hook_task_type := hook_task_type h, hook_command := hook_command h,
                 hook_service := hook_service h, hook_run_as_user := hook_run_as_user h,
                 hook_enabled := hook_enabled h, hook_updated_at := hook_updated_at h\<rparr>
          else r) (db_hooks d)\<rparr>)"

definition update_hook ::
  "faults \<Rightarrow> string \<Rightarrow> hook option \<Rightarrow> db \<Rightarrow> hook option \<times> storage_error option \<times> db" where
  "update_hook flt now ho d =
     (case ho of None \<Rightarrow> (None, Some (Refused ''UpdateHook: nil hook''), d)
      | Some h \<Rightarrow>
          if hook_id h = 0 then (Some h, Some (Refused ''UpdateHook: missing ID''), d)
          else case hook_validate h of Some e \<Rightarrow> (Some h, Some (HookRejected e), d)
          | None \<Rightarrow>
              (let h = h\<lparr>hook_updated_at := now\<rparr>
               in case exec flt ''update'' 0 (Inr (sql_update_hook h d)) of
                    Inl e \<Rightarrow> (Some h, Some (Wrapped ''UpdateHook: '' e), d)
                  | Inr (n, d') \<Rightarrow>
                      (case exec flt ''affected'' 0 (Inr n) of
                         Inl e \<Rightarrow> (Some h, Some (Wrapped ''UpdateHook: rows affected: '' e), d')
                       | Inr k \<Rightarrow> if k = 0 then (Some h, Some HookNotFound, d') else (Some h, None, d'))))"

definition delete_hook :: "faults \<Rightarrow> int \<Rightarrow> db \<Rightarrow> storage_error option \<times> db" where
  "delete_hook flt hid d =
     (case exec flt ''delete'' 0 (Inr (d\<lparr>db_hooks := filter (\<lambda>h. hook_id h \<noteq> hid) (db_hooks d)\<rparr>)) of
        Inl e \<Rightarrow> (Some (Wrapped ''DeleteHook: '' e), d) | Inr d' \<Rightarrow> (None, d'))"

definition delete_hooks_for_site :: "faults \<Rightarrow> string \<Rightarrow> db \<Rightarrow> storage_error option \<times> db" where
  "delete_hooks_for_site flt sid d =
     (case exec flt ''delete'' 0 (Inr (d\<lparr>db_hooks := filter (\<lambda>h. hook_site_id h \<noteq> sid) (db_hooks d)\<rparr>)) of
        Inl e \<Rightarrow> (Some (Wrapped ''DeleteHooksForSite: '' e), d) | Inr d' \<Rightarrow> (None, d'))"

subsection \<open>Reordering\<close>

text \<open>\<^verbatim>\<open>UPDATE site_hooks SET position = p WHERE id = hid\<close>, under the unique constraint.\<close>

definition sql_set_position :: "int \<Rightarrow> string option \<Rightarrow> int \<Rightarrow> db \<Rightarrow> db_error + db" where
  "sql_set_position p ts hid d =
     (if \<exists>r\<in>set (db_hooks d). hook_id r = hid \<and>
           (\<exists>q\<in>set (hook_rows (hook_site_id r) (hook_event r) d). hook_id q \<noteq> hid \<and> hook_position q = p)
      then Inl UniqueViolation
      else Inr (d\<lparr>db_hooks := map (\<lambda>r. if hook_id r = hid
             then r\<lparr>hook_position := p,
                    hook_updated_at := (case ts of None \<Rightarrow> hook_updated_at r | Some t \<Rightarrow> t)\<rparr>
             else r) (db_hooks d)\<rparr>))"

fun park_pass :: "faults \<Rightarrow> string \<Rightarrow> nat \<Rightarrow> int list \<Rightarrow> db \<Rightarrow> db_error + db" where
  "park_pass flt now i [] d = Inr d"
| "park_pass flt now i (hid # ids) d =
     (case exec flt ''park'' i (sql_set_position (- (int i + 1)) (Some now) hid d) of
        Inl e \<Rightarrow> Inl e | Inr d' \<Rightarrow> park_pass flt now (Suc i) ids d')"

fun assign_pass :: "faults \<Rightarrow> nat \<Rightarrow> int list \<Rightarrow> db \<Rightarrow> db_error + db" where
  "assign_pass flt i [] d = Inr d"
| "assign_pass flt i (hid # ids) d =
     (case exec flt ''assign'' i (sql_set_position (int i) None hid d) of
        Inl e \<Rightarrow> Inl e | Inr d' \<Rightarrow> assign_pass flt (Suc i) ids d')"

text \<open>The first id of the list that is not one of the event's rows.\<close>

definition foreign_id :: "int list \<Rightarrow> int list \<Rightarrow> int option" where
  "foreign_id existing ids = find (\<lambda>i. i \<notin> set existing) ids"

definition reorder_hooks ::
  "faults \<Rightarrow> string \<Rightarrow> string \<Rightarrow> string \<Rightarrow> int list \<Rightarrow> db \<Rightarrow> storage_error option \<times> db" where
  "reorder_hooks flt now sid ev ids d =
     (if ids = [] then (None, d)
      else case exec flt ''begin'' 0 (Inr ()) of
        Inl e \<Rightarrow> (Some (Wrapped ''ReorderHooks: begin: '' e), d)
      | Inr _ \<Rightarrow>
          (case exec flt ''verify'' 0 (Inr (map hook_id (hook_rows sid ev d))) of
             Inl e \<Rightarrow> (Some (Wrapped ''ReorderHooks: verify: '' e), d)
           | Inr rows \<Rightarrow>
               (let existing = remdups rows
                in if length existing \<noteq> length ids then
                     (Some (Refused (''ReorderHooks: id count mismatch (got '' @ itoa (int (length ids))
                        @ '', have '' @ itoa (int (length existing)) @ '')'')), d)
                   else case foreign_id existing ids of
                     Some i \<Rightarrow> (Some (Refused (''ReorderHooks: id '' @ itoa i @ '' not in (site='' @ sid
                        @ '', event='' @ ev @ '')'')), d)
                   | None \<Rightarrow>
                       (case park_pass flt now 0 ids d of
                          Inl e \<Rightarrow> (Some (Wrapped ''ReorderHooks: park: '' e), d)
                        | Inr d1 \<Rightarrow>
                            (case assign_pass flt 0 ids d1 of
                               Inl e \<Rightarrow> (Some (Wrapped ''ReorderHooks: assign: '' e), d)
                             | Inr d2 \<Rightarrow>
                                 (case exec flt ''commit'' 0 (Inr ()) of
                                    Inl e \<Rightarrow> (Some (Plain e), d)
                                  | Inr _ \<Rightarrow> (None, d2)))))))"

section \<open>Activity\<close>

definition activity_kinds :: "string list" where
  "activity_kinds = [''start'', ''stop'', ''delete'', ''clone'', ''versions'', ''multisite'', ''export'',
     ''import-db'', ''snapshot'', ''restore-snapshot'', ''other'']"

definition activity_statuses :: "string list" where
  "activity_statuses = [''succeeded'', ''failed'', ''rolled-back'']"

definition activity_kind_valid :: "string \<Rightarrow> bool" where
  "activity_kind_valid k \<longleftrightarrow> k \<in> set activity_kinds"

definition activity_status_valid :: "string \<Rightarrow> bool" where
  "activity_status_valid s \<longleftrightarrow> s \<in> set activity_statuses"

definition activity_retention_default :: nat where "activity_retention_default = 200"

definition sql_insert_activity :: "activity_event \<Rightarrow> db \<Rightarrow> db_error + int \<times> db" where
  "sql_insert_activity ev d =
     (if ev_site_id ev \<notin> site_id ` set (db_sites d) then Inl ForeignKeyViolation
      else Inr (db_next_activity d,
             d\<lparr>db_activity := db_activity d @ [ev\<lparr>ev_id := db_next_activity d\<rparr>],
               db_next_activity := db_next_activity d + 1\<rparr>))"

text \<open>\<^verbatim>\<open>ORDER BY time DESC, id DESC\<close>; the fixed-width text of \<^verbatim>\<open>activityTimeLayout\<close> orders as the instants.\<close>

definition newest_first :: "string \<Rightarrow> db \<Rightarrow> activity_event list" where
  "newest_first sid d =
     rev (sort_key (\<lambda>ev. the (ev_time ev)) (sort_key ev_id (filter (\<lambda>ev. ev_site_id ev = sid) (db_activity d))))"

definition trim_activity_tx :: "string \<Rightarrow> nat \<Rightarrow> db \<Rightarrow> db" where
  "trim_activity_tx sid n d =
     d\<lparr>db_activity := filter (\<lambda>ev. \<not> (ev_site_id ev = sid \<and>
        ev_id ev \<notin> ev_id ` set (take n (newest_first sid d)))) (db_activity d)\<rparr>"

text \<open>\<^verbatim>\<open>AppendActivity\<close>: the checks, the struct with its duration and time filled in, the transaction.\<close>

definition check_activity :: "activity_event \<Rightarrow> storage_error option" where
  "check_activity ev =
     (if ev_site_id ev = [] then Some (ActivityInvalid ''empty site id'')
      else if \<not> activity_kind_valid (ev_kind ev) then Some (ActivityInvalid ''unknown kind'')
      else if \<not> activity_status_valid (ev_status ev) then Some (ActivityInvalid ''unknown status'')
      else None)"

definition fill_activity :: "gtime \<Rightarrow> activity_event \<Rightarrow> activity_event" where
  "fill_activity now ev =
     (let ev = (if ev_duration_ms ev < 0 then ev\<lparr>ev_duration_ms := 0\<rparr> else ev)
      in ev\<lparr>ev_time := Some (case ev_time ev of None \<Rightarrow> now | Some t \<Rightarrow> t)\<rparr>)"

definition activity_details :: "activity_event \<Rightarrow> string" where
  "activity_details ev = (if ev_details ev = [] then ''null'' else ev_details ev)"

definition append_activity_tx ::
  "faults \<Rightarrow> activity_event \<Rightarrow> db \<Rightarrow> activity_event \<times> storage_error option \<times> db" where
  "append_activity_tx flt ev d =
     (case exec flt ''begin'' 0 (Inr ()) of
        Inl e \<Rightarrow> (ev, Some (Wrapped ''AppendActivity: begin: '' e), d)
      | Inr _ \<Rightarrow>
          (case exec flt ''insert'' 0 (sql_insert_activity (ev\<lparr>ev_details := activity_details ev\<rparr>) d) of
             Inl e \<Rightarrow> (ev, Some (Wrapped ''AppendActivity: insert: '' e), d)
           | Inr (eid, d1) \<Rightarrow>
               (case exec flt ''last-id'' 0 (Inr ()) of
                  Inl e \<Rightarrow> (ev, Some (Wrapped ''AppendActivity: last insert id: '' e), d)
                | Inr _ \<Rightarrow>
                    (let ev = ev\<lparr>ev_id := eid\<rparr>
                     in case exec flt ''trim'' 0
                           (Inr (trim_activity_tx (ev_site_id ev) activity_retention_default d1)) of
                          Inl e \<Rightarrow> (ev, Some (Wrapped ''AppendActivity: trim: '' e), d)
                        | Inr d2 \<Rightarrow>
                            (case exec flt ''commit'' 0 (Inr ()) of
                               Inl e \<Rightarrow> (ev, Some (Wrapped ''AppendActivity: commit: '' e), d)
                             | Inr _ \<Rightarrow> (ev, None, d2))))))"

definition append_activity ::
  "faults \<Rightarrow> gtime \<Rightarrow> (string \<Rightarrow> bool) \<Rightarrow> activity_event option \<Rightarrow> db
    \<Rightarrow> activity_event option \<times> storage_error option \<times> db" where
  "append_activity flt now json_valid evo d =
     (case evo of None \<Rightarrow> (None, Some (ActivityInvalid ''nil event''), d)
      | Some ev \<Rightarrow>
          (case check_activity ev of Some e \<Rightarrow> (Some ev, Some e, d)
           | None \<Rightarrow>
               (let ev = fill_activity now ev
                in if ev_details ev \<noteq> [] \<and> \<not> json_valid (ev_details ev)
                   then (Some ev, Some (ActivityInvalid ''details is not valid JSON''), d)
                   else (case append_activity_tx flt ev d of (ev, e, d') \<Rightarrow> (Some ev, e, d')))))"

definition activity_limit :: "int \<Rightarrow> nat" where
  "activity_limit limit = (if limit \<le> 0 then activity_retention_default else nat limit)"

text \<open>A row read back always has its time; \<^verbatim>\<open>details\<close> is never the empty text.\<close>

definition get_activity :: "faults \<Rightarrow> string \<Rightarrow> int \<Rightarrow> db \<Rightarrow> storage_error + activity_event list" where
  "get_activity flt sid limit d =
     (if sid = [] then Inl (Refused ''GetActivity: empty site id'')
      else case exec flt ''activity'' 0 (Inr (take (activity_limit limit) (newest_first sid d))) of
             Inl e \<Rightarrow> Inl (Wrapped ''GetActivity: '' e) | Inr evs \<Rightarrow> Inr evs)"

definition trim_activity :: "faults \<Rightarrow> string \<Rightarrow> int \<Rightarrow> db \<Rightarrow> storage_error option \<times> db" where
  "trim_activity flt sid limit d =
     (if sid = [] then (Some (Refused ''TrimActivity: empty site id''), d)
      else case exec flt ''begin'' 0 (Inr ()) of
        Inl e \<Rightarrow> (Some (Wrapped ''TrimActivity: begin: '' e), d)
      | Inr _ \<Rightarrow>
          (case exec flt ''trim'' 0 (Inr (trim_activity_tx sid (activity_limit limit) d)) of
             Inl e \<Rightarrow> (Some (Wrapped ''TrimActivity: '' e), d)
           | Inr d' \<Rightarrow>
               (case exec flt ''commit'' 0 (Inr ()) of
                  Inl e \<Rightarrow> (Some (Plain e), d) | Inr _ \<Rightarrow> (None, d'))))"

section \<open>Every sequence of operations\<close>

datatype storage_op = OpAddSite site | OpUpdateSite site | OpDeleteSite string | OpSetSetting string string
  | OpAddHook hook | OpUpdateHook hook | OpDeleteHook int | OpDeleteHooksForSite string
  | OpReorderHooks string string "int list" | OpAppendActivity activity_event | OpTrimActivity string int

text \<open>One call, at its own time and with its own driver faults.\<close>

record call_env =
  c_faults :: faults
  c_now :: string
  c_clock :: gtime

fun storage_step :: "(string \<Rightarrow> bool) \<Rightarrow> call_env \<times> storage_op \<Rightarrow> db \<Rightarrow> db" where
  "storage_step js (c, OpAddSite s) d = snd (snd (add_site (c_faults c) (c_now c) s d))"
| "storage_step js (c, OpUpdateSite s) d = snd (snd (update_site (c_faults c) (c_now c) s d))"
| "storage_step js (c, OpDeleteSite sid) d = snd (delete_site (c_faults c) sid d)"
| "storage_step js (c, OpSetSetting k v) d = snd (set_setting (c_faults c) k v d)"
| "storage_step js (c, OpAddHook h) d = snd (snd (add_hook (c_faults c) (c_now c) (Some h) d))"
| "storage_step js (c, OpUpdateHook h) d = snd (snd (update_hook (c_faults c) (c_now c) (Some h) d))"
| "storage_step js (c, OpDeleteHook i) d = snd (delete_hook (c_faults c) i d)"
| "storage_step js (c, OpDeleteHooksForSite sid) d = snd (delete_hooks_for_site (c_faults c) sid d)"
| "storage_step js (c, OpReorderHooks sid ev ids) d = snd (reorder_hooks (c_faults c) (c_now c) sid ev ids d)"
| "storage_step js (c, OpAppendActivity ev) d =
     snd (snd (append_activity (c_faults c) (c_clock c) js (Some ev) d))"
| "storage_step js (c, OpTrimActivity sid n) d = snd (trim_activity (c_faults c) sid n d)"

definition storage_run :: "(string \<Rightarrow> bool) \<Rightarrow> (call_env \<times> storage_op) list \<Rightarrow> db \<Rightarrow> db" where
  "storage_run js cs d = fold (storage_step js) cs d"

section \<open>The invariant\<close>

abbreviation site_ids :: "db \<Rightarrow> string set" where "site_ids d \<equiv> site_id ` set (db_sites d)"

definition hook_key :: "hook \<Rightarrow> string \<times> string \<times> int" where
  "hook_key h = (hook_site_id h, hook_event h, hook_position h)"

definition keys_unique :: "hook list \<Rightarrow> bool" where
  "keys_unique hs \<longleftrightarrow> (\<forall>h\<in>set hs. \<forall>k\<in>set hs. hook_id h \<noteq> hook_id k \<longrightarrow> hook_key h \<noteq> hook_key k)"

definition hooks_inv :: "db \<Rightarrow> bool" where
  "hooks_inv d \<longleftrightarrow>
     distinct (map hook_id (db_hooks d)) \<and> keys_unique (db_hooks d) \<and> 0 < db_next_hook d \<and>
     (\<forall>h\<in>set (db_hooks d). 0 < hook_id h \<and> hook_id h < db_next_hook d \<and> 0 \<le> hook_position h \<and>
        hook_site_id h \<in> site_ids d \<and> hook_validate h = None)"

definition activity_ok :: "activity_event \<Rightarrow> bool" where
  "activity_ok ev \<longleftrightarrow> activity_kind_valid (ev_kind ev) \<and> activity_status_valid (ev_status ev) \<and>
     0 \<le> ev_duration_ms ev \<and> ev_time ev \<noteq> None \<and> ev_details ev \<noteq> []"

definition activity_inv :: "db \<Rightarrow> bool" where
  "activity_inv d \<longleftrightarrow>
     distinct (map ev_id (db_activity d)) \<and>
     (\<forall>ev\<in>set (db_activity d). ev_id ev < db_next_activity d \<and> ev_site_id ev \<in> site_ids d \<and> activity_ok ev) \<and>
     (\<forall>sid. length (filter (\<lambda>ev. ev_site_id ev = sid) (db_activity d)) \<le> activity_retention_default)"

definition db_inv :: "db \<Rightarrow> bool" where
  "db_inv d \<longleftrightarrow> distinct (map site_id (db_sites d)) \<and> hooks_inv d \<and> activity_inv d"

lemma db_inv_empty: "db_inv empty_db"
  by (simp add: db_inv_def hooks_inv_def activity_inv_def keys_unique_def empty_db_def)

text \<open>The tables an invariant does not read.\<close>

lemma inv_frame:
  "hooks_inv (d\<lparr>db_settings := m\<rparr>) = hooks_inv d" "activity_inv (d\<lparr>db_settings := m\<rparr>) = activity_inv d"
  "activity_inv (d\<lparr>db_hooks := hs\<rparr>) = activity_inv d" "activity_inv (d\<lparr>db_next_hook := n\<rparr>) = activity_inv d"
  "hooks_inv (d\<lparr>db_activity := evs\<rparr>) = hooks_inv d" "hooks_inv (d\<lparr>db_next_activity := n\<rparr>) = hooks_inv d"
  by (simp_all add: hooks_inv_def activity_inv_def)

lemma keys_unique_subset: "keys_unique hs \<Longrightarrow> set ks \<subseteq> set hs \<Longrightarrow> keys_unique ks"
  by (auto simp: keys_unique_def)

lemma keys_unique_map:
  assumes "keys_unique hs" and "\<And>h. hook_key (f h) = hook_key h" and "\<And>h. hook_id (f h) = hook_id h"
  shows "keys_unique (map f hs)"
  using assms(1) by (simp add: keys_unique_def assms(2,3))

lemma keys_unique_snoc:
  assumes "keys_unique hs" and "\<forall>r\<in>set hs. hook_key r \<noteq> hook_key h"
  shows "keys_unique (hs @ [h])"
  unfolding keys_unique_def
proof (intro ballI impI)
  fix a b assume "a \<in> set (hs @ [h])" "b \<in> set (hs @ [h])" "hook_id a \<noteq> hook_id b"
  then consider "a = h" "b \<in> set hs" | "b = h" "a \<in> set hs" | "a \<in> set hs" "b \<in> set hs" by auto
  then show "hook_key a \<noteq> hook_key b"
    using assms \<open>hook_id a \<noteq> hook_id b\<close> by cases (auto simp: keys_unique_def dest: sym)
qed

lemma mirror_simps [simp]:
  "site_id (mirror_mysql_version s) = site_id s"
  "site_lan_enabled (mirror_mysql_version s) = site_lan_enabled s"
  by (simp_all add: mirror_mysql_version_def)

lemma distinct_map_filter_ids: "distinct (map f xs) \<Longrightarrow> distinct (map f (filter P xs))"
  by (rule distinct_map_filter)

lemma filter_length_mono: "length (filter (\<lambda>x. Q x \<and> P x) xs) \<le> length (filter P xs)"
  by (induction xs) auto

subsection \<open>Sites and settings\<close>

lemma add_site_inv: "db_inv d \<Longrightarrow> db_inv (snd (snd (add_site flt now s d)))"
  by (auto simp: add_site_def Let_def exec_def sql_insert_site_def db_inv_def hooks_inv_def
      activity_inv_def split: option.splits sum.splits if_splits)

lemma sql_update_site_ids: "map site_id (db_sites (sql_update_site s d)) = map site_id (db_sites d)"
  by (simp add: sql_update_site_def)

lemma update_site_inv: "db_inv d \<Longrightarrow> db_inv (snd (snd (update_site flt now s d)))"
proof -
  assume inv: "db_inv d"
  have "site_ids (sql_update_site t d) = site_ids d" for t
    using arg_cong [OF sql_update_site_ids, of set t d] by simp
  moreover have "db_hooks (sql_update_site t d) = db_hooks d" "db_activity (sql_update_site t d) = db_activity d"
    "db_next_hook (sql_update_site t d) = db_next_hook d"
    "db_next_activity (sql_update_site t d) = db_next_activity d" for t
    by (simp_all add: sql_update_site_def)
  ultimately have "db_inv (sql_update_site t d)" for t
    using inv by (simp add: db_inv_def hooks_inv_def activity_inv_def sql_update_site_ids)
  with inv show ?thesis by (simp add: update_site_def Let_def exec_def split: option.splits)
qed

lemma sql_delete_site_inv: "db_inv d \<Longrightarrow> db_inv (sql_delete_site sid d)"
  unfolding db_inv_def hooks_inv_def activity_inv_def sql_delete_site_def
  by (auto simp: distinct_map_filter intro: keys_unique_subset order_trans [OF filter_length_mono])

lemma delete_site_inv: "db_inv d \<Longrightarrow> db_inv (snd (delete_site flt sid d))"
  by (simp add: delete_site_def exec_def sql_delete_site_inv split: option.splits)

lemma set_setting_inv: "db_inv d \<Longrightarrow> db_inv (snd (set_setting flt k v d))"
  by (simp add: set_setting_def exec_def db_inv_def inv_frame split: option.splits)

subsection \<open>Hooks\<close>

lemma hook_validate_cong:
  "hook_validate (h\<lparr>hook_position := p\<rparr>) = hook_validate h"
  "hook_validate (h\<lparr>hook_id := i\<rparr>) = hook_validate h"
  "hook_validate (h\<lparr>hook_created_at := t\<rparr>) = hook_validate h"
  "hook_validate (h\<lparr>hook_updated_at := t\<rparr>) = hook_validate h"
  by (simp_all add: hook_validate_def)

lemma foldl_max_upper: "a \<le> foldl max a (ps :: int list) \<and> (\<forall>p\<in>set ps. p \<le> foldl max a ps)"
proof (induction ps arbitrary: a)
  case (Cons p ps)
  from Cons.IH [of "max a p"] show ?case by auto
qed simp

lemma sql_max_position_upper:
  "h \<in> set (hook_rows sid ev d) \<Longrightarrow> hook_position h < next_position (sql_max_position sid ev d)"
proof -
  assume "h \<in> set (hook_rows sid ev d)"
  then have h: "hook_position h \<in> set (map hook_position (hook_rows sid ev d))" by simp
  then obtain p ps where "map hook_position (hook_rows sid ev d) = p # ps"
    by (cases "map hook_position (hook_rows sid ev d)") simp_all
  with h have "map hook_position (hook_rows sid ev d) = p # ps" "hook_position h \<in> set (p # ps)" by simp_all
  then show ?thesis using foldl_max_upper [of p ps]
    by (auto simp: sql_max_position_def next_position_def)
qed

lemma sql_max_position_nonneg:
  "\<forall>h\<in>set (db_hooks d). 0 \<le> hook_position h \<Longrightarrow> 0 \<le> next_position (sql_max_position sid ev d)"
proof (cases "hook_rows sid ev d")
  case Nil
  then show ?thesis by (simp add: sql_max_position_def next_position_def)
next
  case (Cons h hs)
  have "h \<in> set (hook_rows sid ev d)" using Cons by simp
  then have "h \<in> set (db_hooks d)" by (simp add: hook_rows_def)
  moreover assume "\<forall>h\<in>set (db_hooks d). 0 \<le> hook_position h"
  ultimately show ?thesis using sql_max_position_upper [of h sid ev d] Cons by fastforce
qed

lemma sql_insert_hook_inv:
  assumes "db_inv d" "hook_validate h = None" "0 \<le> hook_position h" "sql_insert_hook h d = Inr (i, d')"
  shows "db_inv d'"
proof -
  let ?h = "h\<lparr>hook_id := db_next_hook d\<rparr>"
  from assms(4) have new: "\<forall>r\<in>set (db_hooks d). hook_key r \<noteq> hook_key h" "hook_site_id h \<in> site_ids d"
    and d': "d' = d\<lparr>db_hooks := db_hooks d @ [?h], db_next_hook := db_next_hook d + 1\<rparr>"
    by (auto simp: sql_insert_hook_def hook_rows_def hook_key_def split: if_splits)
  have inv: "hooks_inv d" using assms(1) by (simp add: db_inv_def)
  have hk: "hook_key ?h = hook_key h" by (simp add: hook_key_def)
  have "keys_unique (db_hooks d')"
    using inv new(1) hk keys_unique_snoc [of "db_hooks d" ?h] by (simp add: d' hooks_inv_def)
  moreover have "distinct (map hook_id (db_hooks d'))"
    using inv by (force simp: d' hooks_inv_def)
  moreover have "\<forall>r\<in>set (db_hooks d'). 0 < hook_id r \<and> hook_id r < db_next_hook d' \<and> 0 \<le> hook_position r \<and>
        hook_site_id r \<in> site_ids d' \<and> hook_validate r = None"
  proof
    fix r assume "r \<in> set (db_hooks d')"
    then consider "r \<in> set (db_hooks d)" | "r = ?h" by (auto simp: d')
    then show "0 < hook_id r \<and> hook_id r < db_next_hook d' \<and> 0 \<le> hook_position r \<and>
        hook_site_id r \<in> site_ids d' \<and> hook_validate r = None"
    proof cases
      case 1
      with inv have "0 < hook_id r \<and> hook_id r < db_next_hook d \<and> 0 \<le> hook_position r \<and>
        hook_site_id r \<in> site_ids d \<and> hook_validate r = None" by (simp add: hooks_inv_def)
      then show ?thesis by (simp add: d')
    next
      case 2
      then show ?thesis using inv assms(2,3) new(2) by (simp add: d' hook_validate_cong hooks_inv_def)
    qed
  qed
  moreover have "0 < db_next_hook d'" using inv by (simp add: d' hooks_inv_def)
  ultimately have "hooks_inv d'" by (simp only: hooks_inv_def)
  then show ?thesis using assms(1) by (simp add: d' db_inv_def inv_frame)
qed

text \<open>Either nothing changes, or the whole call took effect.\<close>

lemma add_hook_cases:
  assumes "add_hook flt now (Some h) d = (ho, e, d')"
  obtains "d' = d" "e \<noteq> None"
  | i h' where "e = None" "h' = h\<lparr>hook_position := next_position (sql_max_position (hook_site_id h) (hook_event h) d),
        hook_created_at := now, hook_updated_at := now\<rparr>"
      "hook_validate h = None" "sql_insert_hook h' d = Inr (i, d')" "ho = Some (h'\<lparr>hook_id := i\<rparr>)"
  using assms
  by (auto simp: add_hook_def Let_def split: option.splits sum.splits prod.splits dest!: exec_Inr)

lemma hook_validate_new: "hook_validate (h\<lparr>hook_position := p, hook_created_at := t, hook_updated_at := u\<rparr>)
    = hook_validate h"
  by (simp add: hook_validate_cong)

lemma add_hook_inv: "db_inv d \<Longrightarrow> db_inv (snd (snd (add_hook flt now (Some h) d)))"
proof -
  assume inv: "db_inv d"
  obtain ho e d' where r: "add_hook flt now (Some h) d = (ho, e, d')" by (metis prod_cases3)
  from r have "db_inv d'"
  proof (cases rule: add_hook_cases)
    case 1
    with inv show ?thesis by simp
  next
    case (2 i h')
    moreover have "0 \<le> next_position (sql_max_position (hook_site_id h) (hook_event h) d)"
      using sql_max_position_nonneg inv by (simp add: db_inv_def hooks_inv_def)
    ultimately show ?thesis using sql_insert_hook_inv [OF inv _ _ 2(4)] by (simp add: hook_validate_new)
  qed
  with r show ?thesis by simp
qed

text \<open>A change of the rows in place that keeps the ids, the keys and validity.\<close>

lemma hooks_inv_map:
  assumes "hooks_inv d" and "\<And>h. hook_key (f h) = hook_key h" and "\<And>h. hook_id (f h) = hook_id h"
    and "\<And>h. h \<in> set (db_hooks d) \<Longrightarrow> hook_validate (f h) = None"
  shows "hooks_inv (d\<lparr>db_hooks := map f (db_hooks d)\<rparr>)"
proof -
  have "hook_site_id (f h) = hook_site_id h" "hook_position (f h) = hook_position h" for h
    using assms(2) [of h] by (simp_all add: hook_key_def)
  moreover have "keys_unique (map f (db_hooks d))"
    using keys_unique_map assms(1-3) by (simp add: hooks_inv_def)
  moreover have "map hook_id (map f (db_hooks d)) = map hook_id (db_hooks d)" by (simp add: assms(3))
  ultimately show ?thesis using assms(1,4) unfolding hooks_inv_def by (simp add: assms(3) del: map_map)
qed

lemma update_hook_inv: "db_inv d \<Longrightarrow> db_inv (snd (snd (update_hook flt now (Some h) d)))"
proof -
  assume inv: "db_inv d"
  have "db_inv (snd (sql_update_hook (h\<lparr>hook_updated_at := now\<rparr>) d))" if v: "hook_validate h = None"
  proof -
    let ?h = "h\<lparr>hook_updated_at := now\<rparr>"
    let ?f = "\<lambda>r. if hook_update_matches ?h r
          then r\<lparr>hook_task_type := hook_task_type ?h, hook_command := hook_command ?h,
                 hook_service := hook_service ?h, hook_run_as_user := hook_run_as_user ?h,
                 hook_enabled := hook_enabled ?h, hook_updated_at := hook_updated_at ?h\<rparr>
          else r"
    have "hook_validate (?f r) = None" if "r \<in> set (db_hooks d)" for r
    proof (cases "hook_update_matches ?h r")
      case True
      then have "hook_event r = hook_event h" by (simp add: hook_update_matches_def)
      with v True show ?thesis by (simp add: hook_validate_None)
    next
      case False
      with inv that show ?thesis by (simp add: db_inv_def hooks_inv_def)
    qed
    then have "hooks_inv (d\<lparr>db_hooks := map ?f (db_hooks d)\<rparr>)"
      using inv by (intro hooks_inv_map) (simp_all add: db_inv_def hook_key_def)
    then show ?thesis using inv by (simp add: sql_update_hook_def db_inv_def inv_frame)
  qed
  with inv show ?thesis
    by (auto simp: update_hook_def Let_def exec_def split: option.splits prod.splits)
qed

lemma hooks_inv_filter: "hooks_inv d \<Longrightarrow> hooks_inv (d\<lparr>db_hooks := filter P (db_hooks d)\<rparr>)"
  by (auto simp: hooks_inv_def distinct_map_filter intro: keys_unique_subset)

lemma delete_hook_inv: "db_inv d \<Longrightarrow> db_inv (snd (delete_hook flt i d))"
  by (simp add: delete_hook_def exec_def db_inv_def inv_frame hooks_inv_filter split: option.splits)

lemma delete_hooks_for_site_inv: "db_inv d \<Longrightarrow> db_inv (snd (delete_hooks_for_site flt sid d))"
  by (simp add: delete_hooks_for_site_def exec_def db_inv_def inv_frame hooks_inv_filter split: option.splits)

subsection \<open>Reordering\<close>

text \<open>What the two passes keep: everything but the sign of the positions, which the last pass restores.\<close>

definition mid_inv :: "db \<Rightarrow> db \<Rightarrow> int set \<Rightarrow> bool" where
  "mid_inv d0 d bad \<longleftrightarrow>
     db_sites d = db_sites d0 \<and> db_activity d = db_activity d0 \<and> db_next_hook d = db_next_hook d0 \<and>
     db_next_activity d = db_next_activity d0 \<and> db_settings d = db_settings d0 \<and>
     map hook_id (db_hooks d) = map hook_id (db_hooks d0) \<and>
     map hook_site_id (db_hooks d) = map hook_site_id (db_hooks d0) \<and>
     map hook_validate (db_hooks d) = map hook_validate (db_hooks d0) \<and>
     keys_unique (db_hooks d) \<and> (\<forall>h\<in>set (db_hooks d). hook_id h \<in> bad \<or> 0 \<le> hook_position h)"

lemma sql_set_position_mid:
  assumes "sql_set_position p ts i d = Inr d'" and "mid_inv d0 d bad"
  shows "mid_inv d0 d' (if 0 \<le> p then bad - {i} else insert i bad)"
proof -
  let ?f = "\<lambda>r. if hook_id r = i then r\<lparr>hook_position := p,
      hook_updated_at := (case ts of None \<Rightarrow> hook_updated_at r | Some t \<Rightarrow> t)\<rparr> else r"
  from assms(1) have d': "d' = d\<lparr>db_hooks := map ?f (db_hooks d)\<rparr>"
    and free: "\<And>r q. r \<in> set (db_hooks d) \<Longrightarrow> hook_id r = i \<Longrightarrow>
        q \<in> set (hook_rows (hook_site_id r) (hook_event r) d) \<Longrightarrow> hook_id q \<noteq> i \<Longrightarrow> hook_position q \<noteq> p"
    by (auto simp: sql_set_position_def split: if_splits)
  have idf: "hook_id (?f a) = hook_id a" for a by simp
  have clash: "hook_key (?f a) \<noteq> hook_key b"
    if "a \<in> set (db_hooks d)" "b \<in> set (db_hooks d)" "hook_id a = i" "hook_id b \<noteq> i" for a b
    using free [OF that(1,3), of b] that by (auto simp: hook_rows_def hook_key_def)
  have "hook_key (?f a) \<noteq> hook_key (?f b)"
    if ab: "a \<in> set (db_hooks d)" "b \<in> set (db_hooks d)" "hook_id a \<noteq> hook_id b" for a b
  proof -
    consider "hook_id a = i" | "hook_id b = i" | "hook_id a \<noteq> i" "hook_id b \<noteq> i" by blast
    then show ?thesis
    proof cases
      case 1
      with ab clash [of a b] show ?thesis by simp
    next
      case 2
      with ab clash [of b a] show ?thesis by fastforce
    next
      case 3
      with ab assms(2) show ?thesis by (auto simp: mid_inv_def keys_unique_def)
    qed
  qed
  then have "\<forall>a\<in>set (db_hooks d). \<forall>b\<in>set (db_hooks d). hook_id (?f a) \<noteq> hook_id (?f b) \<longrightarrow>
      hook_key (?f a) \<noteq> hook_key (?f b)"
    by (simp only: idf) blast
  then have "keys_unique (map ?f (db_hooks d))" unfolding keys_unique_def set_map by blast
  moreover have "map hook_id (map ?f (db_hooks d)) = map hook_id (db_hooks d)"
    "map hook_site_id (map ?f (db_hooks d)) = map hook_site_id (db_hooks d)"
    "map hook_validate (map ?f (db_hooks d)) = map hook_validate (db_hooks d)"
    by (auto simp: hook_validate_cong)
  moreover have "\<forall>h\<in>set (map ?f (db_hooks d)).
      hook_id h \<in> (if 0 \<le> p then bad - {i} else insert i bad) \<or> 0 \<le> hook_position h"
    using assms(2) by (auto simp: mid_inv_def)
  ultimately show ?thesis using assms(2) by (simp add: d' mid_inv_def del: map_map set_map)
qed

lemma park_pass_mid: "park_pass flt now k ids d = Inr d' \<Longrightarrow> mid_inv d0 d bad \<Longrightarrow> mid_inv d0 d' (bad \<union> set ids)"
proof (induction ids arbitrary: k d bad)
  case (Cons i ids)
  from Cons.prems(1) obtain d1 where
    "sql_set_position (- (int k + 1)) (Some now) i d = Inr d1" "park_pass flt now (Suc k) ids d1 = Inr d'"
    by (auto split: sum.splits dest: exec_Inr)
  with Cons.IH [OF this(2), of "insert i bad"] sql_set_position_mid [OF this(1) Cons.prems(2)] show ?case
    by simp
qed simp

lemma assign_pass_mid: "assign_pass flt k ids d = Inr d' \<Longrightarrow> mid_inv d0 d bad \<Longrightarrow> mid_inv d0 d' (bad - set ids)"
proof (induction ids arbitrary: k d bad)
  case (Cons i ids)
  from Cons.prems(1) obtain d1 where
    "sql_set_position (int k) None i d = Inr d1" "assign_pass flt (Suc k) ids d1 = Inr d'"
    by (auto split: sum.splits dest: exec_Inr)
  moreover have "mid_inv d0 d1 (bad - {i})"
    using sql_set_position_mid [OF calculation(1) Cons.prems(2)] by simp
  moreover have "bad - {i} - set ids = bad - set (i # ids)" by auto
  ultimately show ?case using Cons.IH [of "Suc k" d1 "bad - {i}"] by metis
qed simp

lemma mid_inv_start: "db_inv d \<Longrightarrow> mid_inv d d {}"
  by (simp add: mid_inv_def db_inv_def hooks_inv_def)

lemma mid_inv_end:
  assumes "db_inv d0" and m: "mid_inv d0 d {}"
  shows "db_inv d"
proof -
  have i0: "hooks_inv d0" using assms(1) by (simp add: db_inv_def)
  have "\<forall>h\<in>set (db_hooks d). 0 < hook_id h \<and> hook_id h < db_next_hook d \<and> 0 \<le> hook_position h \<and>
        hook_site_id h \<in> site_ids d \<and> hook_validate h = None"
  proof
    fix h assume h: "h \<in> set (db_hooks d)"
    have "hook_id h \<in> set (map hook_id (db_hooks d0))" "hook_site_id h \<in> set (map hook_site_id (db_hooks d0))"
      "hook_validate h \<in> set (map hook_validate (db_hooks d0))"
      using h m unfolding mid_inv_def by (metis imageI list.set_map)+
    then show "0 < hook_id h \<and> hook_id h < db_next_hook d \<and> 0 \<le> hook_position h \<and>
        hook_site_id h \<in> site_ids d \<and> hook_validate h = None"
      using i0 m h by (auto simp: hooks_inv_def mid_inv_def)
  qed
  then have "hooks_inv d" using i0 m by (simp add: hooks_inv_def mid_inv_def)
  moreover have "activity_inv d" using assms by (simp add: db_inv_def activity_inv_def mid_inv_def)
  ultimately show ?thesis using assms by (simp add: db_inv_def mid_inv_def)
qed

lemma reorder_hooks_cases:
  assumes "reorder_hooks flt now sid ev ids d = (e, d')"
  obtains "d' = d" "e \<noteq> None \<or> ids = []"
  | d1 where "e = None" "ids \<noteq> []" "length (remdups (map hook_id (hook_rows sid ev d))) = length ids"
      "\<forall>i\<in>set ids. i \<in> hook_id ` set (hook_rows sid ev d)"
      "park_pass flt now 0 ids d = Inr d1" "assign_pass flt 0 ids d1 = Inr d'"
  using assms
  by (auto simp: reorder_hooks_def foreign_id_def find_None_iff Let_def
      split: option.splits sum.splits if_splits dest!: exec_Inr)

lemma reorder_hooks_inv: "db_inv d \<Longrightarrow> db_inv (snd (reorder_hooks flt now sid ev ids d))"
proof -
  assume inv: "db_inv d"
  obtain e d' where r: "reorder_hooks flt now sid ev ids d = (e, d')" by (metis surj_pair)
  from r have "db_inv d'"
  proof (cases rule: reorder_hooks_cases)
    case 1
    with inv show ?thesis by simp
  next
    case (2 d1)
    from park_pass_mid [OF 2(5) mid_inv_start [OF inv]] have "mid_inv d d1 (set ids)" by simp
    from assign_pass_mid [OF 2(6) this] have "mid_inv d d' {}" by simp
    with inv show ?thesis by (rule mid_inv_end)
  qed
  with r show ?thesis by simp
qed

subsection \<open>Activity\<close>

lemma newest_first_set: "set (newest_first sid d) = {ev \<in> set (db_activity d). ev_site_id ev = sid}"
  by (auto simp: newest_first_def)

lemma newest_first_distinct: "distinct (map ev_id (db_activity d)) \<Longrightarrow> distinct (map ev_id (newest_first sid d))"
proof -
  assume "distinct (map ev_id (db_activity d))"
  then have i: "inj_on ev_id (set (db_activity d))" and "distinct (db_activity d)"
    by (simp_all add: distinct_map)
  then have "distinct (newest_first sid d)" by (simp add: newest_first_def)
  moreover have "inj_on ev_id (set (newest_first sid d))"
    by (rule inj_on_subset [OF i]) (auto simp: newest_first_set)
  ultimately show ?thesis by (simp add: distinct_map)
qed

lemma length_newest_first:
  "length (newest_first sid d) = length (filter (\<lambda>ev. ev_site_id ev = sid) (db_activity d))"
  by (simp add: newest_first_def)

text \<open>The trim keeps exactly the \<open>n\<close> newest rows of the site, and every row of the others.\<close>

lemma trim_activity_tx_rows:
  "db_activity (trim_activity_tx sid n d) =
     filter (\<lambda>ev. ev_site_id ev = sid \<longrightarrow> ev_id ev \<in> ev_id ` set (take n (newest_first sid d))) (db_activity d)"
  by (auto simp: trim_activity_tx_def intro!: filter_cong)

lemma trim_newest_first:
  assumes "distinct (map ev_id (db_activity d))"
  shows "newest_first sid (trim_activity_tx sid n d) = take n (newest_first sid d)"
proof -
  let ?top = "ev_id ` set (take n (newest_first sid d))"
  have inj: "inj_on ev_id (set (newest_first sid d))"
    using newest_first_distinct [OF assms, of sid] by (simp add: distinct_map)
  have dist: "distinct (newest_first sid d)"
    using newest_first_distinct [OF assms, of sid] by (simp add: distinct_map)
  have f: "filter (\<lambda>ev. ev_id ev \<in> ?top) (newest_first sid d) = take n (newest_first sid d)"
  proof -
    let ?xs = "take n (newest_first sid d)" and ?ys = "drop n (newest_first sid d)"
    have "\<forall>y\<in>set ?ys. ev_id y \<notin> ?top"
    proof
      fix y assume y: "y \<in> set ?ys"
      have "y \<notin> set ?xs" using dist y by (metis append_take_drop_id distinct_append disjoint_iff)
      moreover have "x = y" if "x \<in> set ?xs" "ev_id x = ev_id y" for x
        using inj_onD [OF inj that(2)] that(1) y by (meson in_set_dropD in_set_takeD)
      ultimately show "ev_id y \<notin> ?top" by (metis imageE)
    qed
    then have "filter (\<lambda>ev. ev_id ev \<in> ?top) ?ys = []" by (simp only: filter_empty_conv)
    moreover have "filter (\<lambda>ev. ev_id ev \<in> ?top) ?xs = ?xs" by (rule filter_True) blast
    ultimately have "filter (\<lambda>ev. ev_id ev \<in> ?top) (?xs @ ?ys) = ?xs" by (simp only: filter_append append_Nil2)
    then show ?thesis by (simp only: append_take_drop_id)
  qed
  have "filter (\<lambda>ev. ev_site_id ev = sid) (db_activity (trim_activity_tx sid n d))
      = filter (\<lambda>ev. ev_id ev \<in> ?top) (filter (\<lambda>ev. ev_site_id ev = sid) (db_activity d))"
    by (simp only: trim_activity_tx_rows filter_filter) (rule filter_cong, auto)
  then have "newest_first sid (trim_activity_tx sid n d)
      = filter (\<lambda>ev. ev_id ev \<in> ?top) (rev (sort_key (\<lambda>ev. the (ev_time ev))
          (sort_key ev_id (filter (\<lambda>ev. ev_site_id ev = sid) (db_activity d)))))"
    by (simp only: newest_first_def [of sid "trim_activity_tx sid n d"] sorted_key_stable_filter [symmetric]
        rev_filter)
  also have "\<dots> = filter (\<lambda>ev. ev_id ev \<in> ?top) (newest_first sid d)"
    by (simp only: newest_first_def [of sid d, symmetric])
  finally show ?thesis using f by simp
qed

lemma trim_activity_tx_others:
  "sid' \<noteq> sid \<Longrightarrow> filter (\<lambda>ev. ev_site_id ev = sid') (db_activity (trim_activity_tx sid n d))
     = filter (\<lambda>ev. ev_site_id ev = sid') (db_activity d)"
  by (auto simp: trim_activity_tx_rows intro!: filter_cong)

lemma trim_activity_tx_inv: "db_inv d \<Longrightarrow> db_inv (trim_activity_tx sid n d)"
  unfolding db_inv_def hooks_inv_def activity_inv_def trim_activity_tx_def
  by (auto simp: distinct_map_filter intro: order_trans [OF filter_length_mono])

lemma trim_activity_inv: "db_inv d \<Longrightarrow> db_inv (snd (trim_activity flt sid n d))"
  by (auto simp: trim_activity_def exec_def trim_activity_tx_inv split: option.splits)

definition stored_event :: "gtime \<Rightarrow> activity_event \<Rightarrow> activity_event" where
  "stored_event now ev =
     ev\<lparr>ev_duration_ms := max 0 (ev_duration_ms ev),
        ev_time := Some (case ev_time ev of None \<Rightarrow> now | Some t \<Rightarrow> t),
        ev_details := (if ev_details ev = [] then ''null'' else ev_details ev)\<rparr>"

lemma fill_activity_simps [simp]:
  "ev_site_id (fill_activity now ev) = ev_site_id ev" "ev_details (fill_activity now ev) = ev_details ev"
  by (simp_all add: fill_activity_def Let_def)

lemma fill_activity_stored:
  "(fill_activity now ev)\<lparr>ev_details := activity_details (fill_activity now ev)\<rparr> = stored_event now ev"
  by (cases "ev_duration_ms ev < 0") (simp_all add: fill_activity_def stored_event_def activity_details_def max_def)

lemma append_activity_tx_cases:
  assumes "append_activity_tx flt ev d = (ev', e, d')"
  obtains "d' = d" "e \<noteq> None"
  | i d1 where "e = None" "sql_insert_activity (ev\<lparr>ev_details := activity_details ev\<rparr>) d = Inr (i, d1)"
      "d' = trim_activity_tx (ev_site_id ev) activity_retention_default d1" "ev' = ev\<lparr>ev_id := i\<rparr>"
proof (cases "exec flt ''begin'' 0 (Inr () :: db_error + unit)")
  case (Inl x)
  with assms that(1) show thesis by (auto simp: append_activity_tx_def)
next
  case b: (Inr u)
  show thesis
  proof (cases "exec flt ''insert'' 0 (sql_insert_activity (ev\<lparr>ev_details := activity_details ev\<rparr>) d)")
    case (Inl x)
    with b assms that(1) show thesis by (auto simp: append_activity_tx_def)
  next
    case (Inr p)
    then obtain i d1 where i: "exec flt ''insert'' 0 (sql_insert_activity (ev\<lparr>ev_details := activity_details ev\<rparr>) d)
        = Inr (i, d1)" by (cases p) simp
    show thesis
    proof (cases "e = None")
      case False
      with b i assms that(1) show thesis
        by (auto simp: append_activity_tx_def Let_def split: sum.splits)
    next
      case True
      with b i assms have "d' = trim_activity_tx (ev_site_id ev) activity_retention_default d1"
        "ev' = ev\<lparr>ev_id := i\<rparr>"
        by (auto simp: append_activity_tx_def Let_def split: sum.splits dest!: exec_Inr)
      with True that(2) exec_Inr [OF i] show thesis by blast
    qed
  qed
qed

lemma append_activity_cases:
  assumes "append_activity flt now js (Some ev) d = (evo, e, d')"
  obtains "d' = d" "e \<noteq> None"
  | i d1 where "e = None" "check_activity ev = None" "sql_insert_activity (stored_event now ev) d = Inr (i, d1)"
      "d' = trim_activity_tx (ev_site_id ev) activity_retention_default d1"
      "evo = Some ((fill_activity now ev)\<lparr>ev_id := i\<rparr>)"
proof (cases "check_activity ev")
  case (Some x)
  with assms have "d' = d" "e = Some x" by (simp_all add: append_activity_def)
  with that(1) show thesis by blast
next
  case None
  let ?ev = "fill_activity now ev"
  show thesis
  proof (cases "ev_details ?ev \<noteq> [] \<and> \<not> js (ev_details ?ev)")
    case True
    with assms None that(1) show thesis by (auto simp: append_activity_def Let_def)
  next
    case False
    obtain ev' where tx: "append_activity_tx flt ?ev d = (ev', e, d')" and evo: "evo = Some ev'"
      using assms None False by (auto simp: append_activity_def Let_def split: prod.splits)
    from tx show thesis
    proof (cases rule: append_activity_tx_cases)
      case 1
      then show thesis by (rule that(1))
    next
      case (2 i d1)
      then show thesis using None evo fill_activity_stored that(2) by simp
    qed
  qed
qed

lemma check_activity_None:
  "check_activity ev = None \<longleftrightarrow>
     ev_site_id ev \<noteq> [] \<and> activity_kind_valid (ev_kind ev) \<and> activity_status_valid (ev_status ev)"
  by (simp add: check_activity_def)

lemma sql_insert_activity_inv:
  assumes inv: "db_inv d" and "activity_ok ev" and ins: "sql_insert_activity ev d = Inr (i, d1)"
  shows "db_inv (trim_activity_tx (ev_site_id ev) activity_retention_default d1)" (is "db_inv ?d")
    and "distinct (map ev_id (db_activity d1))"
proof -
  let ?ev = "ev\<lparr>ev_id := db_next_activity d\<rparr>"
  from ins have d1: "d1 = d\<lparr>db_activity := db_activity d @ [?ev], db_next_activity := db_next_activity d + 1\<rparr>"
    and site: "ev_site_id ev \<in> site_ids d"
    by (auto simp: sql_insert_activity_def split: if_splits)
  have a: "activity_inv d" using inv by (simp add: db_inv_def)
  show dist: "distinct (map ev_id (db_activity d1))" using a by (force simp: d1 activity_inv_def)
  have rows: "\<forall>x\<in>set (db_activity d1). ev_id x < db_next_activity d1 \<and> ev_site_id x \<in> site_ids d1 \<and> activity_ok x"
  proof
    fix x assume "x \<in> set (db_activity d1)"
    then consider "x \<in> set (db_activity d)" | "x = ?ev" by (auto simp: d1)
    then show "ev_id x < db_next_activity d1 \<and> ev_site_id x \<in> site_ids d1 \<and> activity_ok x"
    proof cases
      case 1
      with a have "ev_id x < db_next_activity d \<and> ev_site_id x \<in> site_ids d \<and> activity_ok x"
        by (simp add: activity_inv_def)
      then show ?thesis by (simp add: d1)
    next
      case 2
      then show ?thesis using assms(2) site by (simp add: d1 activity_ok_def)
    qed
  qed
  have "length (filter (\<lambda>x. ev_site_id x = sid) (db_activity ?d)) \<le> activity_retention_default" for sid
  proof (cases "sid = ev_site_id ev")
    case True
    have "length (newest_first sid ?d) \<le> activity_retention_default"
      using True trim_newest_first [OF dist] by simp
    then show ?thesis by (simp add: length_newest_first)
  next
    case False
    then have "filter (\<lambda>x. ev_site_id x = sid) (db_activity ?d) = filter (\<lambda>x. ev_site_id x = sid) (db_activity d)"
      by (simp add: trim_activity_tx_others) (simp add: d1)
    then show ?thesis using a by (simp add: activity_inv_def)
  qed
  moreover have "set (db_activity ?d) \<subseteq> set (db_activity d1)" by (auto simp: trim_activity_tx_rows)
  moreover have "distinct (map ev_id (db_activity ?d))" using dist by (simp add: trim_activity_tx_rows distinct_map_filter)
  moreover have fr: "db_next_activity ?d = db_next_activity d1" "db_sites ?d = db_sites d1"
    by (simp_all add: trim_activity_tx_def)
  ultimately have "activity_inv ?d" using rows by (auto simp: activity_inv_def)
  moreover have "hooks_inv ?d" using inv by (simp add: trim_activity_tx_def d1 db_inv_def inv_frame)
  ultimately show "db_inv ?d" using inv fr by (simp add: db_inv_def d1)
qed

lemma stored_event_ok: "check_activity ev = None \<Longrightarrow> activity_ok (stored_event now ev)"
  by (simp add: check_activity_None activity_ok_def stored_event_def)

lemma stored_event_site [simp]: "ev_site_id (stored_event now ev) = ev_site_id ev"
  by (simp add: stored_event_def)

lemma append_activity_inv: "db_inv d \<Longrightarrow> db_inv (snd (snd (append_activity flt now js (Some ev) d)))"
proof -
  assume inv: "db_inv d"
  obtain evo e d' where r: "append_activity flt now js (Some ev) d = (evo, e, d')" by (metis prod_cases3)
  from r have "db_inv d'"
  proof (cases rule: append_activity_cases)
    case 1
    with inv show ?thesis by simp
  next
    case (2 i d1)
    from sql_insert_activity_inv(1) [OF inv stored_event_ok [OF 2(2)] 2(3)] 2(4) show ?thesis by simp
  qed
  with r show ?thesis by simp
qed

lemmas storage_inv_intros = add_site_inv update_site_inv delete_site_inv set_setting_inv add_hook_inv
  update_hook_inv delete_hook_inv delete_hooks_for_site_inv reorder_hooks_inv append_activity_inv
  trim_activity_inv

lemma storage_step_inv: "db_inv d \<Longrightarrow> db_inv (storage_step js co d)"
  by (cases "(js, co, d)" rule: storage_step.cases) (simp_all add: storage_inv_intros)

lemma storage_run_inv: "db_inv d \<Longrightarrow> db_inv (storage_run js cs d)"
  unfolding storage_run_def by (induction cs arbitrary: d) (simp_all add: storage_step_inv)

section \<open>What reordering does\<close>

text \<open>Rows moved to the positions \<open>m\<close> gives their ids.\<close>

definition move_hook :: "(int \<Rightarrow> int option) \<Rightarrow> string option \<Rightarrow> hook \<Rightarrow> hook" where
  "move_hook m ts r =
     (case m (hook_id r) of None \<Rightarrow> r
      | Some p \<Rightarrow> r\<lparr>hook_position := p, hook_updated_at := (case ts of None \<Rightarrow> hook_updated_at r | Some t \<Rightarrow> t)\<rparr>)"

definition move_hooks :: "(int \<Rightarrow> int option) \<Rightarrow> string option \<Rightarrow> db \<Rightarrow> db" where
  "move_hooks m ts d = d\<lparr>db_hooks := map (move_hook m ts) (db_hooks d)\<rparr>"

lemma move_hook_simps [simp]:
  "hook_id (move_hook m ts r) = hook_id r" "hook_site_id (move_hook m ts r) = hook_site_id r"
  "hook_event (move_hook m ts r) = hook_event r"
  by (simp_all add: move_hook_def split: option.splits)

lemma hook_position_move: "hook_position (move_hook m ts r) = (case m (hook_id r) of None \<Rightarrow> hook_position r | Some p \<Rightarrow> p)"
  by (simp add: move_hook_def split: option.splits)

lemma move_hooks_empty [simp]: "move_hooks Map.empty ts d = d"
  by (simp add: move_hooks_def move_hook_def [abs_def])

lemma hook_rows_move: "hook_rows sid ev (move_hooks m ts d) = map (move_hook m ts) (hook_rows sid ev d)"
  by (simp add: hook_rows_def move_hooks_def filter_map comp_def)

lemma sql_set_position_move:
  assumes "m i = None"
    and free: "\<And>r q. r \<in> set (db_hooks d) \<Longrightarrow> hook_id r = i \<Longrightarrow> q \<in> set (hook_rows (hook_site_id r) (hook_event r) d) \<Longrightarrow>
      hook_id q \<noteq> i \<Longrightarrow> hook_position (move_hook m ts q) \<noteq> p"
  shows "sql_set_position p ts i (move_hooks m ts d) = Inr (move_hooks (m(i \<mapsto> p)) ts d)"
proof -
  have "\<not> (\<exists>r\<in>set (db_hooks (move_hooks m ts d)). hook_id r = i \<and>
      (\<exists>q\<in>set (hook_rows (hook_site_id r) (hook_event r) (move_hooks m ts d)). hook_id q \<noteq> i \<and> hook_position q = p))"
  proof (intro notI, elim bexE conjE)
    fix r q assume r: "r \<in> set (db_hooks (move_hooks m ts d))" "hook_id r = i"
      and q: "q \<in> set (hook_rows (hook_site_id r) (hook_event r) (move_hooks m ts d))" "hook_id q \<noteq> i"
        "hook_position q = p"
    from r obtain r0 where r0: "r0 \<in> set (db_hooks d)" "r = move_hook m ts r0" by (auto simp: move_hooks_def)
    with q obtain q0 where "q0 \<in> set (hook_rows (hook_site_id r0) (hook_event r0) d)" "q = move_hook m ts q0"
      by (auto simp: hook_rows_move)
    with free [OF r0(1), of q0] r q r0 show False by simp
  qed
  then show ?thesis
    unfolding sql_set_position_def
    by (simp only: if_False) (auto simp: move_hooks_def move_hook_def assms(1) split: option.splits)
qed

text \<open>The position maps of the two passes after the first \<open>k\<close> ids.\<close>

definition index_map :: "(nat \<Rightarrow> int) \<Rightarrow> int list \<Rightarrow> nat \<Rightarrow> int \<Rightarrow> int option" where
  "index_map f ids k = map_of (map (\<lambda>j. (ids ! j, f j)) [0..<k])"

lemma index_map_0 [simp]: "index_map f ids 0 = Map.empty"
  by (simp add: index_map_def)

lemma map_of_fresh_snoc: "a \<notin> fst ` set xs \<Longrightarrow> map_of (xs @ [(a, b)]) = (map_of xs)(a \<mapsto> b)"
proof
  fix x assume "a \<notin> fst ` set xs"
  then have "map_of xs a = None" by (simp add: map_of_eq_None_iff)
  then show "map_of (xs @ [(a, b)]) x = ((map_of xs)(a \<mapsto> b)) x"
    by (auto simp: map_add_def split: option.splits)
qed

lemma index_map_nth: "distinct ids \<Longrightarrow> k \<le> length ids \<Longrightarrow> j < k \<Longrightarrow> index_map f ids k (ids ! j) = Some (f j)"
  unfolding index_map_def by (rule map_of_is_SomeI) (auto simp: comp_def distinct_map inj_on_def nth_eq_iff_index_eq)

lemma index_map_None: "x \<notin> set (take k ids) \<Longrightarrow> k \<le> length ids \<Longrightarrow> index_map f ids k x = None"
proof -
  assume a: "x \<notin> set (take k ids)" "k \<le> length ids"
  have "\<forall>j<k. ids ! j \<noteq> x"
    using a by (metis in_set_conv_nth length_take min.absorb2 nth_take)
  then show ?thesis by (auto simp: index_map_def map_of_eq_None_iff)
qed

lemma index_map_Some: "index_map f ids k x = Some p \<Longrightarrow> \<exists>j<k. x = ids ! j \<and> p = f j"
  unfolding index_map_def by (drule map_of_SomeD) auto

lemma index_map_Suc:
  "distinct ids \<Longrightarrow> k < length ids \<Longrightarrow> index_map f ids (Suc k) = (index_map f ids k)(ids ! k \<mapsto> f k)"
  unfolding index_map_def upt_Suc_append [OF le0] map_append list.map
  by (rule map_of_fresh_snoc) (auto simp: nth_eq_iff_index_eq)

lemma index_map_fresh: "distinct ids \<Longrightarrow> k < length ids \<Longrightarrow> index_map f ids k (ids ! k) = None"
  by (rule index_map_None) (auto simp: in_set_conv_nth nth_eq_iff_index_eq)

lemma park_pass_move:
  assumes "db_inv d" "distinct ids"
  shows "k \<le> length ids \<Longrightarrow>
    park_pass no_faults now k (drop k ids) (move_hooks (index_map (\<lambda>j. - (int j + 1)) ids k) (Some now) d)
      = Inr (move_hooks (index_map (\<lambda>j. - (int j + 1)) ids (length ids)) (Some now) d)"
proof (induction "length ids - k" arbitrary: k)
  case 0
  then show ?case by simp
next
  case (Suc n)
  let ?m = "index_map (\<lambda>j. - (int j + 1)) ids"
  from Suc have k: "k < length ids" by simp
  have "sql_set_position (- (int k + 1)) (Some now) (ids ! k) (move_hooks (?m k) (Some now) d)
      = Inr (move_hooks ((?m k)(ids ! k \<mapsto> - (int k + 1))) (Some now) d)"
  proof (rule sql_set_position_move)
    show "?m k (ids ! k) = None" using assms(2) k by (rule index_map_fresh)
    fix r q assume "q \<in> set (hook_rows (hook_site_id r) (hook_event r) d)"
    then have "0 \<le> hook_position q" using assms(1) by (auto simp: hook_rows_def db_inv_def hooks_inv_def)
    then show "hook_position (move_hook (?m k) (Some now) q) \<noteq> - (int k + 1)"
      by (auto simp: hook_position_move split: option.splits dest!: index_map_Some)
  qed
  moreover have "drop k ids = ids ! k # drop (Suc k) ids" using k by (simp add: Cons_nth_drop_Suc)
  moreover have "(?m k)(ids ! k \<mapsto> - (int k + 1)) = ?m (Suc k)" using index_map_Suc assms(2) k by simp
  ultimately show ?case using Suc.hyps(1) [of "Suc k"] Suc.hyps(2) k by simp
qed

lemma assign_pass_move:
  assumes "distinct ids"
    and own: "\<And>r. r \<in> set (db_hooks d) \<Longrightarrow> hook_id r \<in> set ids \<Longrightarrow> hook_site_id r = sid \<and> hook_event r = ev"
    and neg: "\<And>q. q \<in> set (hook_rows sid ev d) \<Longrightarrow> hook_position q < 0"
  shows "k \<le> length ids \<Longrightarrow>
    assign_pass no_faults k (drop k ids) (move_hooks (index_map int ids k) None d)
      = Inr (move_hooks (index_map int ids (length ids)) None d)"
proof (induction "length ids - k" arbitrary: k)
  case 0
  then show ?case by simp
next
  case (Suc n)
  let ?m = "index_map int ids"
  from Suc have k: "k < length ids" by simp
  have "sql_set_position (int k) None (ids ! k) (move_hooks (?m k) None d)
      = Inr (move_hooks ((?m k)(ids ! k \<mapsto> int k)) None d)"
  proof (rule sql_set_position_move)
    show "?m k (ids ! k) = None" using assms(1) k by (rule index_map_fresh)
    fix r q assume "r \<in> set (db_hooks d)" "hook_id r = ids ! k" "q \<in> set (hook_rows (hook_site_id r) (hook_event r) d)"
    then have "hook_position q < 0" using own neg k by (metis nth_mem)
    then show "hook_position (move_hook (?m k) None q) \<noteq> int k"
      by (auto simp: hook_position_move split: option.splits dest!: index_map_Some)
  qed
  moreover have "drop k ids = ids ! k # drop (Suc k) ids" using k by (simp add: Cons_nth_drop_Suc)
  moreover have "(?m k)(ids ! k \<mapsto> int k) = ?m (Suc k)" using index_map_Suc assms(1) k by simp
  ultimately show ?case using Suc.hyps(1) [of "Suc k"] Suc.hyps(2) k by simp
qed

lemma sorted_map_int_upt: "sorted (map int [0..<n])"
  by (simp add: sorted_map sorted_wrt_iff_nth_less)

lemma sorted_by_index:
  assumes dids: "distinct ids" and dxs: "distinct (map f xs)" and len: "length xs = length ids"
    and gi: "\<And>x. x \<in> set xs \<Longrightarrow> \<exists>j<length ids. f x = ids ! j \<and> g x = int j"
  shows "map f (sort_key g xs) = ids"
proof -
  have "inj_on g (set xs)"
  proof (rule inj_onI)
    fix x y assume xy: "x \<in> set xs" "y \<in> set xs" "g x = g y"
    with gi [of x] gi [of y] have "f x = f y" by auto
    with xy dxs show "x = y" by (auto simp: distinct_map dest: inj_onD)
  qed
  then have dg: "distinct (map g xs)" using dxs by (simp add: distinct_map)
  have sub: "set (map g xs) \<subseteq> set (map int [0..<length ids])" using gi by force
  have "card (set (map g xs)) = card (set (map int [0..<length ids]))"
    using distinct_card [OF dg] len by (simp add: card_image)
  with sub have eq: "set (map g xs) = set (map int [0..<length ids])" by (intro card_subset_eq) simp_all
  have "distinct (map g (sort_key g xs))" using dg by (simp add: distinct_map)
  moreover have "set (map g (sort_key g xs)) = set (map int [0..<length ids])" using eq by simp
  ultimately have "map g (sort_key g xs) = map int [0..<length ids]"
    by (intro sorted_distinct_set_unique sorted_sort_key sorted_map_int_upt) (simp_all add: distinct_map)
  then have nth: "g (sort_key g xs ! j) = int j" if "j < length ids" for j
    using that by (metis add_0 diff_zero length_map length_upt nth_map nth_upt)
  show ?thesis
  proof (rule nth_equalityI)
    fix j assume "j < length (map f (sort_key g xs))"
    then have j: "j < length ids" "j < length (sort_key g xs)" using len by simp_all
    then have "sort_key g xs ! j \<in> set xs" using nth_mem [of j "sort_key g xs"] by simp
    from gi [OF this] nth [OF j(1)] j show "map f (sort_key g xs) ! j = ids ! j" by auto
  qed (simp add: len)
qed

lemma rows_distinct: "db_inv d \<Longrightarrow> distinct (map hook_id (hook_rows sid ev d))"
  by (simp add: hook_rows_def db_inv_def hooks_inv_def distinct_map_filter)

lemma row_of_id:
  assumes "db_inv d" "r \<in> set (db_hooks d)" "hook_id r \<in> hook_id ` set (hook_rows sid ev d)"
  shows "r \<in> set (hook_rows sid ev d)"
proof -
  have i: "inj_on hook_id (set (db_hooks d))"
    using assms(1) by (simp add: db_inv_def hooks_inv_def distinct_map)
  from assms(3) obtain q where "q \<in> set (hook_rows sid ev d)" "hook_id q = hook_id r" by auto
  with inj_onD [OF i, of q r] assms(2) show ?thesis by (auto simp: hook_rows_def)
qed

section \<open>Properties\<close>

text \<open>
  C1. Whatever operations are called, in whatever order and with whatever failures of the
  driver, the database keeps its invariant: site, hook and activity ids are unique, positions
  are unique per site and event and never negative (the parked positions of a reordering never
  survive), every hook validates, every hook and event belongs to an existing site, and no site
  has more than 200 activity rows.
\<close>

theorem storage_keeps_invariant: "db_inv (storage_run js cs empty_db)"
  by (rule storage_run_inv [OF db_inv_empty])

text \<open>
  C31. A multi-statement call that returns an error leaves the database unchanged, at whichever
  statement, scan or commit it failed.
\<close>

theorem failed_transactions_change_nothing:
  "(case add_hook flt now (Some h) d of (_, e, d') \<Rightarrow> e \<noteq> None \<longrightarrow> d' = d) \<and>
   (case reorder_hooks flt now sid ev ids d of (e, d') \<Rightarrow> e \<noteq> None \<longrightarrow> d' = d) \<and>
   (case append_activity flt t js (Some evt) d of (_, e, d') \<Rightarrow> e \<noteq> None \<longrightarrow> d' = d) \<and>
   (case trim_activity flt sid n d of (e, d') \<Rightarrow> e \<noteq> None \<longrightarrow> d' = d)"
proof (intro conjI)
  show "case add_hook flt now (Some h) d of (_, e, d') \<Rightarrow> e \<noteq> None \<longrightarrow> d' = d"
    by (clarsimp split: prod.splits) (erule add_hook_cases, auto)
  show "case reorder_hooks flt now sid ev ids d of (e, d') \<Rightarrow> e \<noteq> None \<longrightarrow> d' = d"
    by (clarsimp split: prod.splits) (erule reorder_hooks_cases, auto)
  show "case append_activity flt t js (Some evt) d of (_, e, d') \<Rightarrow> e \<noteq> None \<longrightarrow> d' = d"
    by (clarsimp split: prod.splits) (erule append_activity_cases, auto)
  show "case trim_activity flt sid n d of (e, d') \<Rightarrow> e \<noteq> None \<longrightarrow> d' = d"
    by (auto simp: trim_activity_def split: sum.splits prod.splits)
qed

definition sample_db :: db where
  "sample_db = storage_run (\<lambda>_. True)
     (map (Pair \<lparr>c_faults = no_faults, c_now = ''t0'', c_clock = 0\<rparr>)
       [OpAddSite (empty_site\<lparr>site_id := ''s1''\<rparr>), OpAddHook sample_hook,
        OpAddHook (sample_hook\<lparr>hook_command := ''pwd''\<rparr>), OpAddHook (sample_hook\<lparr>hook_command := ''env''\<rparr>)]) empty_db"

lemma sample_db_inv: "db_inv sample_db"
  unfolding sample_db_def by (rule storage_run_inv [OF db_inv_empty])

lemma sample_db_rows:
  "map hook_id (hook_rows ''s1'' ''pre-start'' sample_db) = [1, 2, 3]"
  by code_simp

abbreviation full_disk :: faults where
  "full_disk \<equiv> \<lambda>l i. if l = ''commit'' \<or> l = ''assign'' \<and> i = 1 then Some ''disk full'' else None"

lemma failed_transactions_change_nothing_witness:
  "fst (reorder_hooks full_disk ''t1'' ''s1'' ''pre-start'' [3, 1, 2] sample_db) \<noteq> None \<and>
   snd (reorder_hooks full_disk ''t1'' ''s1'' ''pre-start'' [3, 1, 2] sample_db) = sample_db"
proof -
  have "fst (reorder_hooks full_disk ''t1'' ''s1'' ''pre-start'' [3, 1, 2] sample_db) \<noteq> None" by code_simp
  with failed_transactions_change_nothing 
      [where flt = full_disk and now = "''t1''" and d = sample_db and sid = "''s1''" and ev = "''pre-start''"
         and ids = "[3, 1, 2]"]
  show ?thesis by (simp add: case_prod_beta)
qed

lemma sort_key_snoc_max:
  "\<forall>y\<in>set xs. f y \<le> f x \<Longrightarrow> sort_key f (xs @ [x]) = sort_key f xs @ [x]"
proof -
  assume le: "\<forall>y\<in>set xs. f y \<le> f x"
  have ins: "insort_key f y (ys @ [x]) = insort_key f y ys @ [x]" if "f y \<le> f x" for y ys
    using that by (induction ys) auto
  from le show ?thesis by (induction xs) (simp_all add: ins)
qed

text \<open>
  A hook that \<open>AddHook\<close> accepts runs after every hook its event already had: the event's
  list is the old list followed by the new hook, and no other list changes.
\<close>

theorem add_hook_runs_last:
  assumes "db_inv d" and "add_hook flt now (Some h) d = (Some h', None, d')"
  shows "list_hooks_by_event no_faults (hook_site_id h) (hook_event h) d' =
      Inr (sort_key hook_position (hook_rows (hook_site_id h) (hook_event h) d) @ [h'])
    \<and> (\<forall>sid ev. (sid, ev) \<noteq> (hook_site_id h, hook_event h) \<longrightarrow> hook_rows sid ev d' = hook_rows sid ev d)
    \<and> hook_command h' = hook_command h \<and> hook_id h' \<notin> hook_id ` set (db_hooks d)"
  using assms(2)
proof (cases rule: add_hook_cases)
  case (2 i g)
  let ?sid = "hook_site_id h" and ?ev = "hook_event h"
  have g: "hook_site_id g = ?sid" "hook_event g = ?ev" "hook_command g = hook_command h"
    "hook_position g = next_position (sql_max_position ?sid ?ev d)" using 2(2) by simp_all
  from 2(4,5) have i: "i = db_next_hook d" and h': "h' = g\<lparr>hook_id := i\<rparr>"
    and d': "db_hooks d' = db_hooks d @ [h']" by (auto simp: sql_insert_hook_def split: if_splits)
  have rows: "hook_rows ?sid ?ev d' = hook_rows ?sid ?ev d @ [h']"
    using g by (simp add: hook_rows_def d' h')
  have "\<forall>y\<in>set (hook_rows ?sid ?ev d). hook_position y \<le> hook_position h'"
    using sql_max_position_upper g(4) by (simp add: h' less_imp_le)
  then have "sort_key hook_position (hook_rows ?sid ?ev d') = sort_key hook_position (hook_rows ?sid ?ev d) @ [h']"
    unfolding rows by (rule sort_key_snoc_max)
  moreover have "\<forall>sid ev. (sid, ev) \<noteq> (?sid, ?ev) \<longrightarrow> hook_rows sid ev d' = hook_rows sid ev d"
    using g by (auto simp: hook_rows_def d' h')
  moreover have "hook_id h' \<notin> hook_id ` set (db_hooks d)"
    using assms(1) by (auto simp: h' i db_inv_def hooks_inv_def)
  ultimately show ?thesis using g(3) by (simp add: list_hooks_by_event_def h')
qed simp

text \<open>A reordering with every id of the list carries out both passes.\<close>

lemma listed_hook:
  assumes "db_inv d" "set ids = hook_id ` set (hook_rows sid ev d)" "r \<in> set (db_hooks d)" "hook_id r \<in> set ids"
  shows "hook_site_id r = sid \<and> hook_event r = ev"
proof -
  have "hook_id r \<in> hook_id ` set (hook_rows sid ev d)" using assms(4) by (simp only: assms(2))
  from row_of_id [OF assms(1,3) this] show ?thesis by (simp add: hook_rows_def)
qed

definition parked :: "int list \<Rightarrow> string \<Rightarrow> db \<Rightarrow> db" where
  "parked ids now = move_hooks (index_map (\<lambda>j. - (int j + 1)) ids (length ids)) (Some now)"

definition assigned :: "int list \<Rightarrow> db \<Rightarrow> db" where
  "assigned ids = move_hooks (index_map int ids (length ids)) None"

lemma parked_negative:
  assumes "distinct ids" "set ids = hook_id ` set (hook_rows sid ev d)" "q \<in> set (hook_rows sid ev (parked ids now d))"
  shows "hook_position q < 0"
proof -
  let ?park = "index_map (\<lambda>j. - (int j + 1)) ids (length ids)"
  obtain q0 where q: "q0 \<in> set (hook_rows sid ev d)" "q = move_hook ?park (Some now) q0"
    using assms(3) by (auto simp: parked_def hook_rows_move)
  then have "hook_id q0 \<in> set ids" using assms(2) by auto
  then obtain j where "j < length ids" "hook_id q0 = ids ! j" by (metis in_set_conv_nth)
  then have "\<exists>p. ?park (hook_id q0) = Some p \<and> p < 0" using index_map_nth [OF assms(1), of "length ids" j] by auto
  with q(2) show ?thesis by (auto simp: hook_position_move)
qed

lemma reorder_hooks_moves:
  assumes inv: "db_inv d" and dist: "distinct ids" and all: "set ids = hook_id ` set (hook_rows sid ev d)" and "ids \<noteq> []"
  shows "reorder_hooks no_faults now sid ev ids d = (None, assigned ids (parked ids now d))"
proof -
  have rd: "distinct (map hook_id (hook_rows sid ev d))" by (rule rows_distinct [OF inv])
  have len: "length (hook_rows sid ev d) = length ids"
    using distinct_card [OF rd] distinct_card [OF dist] all by simp
  have own: "hook_site_id r = sid \<and> hook_event r = ev" if "r \<in> set (db_hooks (parked ids now d))" "hook_id r \<in> set ids" for r
    using that listed_hook [OF inv all] by (auto simp: parked_def move_hooks_def)
  have "park_pass no_faults now 0 ids d = Inr (parked ids now d)"
    using park_pass_move [OF inv dist, where k = 0 and now = now] by (simp add: parked_def)
  moreover have "assign_pass no_faults 0 (drop 0 ids) (move_hooks (index_map int ids 0) None (parked ids now d))
      = Inr (move_hooks (index_map int ids (length ids)) None (parked ids now d))"
    by (rule assign_pass_move [OF dist, where sid = sid and ev = ev]) (use own parked_negative [OF dist all] in simp_all)
  moreover have "foreign_id (remdups (map hook_id (hook_rows sid ev d))) ids = None"
    using all by (simp add: foreign_id_def find_None_iff)
  ultimately show ?thesis
    using assms(4) rd len by (simp add: reorder_hooks_def Let_def distinct_remdups_id assigned_def)
qed

lemma assigned_parked_rows:
  "hook_rows sid ev (assigned ids (parked ids now d)) =
    map (move_hook (index_map int ids (length ids)) None \<circ> move_hook (index_map (\<lambda>j. - (int j + 1)) ids (length ids)) (Some now))
      (hook_rows sid ev d)"
  by (simp add: assigned_def parked_def hook_rows_move)

text \<open>
  C6. Reordering: given every id of the event exactly once, in any order, \<open>ReorderHooks\<close> succeeds,
  the event then runs in that order, and every other list is as before. The two passes never
  trip over the unique constraint.
\<close>

theorem reorder_hooks_orders:
  assumes inv: "db_inv d" and dist: "distinct ids"
    and all: "set ids = hook_id ` set (hook_rows sid ev d)"
  shows "\<exists>d'. reorder_hooks no_faults now sid ev ids d = (None, d')
    \<and> map hook_id (sort_key hook_position (hook_rows sid ev d')) = ids
    \<and> (\<forall>sid' ev'. (sid', ev') \<noteq> (sid, ev) \<longrightarrow> hook_rows sid' ev' d' = hook_rows sid' ev' d)"
proof (cases "ids = []")
  case True
  with all show ?thesis by (simp add: reorder_hooks_def)
next
  case False
  let ?park = "index_map (\<lambda>j. - (int j + 1)) ids (length ids)" and ?asg = "index_map int ids (length ids)"
  let ?d = "assigned ids (parked ids now d)"
  have rd: "distinct (map hook_id (hook_rows sid ev d))" by (rule rows_distinct [OF inv])
  have "map hook_id (sort_key hook_position (hook_rows sid ev ?d)) = ids"
  proof (rule sorted_by_index [OF dist])
    show "distinct (map hook_id (hook_rows sid ev ?d))" using rd by (simp add: assigned_parked_rows comp_def)
    show "length (hook_rows sid ev ?d) = length ids"
      using distinct_card [OF rd] distinct_card [OF dist] all by (simp add: assigned_parked_rows)
    fix x assume "x \<in> set (hook_rows sid ev ?d)"
    then obtain q where q: "q \<in> set (hook_rows sid ev d)" "x = move_hook ?asg None (move_hook ?park (Some now) q)"
      by (auto simp: assigned_parked_rows)
    then have "hook_id q \<in> set ids" using all by auto
    then obtain j where j: "j < length ids" "hook_id q = ids ! j" by (metis in_set_conv_nth)
    then have "?asg (hook_id q) = Some (int j)" using index_map_nth [OF dist, of "length ids" j] by simp
    with j q show "\<exists>j<length ids. hook_id x = ids ! j \<and> hook_position x = int j"
      by (auto simp: hook_position_move)
  qed
  moreover have "hook_rows sid' ev' ?d = hook_rows sid' ev' d" if "(sid', ev') \<noteq> (sid, ev)" for sid' ev'
  proof -
    have "hook_id r \<notin> set ids" if "r \<in> set (hook_rows sid' ev' d)" for r
      using listed_hook [OF inv all, of r] that \<open>(sid', ev') \<noteq> (sid, ev)\<close> by (auto simp: hook_rows_def)
    then have "move_hook ?asg None (move_hook ?park (Some now) r) = r" if "r \<in> set (hook_rows sid' ev' d)" for r
      using that by (simp add: move_hook_def index_map_None)
    then show ?thesis by (simp add: assigned_parked_rows map_idI comp_def)
  qed
  ultimately show ?thesis using reorder_hooks_moves [OF inv dist all False] by blast
qed

lemma add_hook_runs_last_witness:
  "\<exists>h' d'. add_hook no_faults ''t1'' (Some sample_hook) sample_db = (Some h', None, d') \<and>
     list_hooks_by_event no_faults ''s1'' ''pre-start'' d' =
       Inr (sort_key hook_position (hook_rows ''s1'' ''pre-start'' sample_db) @ [h'])"
proof -
  obtain ho e d' where r: "add_hook no_faults ''t1'' (Some sample_hook) sample_db = (ho, e, d')"
    by (metis prod_cases3)
  have "fst (snd (add_hook no_faults ''t1'' (Some sample_hook) sample_db)) = None"
    and "fst (add_hook no_faults ''t1'' (Some sample_hook) sample_db) \<noteq> None" by code_simp+
  with r obtain h' where r': "add_hook no_faults ''t1'' (Some sample_hook) sample_db = (Some h', None, d')" by auto
  from add_hook_runs_last [OF sample_db_inv r'] r' show ?thesis by (auto simp: sample_hook_def)
qed

lemma reorder_hooks_orders_witness:
  "\<exists>d'. reorder_hooks no_faults ''t1'' ''s1'' ''pre-start'' [3, 1, 2] sample_db = (None, d')
    \<and> map hook_id (sort_key hook_position (hook_rows ''s1'' ''pre-start'' d')) = [3, 1, 2]"
proof -
  have "set [3, 1, 2] = hook_id ` set (hook_rows ''s1'' ''pre-start'' sample_db)"
    using arg_cong [OF sample_db_rows, of set] by auto
  from reorder_hooks_orders [OF sample_db_inv _ this, of "''t1''"] show ?thesis by auto
qed

lemma insert_newest_first:
  assumes inv: "db_inv d" and ins: "sql_insert_activity ev d = Inr (i, d1)" and sid: "ev_site_id ev = sid"
    and newest: "\<forall>x\<in>set (newest_first sid d). the (ev_time x) \<le> the (ev_time ev)"
  shows "newest_first sid d1 = ev\<lparr>ev_id := i\<rparr> # newest_first sid d"
proof -
  let ?rows = "filter (\<lambda>x. ev_site_id x = sid) (db_activity d)" and ?ev = "ev\<lparr>ev_id := i\<rparr>"
  from ins have i: "i = db_next_activity d" and d1: "db_activity d1 = db_activity d @ [?ev]"
    by (auto simp: sql_insert_activity_def split: if_splits)
  have "\<forall>y\<in>set ?rows. ev_id y \<le> ev_id ?ev"
    using inv by (auto simp: i db_inv_def activity_inv_def less_imp_le)
  then have "sort_key ev_id (?rows @ [?ev]) = sort_key ev_id ?rows @ [?ev]" by (rule sort_key_snoc_max)
  moreover have "sort_key (\<lambda>x. the (ev_time x)) (sort_key ev_id ?rows @ [?ev])
      = sort_key (\<lambda>x. the (ev_time x)) (sort_key ev_id ?rows) @ [?ev]"
    using newest by (intro sort_key_snoc_max) (auto simp: newest_first_def)
  ultimately show ?thesis using sid by (simp add: newest_first_def d1)
qed

text \<open>
  Recording an event that is not older than the site's others puts it first in the site's
  timeline, keeps the 199 events before it in their order, and leaves the other sites'
  timelines alone; the row stored is the caller's event with a non-negative duration, a time
  and JSON details.
\<close>

theorem append_activity_newest_first:
  assumes inv: "db_inv d" and ok: "append_activity flt now js (Some ev) d = (Some ev', None, d')"
    and newest: "\<forall>x\<in>set (newest_first (ev_site_id ev) d).
        the (ev_time x) \<le> (case ev_time ev of None \<Rightarrow> now | Some t \<Rightarrow> t)"
  shows "newest_first (ev_site_id ev) d' =
      take 200 ((stored_event now ev)\<lparr>ev_id := ev_id ev'\<rparr> # newest_first (ev_site_id ev) d)
    \<and> (\<forall>sid. sid \<noteq> ev_site_id ev \<longrightarrow> newest_first sid d' = newest_first sid d)"
  using ok
proof (cases rule: append_activity_cases)
  case (2 i d1)
  have n1: "newest_first (ev_site_id ev) d1 = (stored_event now ev)\<lparr>ev_id := i\<rparr> # newest_first (ev_site_id ev) d"
    by (rule insert_newest_first [OF inv 2(3)]) (use newest in \<open>simp_all add: stored_event_def\<close>)
  have dist: "distinct (map ev_id (db_activity d1))"
    by (rule sql_insert_activity_inv(2) [OF inv stored_event_ok [OF 2(2)] 2(3)])
  have "newest_first sid d' = newest_first sid d" if "sid \<noteq> ev_site_id ev" for sid
  proof -
    have "filter (\<lambda>x. ev_site_id x = sid) (db_activity d1) = filter (\<lambda>x. ev_site_id x = sid) (db_activity d)"
      using 2(3) that by (auto simp: sql_insert_activity_def split: if_splits)
    then show ?thesis using that by (simp add: newest_first_def 2(4) trim_activity_tx_others)
  qed
  moreover have "ev_id ev' = i" using 2(5) by simp
  ultimately show ?thesis
    using trim_newest_first [OF dist, of "ev_site_id ev" 200] n1
    by (simp add: 2(4) activity_retention_default_def)
qed simp

definition sample_event :: activity_event where
  "sample_event = \<lparr>ev_id = 0, ev_site_id = ''s1'', ev_time = None, ev_plan = ''start-site:blog'',
     ev_kind = ''start'', ev_status = ''succeeded'', ev_duration_ms = - 5, ev_message = [], ev_details = []\<rparr>"

lemma append_activity_newest_first_witness:
  "\<exists>ev' d'. append_activity no_faults 7 (\<lambda>_. True) (Some sample_event) sample_db = (Some ev', None, d') \<and>
     newest_first ''s1'' d' = [(stored_event 7 sample_event)\<lparr>ev_id := ev_id ev'\<rparr>]"
proof -
  obtain evo e d' where r: "append_activity no_faults 7 (\<lambda>_. True) (Some sample_event) sample_db = (evo, e, d')"
    by (metis prod_cases3)
  have "fst (snd (append_activity no_faults 7 (\<lambda>_. True) (Some sample_event) sample_db)) = None"
    and "fst (append_activity no_faults 7 (\<lambda>_. True) (Some sample_event) sample_db) \<noteq> None"
    and none: "newest_first ''s1'' sample_db = []" by code_simp+
  with r obtain ev' where r': "append_activity no_faults 7 (\<lambda>_. True) (Some sample_event) sample_db = (Some ev', None, d')"
    by auto
  from append_activity_newest_first [OF sample_db_inv r'] none r' show ?thesis
    by (auto simp: sample_event_def)
qed

text \<open>
  Deleting a site removes it with all its hooks and its timeline, and nothing else: every
  other site, its hooks, their order and its timeline are as before.
\<close>

theorem delete_site_cascades:
  assumes "delete_site flt sid d = (None, d')"
  shows "get_site no_faults sid d' = Inr None \<and> list_hooks no_faults sid d' = Inr []
    \<and> newest_first sid d' = []
    \<and> (\<forall>s. s \<noteq> sid \<longrightarrow> get_site no_faults s d' = get_site no_faults s d
         \<and> list_hooks no_faults s d' = list_hooks no_faults s d \<and> newest_first s d' = newest_first s d)"
proof -
  have d': "d' = sql_delete_site sid d"
    using assms by (auto simp: delete_site_def split: sum.splits dest: exec_Inr)
  have f: "find (\<lambda>s. site_id s = x) (filter (\<lambda>s. site_id s \<noteq> sid) ss)
      = (if x = sid then None else find (\<lambda>s. site_id s = x) ss)" for x and ss :: "site list"
    by (induction ss) auto
  have g: "filter (\<lambda>y. k y = x) (filter (\<lambda>y. k y \<noteq> sid) ys) = (if x = sid then [] else filter (\<lambda>y. k y = x) ys)"
    for x and k :: "'b \<Rightarrow> string" and ys
    by (induction ys) auto
  show ?thesis
    by (simp add: d' sql_delete_site_def get_site_def list_hooks_def newest_first_def f g del: filter_filter)
qed

lemma delete_site_cascades_witness:
  "snd (delete_site no_faults ''s1'' sample_db) \<noteq> sample_db \<and>
   list_hooks no_faults ''s1'' (snd (delete_site no_faults ''s1'' sample_db)) = Inr []"
proof -
  have "fst (delete_site no_faults ''s1'' sample_db) = None" by code_simp
  then have r: "delete_site no_faults ''s1'' sample_db = (None, snd (delete_site no_faults ''s1'' sample_db))"
    by (metis prod.collapse)
  have "list_hooks no_faults ''s1'' sample_db \<noteq> Inr []" by code_simp
  then show ?thesis using delete_site_cascades [OF r] by metis
qed









end
