(* ===== verification/Activity.thy ===== *)
theory Activity
  imports Go_Text Orch Storage Secrets
begin

text \<open>
  The activity recorder of \<^verbatim>\<open>internal/sites/activity.go\<close>: it turns the result of a plan into one row of
  the timeline (kind, status, message, JSON details) and appends it. It joins the orchestrator,
  the storage and the redaction registry: every error text is scrubbed before it is shortened
  and stored. Marshalling a struct of strings and integers does not fail, so \<^verbatim>\<open>buildActivityDetails\<close>
  has no error branch here.
\<close>

section \<open>Classification\<close>

fun status_string :: "status \<Rightarrow> string" where
  "status_string StatusPending = ''pending''"
| "status_string StatusRunning = ''running''"
| "status_string StatusSucceeded = ''succeeded''"
| "status_string StatusFailed = ''failed''"
| "status_string StatusRolledBack = ''rolled-back''"
| "status_string StatusSkipped = ''skipped''"

definition trim_suffix :: "string \<Rightarrow> string \<Rightarrow> string" where
  "trim_suffix suf s = (if suffix suf s then take (length s - length suf) s else s)"

definition classify_activity_kind :: "string \<Rightarrow> string" where
  "classify_activity_kind plan =
     (let p = trim_suffix ''-site'' (takeWhile (\<lambda>c. c \<noteq> CHR '':'') plan)
      in if p \<in> set [''start'', ''stop'', ''delete'', ''clone'', ''versions'', ''multisite'', ''export'',
                    ''import-db'', ''snapshot'', ''restore-snapshot''] then p else ''other'')"

definition classify_activity_status :: "run_result \<Rightarrow> string" where
  "classify_activity_status r =
     (if res_rolled_back r then ''rolled-back''
      else if res_final_error r \<noteq> None then ''failed'' else ''succeeded'')"

section \<open>The message\<close>

definition middle_dot :: string where "middle_dot = map char_of [194, 183 :: nat]"

definition render_succeeded_message :: "string \<Rightarrow> site option \<Rightarrow> string" where
  "render_succeeded_message kind so =
     (if kind = ''start'' then
        (case so of
           Some s \<Rightarrow> if site_php_version s \<noteq> [] then ''Started '' @ middle_dot @ '' php '' @ site_php_version s
                     else ''Started''
         | None \<Rightarrow> ''Started'')
      else if kind = ''stop'' then ''Stopped'' else if kind = ''delete'' then ''Deleted''
      else if kind = ''clone'' then ''Cloned'' else if kind = ''versions'' then ''Updated versions''
      else if kind = ''multisite'' then ''Updated multisite configuration''
      else if kind = ''export'' then ''Exported'' else if kind = ''import-db'' then ''Imported database''
      else if kind = ''snapshot'' then ''Created snapshot''
      else if kind = ''restore-snapshot'' then ''Restored snapshot'' else kind)"

definition verb_for_kind :: "string \<Rightarrow> string" where
  "verb_for_kind kind =
     (if kind = ''start'' then ''Start'' else if kind = ''stop'' then ''Stop''
      else if kind = ''delete'' then ''Delete'' else if kind = ''clone'' then ''Clone''
      else if kind = ''versions'' then ''Version change'' else if kind = ''multisite'' then ''Multisite change''
      else if kind = ''export'' then ''Export'' else if kind = ''import-db'' then ''Database import''
      else if kind = ''snapshot'' then ''Snapshot'' else if kind = ''restore-snapshot'' then ''Restore''
      else ''Plan'')"

fun first_failed_step_name :: "step_result list \<Rightarrow> string" where
  "first_failed_step_name [] = []"
| "first_failed_step_name (s # ss) = (if sr_status s = StatusFailed then sr_name s else first_failed_step_name ss)"

definition render_failed_message :: "string \<Rightarrow> string \<Rightarrow> run_result \<Rightarrow> string" where
  "render_failed_message kind st r =
     (let verb = verb_for_kind kind;
          suf = (if st = ''rolled-back'' then ''rolled back'' else ''failed'');
          step = first_failed_step_name (res_steps r)
      in if step \<noteq> [] then verb @ '' '' @ suf @ '' at '' @ step
         else case res_final_error r of
           Some e \<Rightarrow> verb @ '' '' @ suf @ '': '' @ e
         | None \<Rightarrow> verb @ '' '' @ suf)"

definition activity_message_max_bytes :: int where "activity_message_max_bytes = 200"
definition activity_error_max_bytes :: int where "activity_error_max_bytes = 1024"

text \<open>\<open>scrub\<close> is \<^verbatim>\<open>secrets.RedactString\<close> on the registry of the process.\<close>

definition render_activity_message ::
  "(string \<Rightarrow> string) \<Rightarrow> string \<Rightarrow> string \<Rightarrow> site option \<Rightarrow> run_result \<Rightarrow> string" where
  "render_activity_message scrub kind st so r =
     (let msg = (if st = ''succeeded'' then render_succeeded_message kind so
                 else if st = ''failed'' \<or> st = ''rolled-back'' then render_failed_message kind st r
                 else kind)
      in truncate_runes (scrub msg) activity_message_max_bytes)"

section \<open>The details\<close>

text \<open>\<^verbatim>\<open>Duration.Milliseconds\<close> truncates towards zero.\<close>

definition milliseconds :: "duration \<Rightarrow> int" where
  "milliseconds d = (if d < 0 then - ((- d) div millisecond) else d div millisecond)"

definition step_detail :: "(string \<Rightarrow> string) \<Rightarrow> step_result \<Rightarrow> json" where
  "step_detail scrub s =
     JObj ([(''name'', JStr (sr_name s)), (''status'', JStr (status_string (sr_status s))),
            (''duration_ms'', JNum (milliseconds (sr_duration s)))] @
           (case sr_error s of None \<Rightarrow> []
            | Some e \<Rightarrow> (let t = truncate_runes (scrub e) activity_error_max_bytes
                         in if t = [] then [] else [(''error'', JStr t)])))"

definition build_activity_details :: "(string \<Rightarrow> string) \<Rightarrow> run_result \<Rightarrow> json" where
  "build_activity_details scrub r =
     JObj ((if res_steps r = [] then [] else [(''steps'', JArr (map (step_detail scrub) (res_steps r)))]) @
           (case res_final_error r of None \<Rightarrow> []
            | Some e \<Rightarrow> (let t = truncate_runes (scrub e) activity_error_max_bytes
                         in if t = [] then [] else [(''error'', JStr t)])))"

section \<open>Recording\<close>

text \<open>The zero \<^verbatim>\<open>time.Time\<close>, year 1, in nanoseconds since 1970.\<close>

definition activity_row :: "(string \<Rightarrow> string) \<Rightarrow> gtime \<Rightarrow> site \<Rightarrow> string \<Rightarrow> run_result \<Rightarrow> activity_event" where
  "activity_row scrub now s plan r =
     (let kind = classify_activity_kind plan; st = classify_activity_status r;
          t = (if res_started r \<noteq> zero_time then res_started r + res_duration r else now)
      in \<lparr>ev_id = 0, ev_site_id = site_id s, ev_time = (if t = zero_time then None else Some t), ev_plan = plan,
          ev_kind = kind, ev_status = st, ev_duration_ms = milliseconds (res_duration r),
          ev_message = render_activity_message scrub kind st (Some s) r,
          ev_details = json_text (build_activity_details scrub r)\<rparr>)"

text \<open>
  The returned event is what \<^verbatim>\<open>OnActivityAppended\<close> is called with; a failed append is logged and
  swallowed.
\<close>

definition record_activity ::
  "faults \<Rightarrow> gtime \<Rightarrow> (string \<Rightarrow> bool) \<Rightarrow> (string \<Rightarrow> string) \<Rightarrow> site option \<Rightarrow> string \<Rightarrow> run_result \<Rightarrow> db
    \<Rightarrow> activity_event option \<times> db" where
  "record_activity flt now json_valid scrub so plan r d =
     (case so of None \<Rightarrow> (None, d)
      | Some s \<Rightarrow>
          (case append_activity flt now json_valid (Some (activity_row scrub now s plan r)) d of
             (ev, None, d') \<Rightarrow> (ev, d')
           | (_, Some _, d') \<Rightarrow> (None, d')))"

section \<open>Lemmas\<close>

lemma classify_kind_valid: "activity_kind_valid (classify_activity_kind plan)"
  by (simp add: activity_kind_valid_def activity_kinds_def classify_activity_kind_def Let_def del: set_simps)
    (auto simp: activity_kind_valid_def activity_kinds_def)

lemma classify_status_valid: "activity_status_valid (classify_activity_status r)"
  by (simp add: activity_status_valid_def activity_statuses_def classify_activity_status_def)

lemma activity_row_ok: "site_id s \<noteq> [] \<Longrightarrow> check_activity (activity_row scrub now s plan r) = None"
  by (simp add: check_activity_None activity_row_def Let_def classify_kind_valid classify_status_valid)

section \<open>Shortened text of a redactor\<close>

definition ascii_text :: "string \<Rightarrow> bool" where "ascii_text s \<longleftrightarrow> (\<forall>c\<in>set s. byte c < 128)"

lemma contains_prefix: "contains (take n s) v \<Longrightarrow> contains s v"
  using contains_appendI1 [of "take n s" v "drop n s"] by simp

lemma contains_append_foreign:
  assumes "contains (s @ t) v" "v \<noteq> []" "set v \<inter> set t = {}"
  shows "contains s v"
proof -
  from assms(1) obtain u w where "s @ t = (u @ v) @ w" by (auto simp: contains_decomp)
  then have "prefix (u @ v) (s @ t)" by (rule prefixI)
  then consider "prefix (u @ v) s" | x where "u @ v = s @ x" "prefix x t" by (auto simp: prefix_append)
  then show ?thesis
  proof cases
    case 1
    then show ?thesis by (auto simp: prefix_def contains_decomp)
  next
    case 2
    show ?thesis
    proof (cases "x = []")
      case True
      with 2 show ?thesis using contains_mid [of u v "[]"] by simp
    next
      case False
      then have "last v = last x" using 2(1) assms(2) by (metis last_appendR)
      moreover have "last x \<in> set t" using False 2(2) by (metis last_in_set set_mono_prefix subsetD)
      moreover have "last v \<in> set v" using assms(2) by simp
      ultimately show ?thesis using assms(3) by auto
    qed
  qed
qed

lemma truncate_keeps_clean:
  assumes "\<not> contains s v" "v \<noteq> []" "ascii_text v"
  shows "\<not> contains (truncate_runes s n) v"
proof -
  have "byte c \<ge> 128" if "c \<in> set text_ellipsis" for c using that by (auto simp: text_ellipsis_def)
  then have e: "set v \<inter> set text_ellipsis = {}" using assms(3) by (fastforce simp: ascii_text_def)
  have p: "\<not> contains (take k s) v" for k using contains_prefix assms(1) by blast
  have "\<not> contains (take k s @ text_ellipsis) v" for k
    using contains_append_foreign [OF _ assms(2) e] p by blast
  then show ?thesis using assms(1) p unfolding truncate_runes_def by (simp split: if_split)
qed

context redactor
begin

lemma shortened_clean:
  "ready r \<Longrightarrow> v \<in> secrets r \<Longrightarrow> v \<noteq> [] \<Longrightarrow> ascii_text v \<Longrightarrow> \<not> contains (truncate_runes (scrub r s) n) v"
  by (rule truncate_keeps_clean) (simp_all add: scrub_clean)

end

section \<open>Properties\<close>

text \<open>
  Shortening is safe for text: the result never exceeds the budget, and from valid UTF-8 it
  is either the text itself or a valid prefix of it followed by an ellipsis, whenever the budget
  leaves room for one.
\<close>

theorem truncate_runes_valid:
  assumes "utf8_valid s" and "3 < n"
  shows "int (length (truncate_runes s n)) \<le> n \<and> utf8_valid (truncate_runes s n)
    \<and> (truncate_runes s n = s \<or> (\<exists>p. prefix p s \<and> truncate_runes s n = p @ text_ellipsis))"
proof -
  obtain k where "trunc_end (nat n - 3) 0 s 0 = k" "utf8_valid (take k s)"
    using trunc_end_valid [OF assms(1) refl, of "nat n - 3" 0] by auto
  moreover have "utf8_valid text_ellipsis" by code_simp
  ultimately show ?thesis
    using assms truncate_runes_length [of n s]
    by (auto simp: truncate_runes_def take_is_prefix utf8_valid_append)
qed

lemma truncate_runes_valid_witness:
  "utf8_valid (truncate_runes (map char_of [195, 169, 195, 169, 195, 169 :: nat]) 5) \<and>
   truncate_runes (map char_of [195, 169, 195, 169, 195, 169 :: nat]) 5 = map char_of [195, 169 :: nat] @ text_ellipsis"
proof -
  have "utf8_valid (map char_of [195, 169, 195, 169, 195, 169 :: nat])" by code_simp
  moreover have "truncate_runes (map char_of [195, 169, 195, 169, 195, 169 :: nat]) 5
      = map char_of [195, 169 :: nat] @ text_ellipsis" by code_simp
  ultimately show ?thesis
    using truncate_runes_valid [of "map char_of [195, 169, 195, 169, 195, 169 :: nat]" 5] by linarith
qed

text \<open>
  With a budget of at most three bytes the function does split a rune, although its comment
  says it never does: the loop stops behind the first byte of a rune, not before it.
\<close>

theorem truncate_runes_splits_small:
  "utf8_valid (map char_of [195, 169, 195, 169 :: nat]) \<and>
   \<not> utf8_valid (truncate_runes (map char_of [195, 169, 195, 169 :: nat]) 3)"
  by code_simp

text \<open>
  No secret reaches the timeline: with the process's registry ready, neither the message of
  a row nor any error text put into its details contains a registered ASCII secret, although
  both are cut to a length after redaction.
\<close>

theorem activity_text_holds_no_secret:
  assumes "reg_ready iter r" and "v \<in> reg_values r" and "ascii_text v"
  shows "\<not> contains (render_activity_message (redact_string iter r) kind st so res) v
    \<and> \<not> contains (truncate_runes (redact_string iter r e) activity_error_max_bytes) v"
proof -
  have "v \<noteq> []" using assms by (auto simp: reg_ready_def plain_secret_def min_secret_len_def)
  note clean = reg.shortened_clean [OF assms(1,2) this assms(3)]
  show ?thesis unfolding render_activity_message_def Let_def by (intro conjI clean)
qed

lemma activity_text_holds_no_secret_witness:
  "\<not> contains (render_activity_message (redact_string sorted_list_of_set \<lparr>reg_values = {''hunter2hunter2''}\<rparr>)
      ''start'' ''failed'' None \<lparr>res_plan_name = [], res_started = 0, res_duration = 0, res_steps = [],
        res_rolled_back = False, res_final_error = Some ''bad password hunter2hunter2''\<rparr>) ''hunter2hunter2''"
proof -
  have "reg_ready sorted_list_of_set \<lparr>reg_values = {''hunter2hunter2''}\<rparr>"
    by (simp add: reg_ready_def iterates_sorted plain_secret_def min_secret_len_def)
  from activity_text_holds_no_secret [OF this] show ?thesis by (simp add: ascii_text_def)
qed

text \<open>
  A plan outcome is always recordable: for a site that exists, whatever the plan is called
  and however it ended, the row passes every check of the storage, and without a driver failure
  it is appended, with a message of at most 200 bytes and the status that says whether work was
  rolled back. \<open>json_valid\<close> accepts what \<open>json_text\<close> writes.
\<close>

theorem record_activity_appends:
  assumes "site_id s \<noteq> []" and "site_id s \<in> site_id ` set (db_sites d)"
    and "\<And>j. js (json_text j)"
  shows "\<exists>ev d'. record_activity no_faults now js scrub (Some s) plan r d = (Some ev, d')
    \<and> int (length (ev_message ev)) \<le> 200 \<and> ev_site_id ev = site_id s
    \<and> (ev_status ev = ''succeeded'' \<longleftrightarrow> \<not> res_rolled_back r \<and> res_final_error r = None)"
proof -
  let ?row = "activity_row scrub now s plan r"
  have det: "js (ev_details ?row)" "ev_details ?row \<noteq> []"
    using assms(3) by (simp_all add: activity_row_def Let_def json_text_nonempty)
  obtain i d1 where ins: "sql_insert_activity (stored_event now ?row) d = Inr (i, d1)"
    using assms(2) by (simp add: sql_insert_activity_def stored_event_def activity_row_def Let_def)
  then have ins': "sql_insert_activity ((fill_activity now ?row)\<lparr>ev_details := activity_details (fill_activity now ?row)\<rparr>) d
      = Inr (i, d1)" by (simp only: fill_activity_stored)
  have "append_activity no_faults now js (Some ?row) d =
      (Some ((fill_activity now ?row)\<lparr>ev_id := i\<rparr>), None,
       trim_activity_tx (site_id s) activity_retention_default d1)"
    using det ins' activity_row_ok [OF assms(1), of scrub now plan r]
    by (simp add: append_activity_def append_activity_tx_def Let_def)
      (simp add: activity_row_def Let_def)
  moreover have "int (length (ev_message ?row)) \<le> 200"
    using truncate_runes_length [of 200]
    by (simp add: activity_row_def Let_def render_activity_message_def activity_message_max_bytes_def)
  ultimately show ?thesis
    by (auto simp: record_activity_def fill_activity_def Let_def activity_row_def classify_activity_status_def)
qed

lemma record_activity_appends_witness:
  "\<exists>ev d'. record_activity no_faults 5 (\<lambda>_. True) (\<lambda>x. x) (Some (empty_site\<lparr>site_id := ''s1''\<rparr>)) ''start-site:blog''
      \<lparr>res_plan_name = ''start-site:blog'', res_started = 0, res_duration = 7, res_steps = [],
        res_rolled_back = True, res_final_error = Some ''x''\<rparr> sample_db = (Some ev, d')
    \<and> ev_status ev \<noteq> ''succeeded''"
proof -
  have "site_id (empty_site\<lparr>site_id := ''s1''\<rparr>) \<in> site_id ` set (db_sites sample_db)" by code_simp
  from record_activity_appends [OF _ this, of "\<lambda>_. True" 5 "\<lambda>x. x" "''start-site:blog''"
      "\<lparr>res_plan_name = ''start-site:blog'', res_started = 0, res_duration = 7, res_steps = [],
        res_rolled_back = True, res_final_error = Some ''x''\<rparr>"]
  show ?thesis by auto
qed

end
