(* ===== verification/Config.thy ===== *)
theory Config
  imports Storage Go_Net
begin

text \<open>
  The typed settings facade of \<^verbatim>\<open>internal/config\<close> (\<^verbatim>\<open>config.go\<close>, \<^verbatim>\<open>keys.go\<close>): an in-memory cache over
  the key/value settings of the storage. The \<^verbatim>\<open>Store\<close> interface is the record \<open>store_api\<close>; what it
  promises is the locale \<open>settings_store\<close>, interpreted on the storage's settings at the end. A
  call of the store can fail, and a \<open>'c\<close> value carries that call's circumstances. The lock
  makes each operation atomic, so operations are functions of the cache and the store.
\<close>

section \<open>Keys, defaults, allowed values\<close>

datatype setting_key =
    Key_theme_mode | Key_default_php_version | Key_default_db_engine | Key_default_db_version
  | Key_default_redis_version | Key_default_web_server | Key_default_publish_db_port | Key_router_http_port
  | Key_router_https_port | Key_mkcert_path | Key_performance_mode | Key_update_check_enabled
  | Key_update_check_channel | Key_health_enabled | Key_health_cadence_minutes | Key_health_disk_cadence_minutes
  | Key_health_disk_warn_gb | Key_health_disk_blocker_gb | Key_health_last_seen | Key_auto_snapshot
  | Key_debug_logging | Key_update_dismissed_version | Key_update_last_available | Key_lan_default
  | Key_lan_domain | Key_lan_ip_override

fun key_string :: "setting_key \<Rightarrow> string" where
  "key_string Key_theme_mode = ''theme_mode''"
| "key_string Key_default_php_version = ''defaults.php_version''"
| "key_string Key_default_db_engine = ''defaults.db_engine''"
| "key_string Key_default_db_version = ''defaults.db_version''"
| "key_string Key_default_redis_version = ''defaults.redis_version''"
| "key_string Key_default_web_server = ''defaults.web_server''"
| "key_string Key_default_publish_db_port = ''defaults.publish_db_port''"
| "key_string Key_router_http_port = ''router.http_port''"
| "key_string Key_router_https_port = ''router.https_port''"
| "key_string Key_mkcert_path = ''mkcert.path''"
| "key_string Key_performance_mode = ''performance.mode''"
| "key_string Key_update_check_enabled = ''update_check.enabled''"
| "key_string Key_update_check_channel = ''update_check.channel''"
| "key_string Key_health_enabled = ''health.enabled''"
| "key_string Key_health_cadence_minutes = ''health.cadence_minutes''"
| "key_string Key_health_disk_cadence_minutes = ''health.disk_check_cadence_minutes''"
| "key_string Key_health_disk_warn_gb = ''health.disk_warn_gb''"
| "key_string Key_health_disk_blocker_gb = ''health.disk_blocker_gb''"
| "key_string Key_health_last_seen = ''health.last_seen''"
| "key_string Key_auto_snapshot = ''snapshots.auto_before_destructive''"
| "key_string Key_debug_logging = ''diagnostics.debug_logging''"
| "key_string Key_update_dismissed_version = ''update_check.dismissed_version''"
| "key_string Key_update_last_available = ''update_check.last_available''"
| "key_string Key_lan_default = ''lan.default_enabled''"
| "key_string Key_lan_domain = ''lan.domain''"
| "key_string Key_lan_ip_override = ''lan.ip_override''"

definition all_keys :: "setting_key list" where
  "all_keys =
     [Key_theme_mode, Key_default_php_version, Key_default_db_engine, Key_default_db_version,
      Key_default_redis_version, Key_default_web_server, Key_default_publish_db_port, Key_router_http_port,
      Key_router_https_port, Key_mkcert_path, Key_performance_mode, Key_update_check_enabled,
      Key_update_check_channel, Key_health_enabled, Key_health_cadence_minutes, Key_health_disk_cadence_minutes,
      Key_health_disk_warn_gb, Key_health_disk_blocker_gb, Key_health_last_seen, Key_auto_snapshot,
      Key_debug_logging, Key_update_dismissed_version, Key_update_last_available, Key_lan_default,
      Key_lan_domain, Key_lan_ip_override]"

definition default_php_version :: string where "default_php_version = ''8.3''"
definition default_db_engine :: string where "default_db_engine = ''mysql''"
definition default_redis_version :: string where "default_redis_version = ''7''"
definition default_web_server :: string where "default_web_server = ''nginx''"
definition default_router_http :: int where "default_router_http = 80"
definition default_router_https :: int where "default_router_https = 443"
definition default_performance :: string where "default_performance = ''auto''"
definition default_update_channel :: string where "default_update_channel = ''stable''"
definition default_health_cadence_minutes :: int where "default_health_cadence_minutes = 5"
definition default_health_disk_cadence_minutes :: int where "default_health_disk_cadence_minutes = 15"
definition default_health_disk_warn_gb :: int where "default_health_disk_warn_gb = 5"
definition default_health_disk_blocker_gb :: int where "default_health_disk_blocker_gb = 1"
definition default_lan_domain :: string where "default_lan_domain = ''sslip.io''"

lemmas config_defaults = default_php_version_def default_db_engine_def default_redis_version_def
  default_web_server_def default_router_http_def default_router_https_def default_performance_def
  default_update_channel_def default_health_cadence_minutes_def default_health_disk_cadence_minutes_def
  default_health_disk_warn_gb_def default_health_disk_blocker_gb_def default_lan_domain_def

definition allowed_db_engines :: "string list" where "allowed_db_engines = [''mysql'', ''mariadb'']"
definition allowed_web_servers :: "string list" where "allowed_web_servers = [''nginx'', ''apache'']"
definition allowed_theme_modes :: "string list" where "allowed_theme_modes = [''system'', ''dark'', ''light'']"
definition allowed_performance :: "string list" where "allowed_performance = [''auto'', ''bind'', ''mutagen'']"
definition allowed_update_channels :: "string list" where "allowed_update_channels = [''stable'', ''beta'']"

lemmas allowed_defs = allowed_db_engines_def allowed_web_servers_def allowed_theme_modes_def
  allowed_performance_def allowed_update_channels_def

section \<open>Helpers\<close>

definition valid_enum :: "string \<Rightarrow> string list \<Rightarrow> bool" where
  "valid_enum v allowed \<longleftrightarrow> v \<in> set allowed"

definition config_parse_bool :: "string \<Rightarrow> bool \<Rightarrow> bool" where
  "config_parse_bool v dflt =
     (let t = to_lower (trim_space v)
      in if t \<in> {''1'', ''true'', ''yes'', ''on''} then True
         else if t \<in> {''0'', ''false'', ''no'', ''off''} then False
         else dflt)"

definition format_bool :: "bool \<Rightarrow> string" where
  "format_bool b = (if b then ''true'' else ''false'')"

definition parse_int :: "string \<Rightarrow> int \<Rightarrow> int" where
  "parse_int v dflt =
     (if v = [] then dflt
      else case atoi v of None \<Rightarrow> dflt | Some n \<Rightarrow> if n < 0 then dflt else n)"

definition validate_port :: "int \<Rightarrow> bool" where
  "validate_port p \<longleftrightarrow> 0 < p \<and> p \<le> 65535"

section \<open>The store and the cache\<close>

record ('c, 's) store_api =
  api_get :: "'c \<Rightarrow> string \<Rightarrow> 's \<Rightarrow> go_error + string"
  api_put :: "'c \<Rightarrow> string \<Rightarrow> string \<Rightarrow> 's \<Rightarrow> go_error option \<times> 's"

type_synonym cache = "string \<rightharpoonup> string"

datatype config_error = NilStore | ReloadFailed string go_error | PersistFailed string go_error
  | InvalidSetting setting_key string

fun reload_loop :: "('c, 's) store_api \<Rightarrow> (string \<Rightarrow> 'c) \<Rightarrow> setting_key list \<Rightarrow> cache \<Rightarrow> 's \<Rightarrow> config_error + cache" where
  "reload_loop api cs [] fresh s = Inr fresh"
| "reload_loop api cs (k # ks) fresh s =
     (case api_get api (cs (key_string k)) (key_string k) s of
        Inl e \<Rightarrow> Inl (ReloadFailed (key_string k) e)
      | Inr v \<Rightarrow> reload_loop api cs ks (fresh(key_string k \<mapsto> v)) s)"

text \<open>\<^verbatim>\<open>Reload\<close> replaces the cache, or leaves it alone and returns the error.\<close>

definition config_reload ::
  "('c, 's) store_api \<Rightarrow> (string \<Rightarrow> 'c) \<Rightarrow> cache \<Rightarrow> 's \<Rightarrow> config_error option \<times> cache" where
  "config_reload api cs m s =
     (case reload_loop api cs all_keys Map.empty s of Inl e \<Rightarrow> (Some e, m) | Inr fresh \<Rightarrow> (None, fresh))"

definition config_new ::
  "('c, 's) store_api option \<Rightarrow> (string \<Rightarrow> 'c) \<Rightarrow> 's \<Rightarrow> config_error + cache" where
  "config_new apio cs s =
     (case apio of None \<Rightarrow> Inl NilStore
      | Some api \<Rightarrow> (case config_reload api cs Map.empty s of (Some e, _) \<Rightarrow> Inl e | (None, m) \<Rightarrow> Inr m))"

definition raw :: "cache \<Rightarrow> setting_key \<Rightarrow> string" where
  "raw m k = (case m (key_string k) of None \<Rightarrow> [] | Some v \<Rightarrow> v)"

definition config_set ::
  "('c, 's) store_api \<Rightarrow> 'c \<Rightarrow> string \<Rightarrow> string \<Rightarrow> cache \<times> 's \<Rightarrow> config_error option \<times> cache \<times> 's" where
  "config_set api c k v = (\<lambda>(m, s).
     (case api_put api c k v s of
        (Some e, s') \<Rightarrow> (Some (PersistFailed k e), m, s')
      | (None, s') \<Rightarrow> (None, m(k \<mapsto> v), s')))"

section \<open>Accessors\<close>

definition theme_mode :: "cache \<Rightarrow> string" where
  "theme_mode m = (let v = raw m Key_theme_mode in if v \<noteq> [] then v else ''system'')"

definition php_version_default :: "cache \<Rightarrow> string" where
  "php_version_default m = (let v = raw m Key_default_php_version in if v \<noteq> [] then v else default_php_version)"

definition db_engine_default :: "cache \<Rightarrow> string" where
  "db_engine_default m =
     (let v = raw m Key_default_db_engine in if valid_enum v allowed_db_engines then v else default_db_engine)"

definition db_version_default :: "cache \<Rightarrow> string" where
  "db_version_default m = raw m Key_default_db_version"

definition redis_version_default :: "cache \<Rightarrow> string" where
  "redis_version_default m =
     (let v = raw m Key_default_redis_version in if v \<noteq> [] then v else default_redis_version)"

definition web_server_default :: "cache \<Rightarrow> string" where
  "web_server_default m =
     (let v = raw m Key_default_web_server in if valid_enum v allowed_web_servers then v else default_web_server)"

definition mkcert_path :: "cache \<Rightarrow> string" where "mkcert_path m = raw m Key_mkcert_path"

definition performance_mode :: "cache \<Rightarrow> string" where
  "performance_mode m =
     (let v = raw m Key_performance_mode in if valid_enum v allowed_performance then v else default_performance)"

definition update_check_channel :: "cache \<Rightarrow> string" where
  "update_check_channel m =
     (let v = raw m Key_update_check_channel
      in if valid_enum v allowed_update_channels then v else default_update_channel)"

definition publish_db_port_default :: "cache \<Rightarrow> bool" where
  "publish_db_port_default m = config_parse_bool (raw m Key_default_publish_db_port) False"

definition update_check_enabled :: "cache \<Rightarrow> bool" where
  "update_check_enabled m = config_parse_bool (raw m Key_update_check_enabled) True"

definition auto_snapshot_before_destructive :: "cache \<Rightarrow> bool" where
  "auto_snapshot_before_destructive m = config_parse_bool (raw m Key_auto_snapshot) True"

definition router_http_port :: "cache \<Rightarrow> int" where
  "router_http_port m = parse_int (raw m Key_router_http_port) default_router_http"

definition router_https_port :: "cache \<Rightarrow> int" where
  "router_https_port m = parse_int (raw m Key_router_https_port) default_router_https"

definition health_enabled :: "cache \<Rightarrow> bool" where
  "health_enabled m = config_parse_bool (raw m Key_health_enabled) True"

definition health_cadence_minutes :: "cache \<Rightarrow> int" where
  "health_cadence_minutes m = parse_int (raw m Key_health_cadence_minutes) default_health_cadence_minutes"

definition health_disk_cadence_minutes :: "cache \<Rightarrow> int" where
  "health_disk_cadence_minutes m =
     parse_int (raw m Key_health_disk_cadence_minutes) default_health_disk_cadence_minutes"

definition health_disk_warn_gb :: "cache \<Rightarrow> int" where
  "health_disk_warn_gb m = parse_int (raw m Key_health_disk_warn_gb) default_health_disk_warn_gb"

definition health_disk_blocker_gb :: "cache \<Rightarrow> int" where
  "health_disk_blocker_gb m = parse_int (raw m Key_health_disk_blocker_gb) default_health_disk_blocker_gb"

definition debug_logging :: "cache \<Rightarrow> bool" where
  "debug_logging m = config_parse_bool (raw m Key_debug_logging) False"

definition update_dismissed_version :: "cache \<Rightarrow> string" where
  "update_dismissed_version m = raw m Key_update_dismissed_version"

definition update_last_available :: "cache \<Rightarrow> string" where
  "update_last_available m = raw m Key_update_last_available"

definition lan_default :: "cache \<Rightarrow> bool" where
  "lan_default m = config_parse_bool (raw m Key_lan_default) False"

definition lan_domain :: "cache \<Rightarrow> string" where
  "lan_domain m = (let v = trim_space (raw m Key_lan_domain) in if v \<noteq> [] then v else default_lan_domain)"

definition lan_ip_override :: "cache \<Rightarrow> ip option" where
  "lan_ip_override m =
     (let v = trim_space (raw m Key_lan_ip_override)
      in if v = [] then None
         else case parse_ip v of None \<Rightarrow> None | Some ip \<Rightarrow> to4 ip)"

definition health_last_seen :: "cache \<Rightarrow> string" where "health_last_seen m = raw m Key_health_last_seen"

section \<open>Setters\<close>

type_synonym ('c, 's) setter =
  "('c, 's) store_api \<Rightarrow> 'c \<Rightarrow> cache \<times> 's \<Rightarrow> config_error option \<times> cache \<times> 's"

definition reject :: "setting_key \<Rightarrow> string \<Rightarrow> cache \<times> 's \<Rightarrow> config_error option \<times> cache \<times> 's" where
  "reject k v ms = (Some (InvalidSetting k v), ms)"

definition put :: "setting_key \<Rightarrow> string \<Rightarrow> ('c, 's) setter" where
  "put k v api c ms = config_set api c (key_string k) v ms"

definition set_theme_mode :: "string \<Rightarrow> ('c, 's) setter" where
  "set_theme_mode v api c ms =
     (if \<not> valid_enum v allowed_theme_modes then reject Key_theme_mode v ms else put Key_theme_mode v api c ms)"

definition set_php_version_default :: "string \<Rightarrow> ('c, 's) setter" where
  "set_php_version_default v api c ms =
     (if v = [] then reject Key_default_php_version v ms else put Key_default_php_version v api c ms)"

definition set_db_engine_default :: "string \<Rightarrow> ('c, 's) setter" where
  "set_db_engine_default v api c ms =
     (if \<not> valid_enum v allowed_db_engines then reject Key_default_db_engine v ms
      else put Key_default_db_engine v api c ms)"

definition set_db_version_default :: "string \<Rightarrow> ('c, 's) setter" where
  "set_db_version_default v api c ms =
     (if v = [] then reject Key_default_db_version v ms else put Key_default_db_version v api c ms)"

definition set_redis_version_default :: "string \<Rightarrow> ('c, 's) setter" where
  "set_redis_version_default v api c ms =
     (if v = [] then reject Key_default_redis_version v ms else put Key_default_redis_version v api c ms)"

definition set_web_server_default :: "string \<Rightarrow> ('c, 's) setter" where
  "set_web_server_default v api c ms =
     (if \<not> valid_enum v allowed_web_servers then reject Key_default_web_server v ms
      else put Key_default_web_server v api c ms)"

definition set_publish_db_port_default :: "bool \<Rightarrow> ('c, 's) setter" where
  "set_publish_db_port_default b api c ms = put Key_default_publish_db_port (format_bool b) api c ms"

definition set_mkcert_path :: "string \<Rightarrow> ('c, 's) setter" where
  "set_mkcert_path v api c ms = put Key_mkcert_path v api c ms"

definition set_router_http_port :: "int \<Rightarrow> ('c, 's) setter" where
  "set_router_http_port p api c ms =
     (if \<not> validate_port p then reject Key_router_http_port (itoa p) ms
      else put Key_router_http_port (itoa p) api c ms)"

definition set_router_https_port :: "int \<Rightarrow> ('c, 's) setter" where
  "set_router_https_port p api c ms =
     (if \<not> validate_port p then reject Key_router_https_port (itoa p) ms
      else put Key_router_https_port (itoa p) api c ms)"

definition set_update_check_enabled :: "bool \<Rightarrow> ('c, 's) setter" where
  "set_update_check_enabled b api c ms = put Key_update_check_enabled (format_bool b) api c ms"

definition set_update_check_channel :: "string \<Rightarrow> ('c, 's) setter" where
  "set_update_check_channel v api c ms =
     (if \<not> valid_enum v allowed_update_channels then reject Key_update_check_channel v ms
      else put Key_update_check_channel v api c ms)"

definition set_performance_mode :: "string \<Rightarrow> ('c, 's) setter" where
  "set_performance_mode v api c ms =
     (if \<not> valid_enum v allowed_performance then reject Key_performance_mode v ms
      else put Key_performance_mode v api c ms)"

definition set_auto_snapshot :: "bool \<Rightarrow> ('c, 's) setter" where
  "set_auto_snapshot b api c ms = put Key_auto_snapshot (if b then ''true'' else ''false'') api c ms"

definition set_health_enabled :: "bool \<Rightarrow> ('c, 's) setter" where
  "set_health_enabled b api c ms = put Key_health_enabled (format_bool b) api c ms"

definition set_health_cadence_minutes :: "int \<Rightarrow> ('c, 's) setter" where
  "set_health_cadence_minutes v api c ms =
     (if v \<le> 0 then reject Key_health_cadence_minutes (itoa v) ms
      else put Key_health_cadence_minutes (itoa v) api c ms)"

definition set_health_disk_cadence_minutes :: "int \<Rightarrow> ('c, 's) setter" where
  "set_health_disk_cadence_minutes v api c ms =
     (if v \<le> 0 then reject Key_health_disk_cadence_minutes (itoa v) ms
      else put Key_health_disk_cadence_minutes (itoa v) api c ms)"

definition set_health_disk_warn_gb :: "int \<Rightarrow> ('c, 's) setter" where
  "set_health_disk_warn_gb v api c ms =
     (if v \<le> 0 then reject Key_health_disk_warn_gb (itoa v) ms
      else put Key_health_disk_warn_gb (itoa v) api c ms)"

definition set_health_disk_blocker_gb :: "int \<Rightarrow> ('c, 's) setter" where
  "set_health_disk_blocker_gb v api c ms =
     (if v \<le> 0 then reject Key_health_disk_blocker_gb (itoa v) ms
      else if health_disk_warn_gb (fst ms) \<le> v then reject Key_health_disk_blocker_gb (itoa v) ms
      else put Key_health_disk_blocker_gb (itoa v) api c ms)"

definition set_debug_logging :: "bool \<Rightarrow> ('c, 's) setter" where
  "set_debug_logging b api c ms = put Key_debug_logging (format_bool b) api c ms"

definition set_update_dismissed_version :: "string \<Rightarrow> ('c, 's) setter" where
  "set_update_dismissed_version v api c ms = put Key_update_dismissed_version v api c ms"

definition set_update_last_available :: "string \<Rightarrow> ('c, 's) setter" where
  "set_update_last_available v api c ms = put Key_update_last_available v api c ms"

definition set_lan_default :: "bool \<Rightarrow> ('c, 's) setter" where
  "set_lan_default b api c ms = put Key_lan_default (format_bool b) api c ms"

text \<open>The rune loop of \<^verbatim>\<open>SetLanDomain\<close>: no byte of a non-ASCII rune is allowed either.\<close>

definition domain_char :: "char \<Rightarrow> bool" where
  "domain_char c \<longleftrightarrow> is_lower c \<or> is_upper c \<or> is_digit c \<or> c = CHR ''.'' \<or> c = CHR ''-''"

definition set_lan_domain :: "string \<Rightarrow> ('c, 's) setter" where
  "set_lan_domain v api c ms =
     (let v = trim_space v
      in if v = [] then put Key_lan_domain [] api c ms
         else if \<not> list_all domain_char v then reject Key_lan_domain v ms
         else put Key_lan_domain v api c ms)"

definition set_lan_ip_override :: "string \<Rightarrow> ('c, 's) setter" where
  "set_lan_ip_override v api c ms =
     (let v = trim_space v
      in if v = [] then put Key_lan_ip_override [] api c ms
         else case parse_ip v of None \<Rightarrow> reject Key_lan_ip_override v ms
         | Some ip \<Rightarrow>
             (case to4 ip of None \<Rightarrow> reject Key_lan_ip_override v ms
              | Some q \<Rightarrow> put Key_lan_ip_override (ipv4_string q) api c ms))"

definition set_health_last_seen :: "string \<Rightarrow> ('c, 's) setter" where
  "set_health_last_seen v api c ms = put Key_health_last_seen v api c ms"

section \<open>Any typed write\<close>

datatype config_op = OpThemeMode string | OpPHPVersion string | OpDBEngine string | OpDBVersion string
  | OpRedisVersion string | OpWebServer string | OpPublishDBPort bool | OpMkcertPath string
  | OpRouterHTTPPort int | OpRouterHTTPSPort int | OpUpdateCheckEnabled bool | OpUpdateCheckChannel string
  | OpPerformanceMode string | OpAutoSnapshot bool | OpHealthEnabled bool | OpHealthCadence int
  | OpHealthDiskCadence int | OpHealthDiskWarn int | OpHealthDiskBlocker int | OpDebugLogging bool
  | OpUpdateDismissed string | OpUpdateLastAvailable string | OpLanDefault bool | OpLanDomain string
  | OpLanIPOverride string | OpHealthLastSeen string

fun config_step :: "config_op \<Rightarrow> ('c, 's) setter" where
  "config_step (OpThemeMode v) = set_theme_mode v"
| "config_step (OpPHPVersion v) = set_php_version_default v"
| "config_step (OpDBEngine v) = set_db_engine_default v"
| "config_step (OpDBVersion v) = set_db_version_default v"
| "config_step (OpRedisVersion v) = set_redis_version_default v"
| "config_step (OpWebServer v) = set_web_server_default v"
| "config_step (OpPublishDBPort b) = set_publish_db_port_default b"
| "config_step (OpMkcertPath v) = set_mkcert_path v"
| "config_step (OpRouterHTTPPort p) = set_router_http_port p"
| "config_step (OpRouterHTTPSPort p) = set_router_https_port p"
| "config_step (OpUpdateCheckEnabled b) = set_update_check_enabled b"
| "config_step (OpUpdateCheckChannel v) = set_update_check_channel v"
| "config_step (OpPerformanceMode v) = set_performance_mode v"
| "config_step (OpAutoSnapshot b) = set_auto_snapshot b"
| "config_step (OpHealthEnabled b) = set_health_enabled b"
| "config_step (OpHealthCadence n) = set_health_cadence_minutes n"
| "config_step (OpHealthDiskCadence n) = set_health_disk_cadence_minutes n"
| "config_step (OpHealthDiskWarn n) = set_health_disk_warn_gb n"
| "config_step (OpHealthDiskBlocker n) = set_health_disk_blocker_gb n"
| "config_step (OpDebugLogging b) = set_debug_logging b"
| "config_step (OpUpdateDismissed v) = set_update_dismissed_version v"
| "config_step (OpUpdateLastAvailable v) = set_update_last_available v"
| "config_step (OpLanDefault b) = set_lan_default b"
| "config_step (OpLanDomain v) = set_lan_domain v"
| "config_step (OpLanIPOverride v) = set_lan_ip_override v"
| "config_step (OpHealthLastSeen v) = set_health_last_seen v"

text \<open>What the matching accessor answers after the write.\<close>

fun reads_back :: "config_op \<Rightarrow> cache \<Rightarrow> bool" where
  "reads_back (OpThemeMode v) m = (theme_mode m = v)"
| "reads_back (OpPHPVersion v) m = (php_version_default m = v)"
| "reads_back (OpDBEngine v) m = (db_engine_default m = v)"
| "reads_back (OpDBVersion v) m = (db_version_default m = v)"
| "reads_back (OpRedisVersion v) m = (redis_version_default m = v)"
| "reads_back (OpWebServer v) m = (web_server_default m = v)"
| "reads_back (OpPublishDBPort b) m = (publish_db_port_default m = b)"
| "reads_back (OpMkcertPath v) m = (mkcert_path m = v)"
| "reads_back (OpRouterHTTPPort p) m = (router_http_port m = p)"
| "reads_back (OpRouterHTTPSPort p) m = (router_https_port m = p)"
| "reads_back (OpUpdateCheckEnabled b) m = (update_check_enabled m = b)"
| "reads_back (OpUpdateCheckChannel v) m = (update_check_channel m = v)"
| "reads_back (OpPerformanceMode v) m = (performance_mode m = v)"
| "reads_back (OpAutoSnapshot b) m = (auto_snapshot_before_destructive m = b)"
| "reads_back (OpHealthEnabled b) m = (health_enabled m = b)"
| "reads_back (OpHealthCadence n) m = (health_cadence_minutes m = n)"
| "reads_back (OpHealthDiskCadence n) m = (health_disk_cadence_minutes m = n)"
| "reads_back (OpHealthDiskWarn n) m = (health_disk_warn_gb m = n)"
| "reads_back (OpHealthDiskBlocker n) m = (health_disk_blocker_gb m = n \<and> n < health_disk_warn_gb m)"
| "reads_back (OpDebugLogging b) m = (debug_logging m = b)"
| "reads_back (OpUpdateDismissed v) m = (update_dismissed_version m = v)"
| "reads_back (OpUpdateLastAvailable v) m = (update_last_available m = v)"
| "reads_back (OpLanDefault b) m = (lan_default m = b)"
| "reads_back (OpLanDomain v) m = (lan_domain m = (if trim_space v = [] then default_lan_domain else trim_space v))"
| "reads_back (OpLanIPOverride v) m =
     (lan_ip_override m = (if trim_space v = [] then None else Option.bind (parse_ip (trim_space v)) to4))"
| "reads_back (OpHealthLastSeen v) m = (health_last_seen m = v)"

text \<open>The integers of a Go \<^verbatim>\<open>int\<close>.\<close>

fun op_in_range :: "config_op \<Rightarrow> bool" where
  "op_in_range (OpHealthCadence n) = (n < 2 ^ 63)"
| "op_in_range (OpHealthDiskCadence n) = (n < 2 ^ 63)"
| "op_in_range (OpHealthDiskWarn n) = (n < 2 ^ 63)"
| "op_in_range (OpHealthDiskBlocker n) = (n < 2 ^ 63)"
| "op_in_range _ = True"

section \<open>Lemmas\<close>

lemma key_string_inj: "key_string k = key_string k' \<longleftrightarrow> k = k'"
  by (cases k; cases k') simp_all

declare key_string.simps [simp del]

lemma all_keys_complete: "k \<in> set all_keys"
  by (cases k) (simp_all add: all_keys_def)

lemma raw_upd: "raw (m(key_string k \<mapsto> v)) k' = (if k' = k then v else raw m k')"
  by (simp add: raw_def key_string_inj)

lemma parse_int_itoa: "0 \<le> n \<Longrightarrow> n < 2 ^ 63 \<Longrightarrow> parse_int (itoa n) d = n"
  by (simp add: parse_int_def itoa_nonempty atoi_itoa)

lemma strip_none_without:
  "\<forall>p\<in>set ps. \<not> set p \<subseteq> set s \<Longrightarrow> strip_all ps s = s"
proof -
  assume a: "\<forall>p\<in>set ps. \<not> set p \<subseteq> set s"
  then have "\<forall>p\<in>set ps. p \<noteq> [] \<longrightarrow> \<not> prefix p s" by (blast dest: set_mono_prefix)
  from strip_prefix_none [OF this] show ?thesis by (simp add: strip_all.simps [of ps s])
qed

lemma trim_space_id: "\<forall>p\<in>set space_encodings. \<not> set p \<subseteq> set s \<Longrightarrow> trim_space s = s"
  by (simp add: trim_space_def strip_none_without)

lemma spaces_not_domain: "\<forall>p\<in>set space_encodings. \<exists>c\<in>set p. \<not> domain_char c"
  by code_simp

lemma trim_space_domain: "list_all domain_char s \<Longrightarrow> trim_space s = s"
  using spaces_not_domain by (intro trim_space_id) (fastforce simp: list_all_iff)

lemma parse_bool_literals:
  "config_parse_bool ''true'' True" "config_parse_bool ''true'' False"
  "\<not> config_parse_bool ''false'' True" "\<not> config_parse_bool ''false'' False"
proof -
  have "list_all domain_char ''true''" "list_all domain_char ''false''"
    by (simp_all add: domain_char_def go_defs)
  then have t: "trim_space ''true'' = ''true''" "trim_space ''false'' = ''false''"
    by (simp_all add: trim_space_domain)
  have l: "to_lower ''true'' = ''true''" "to_lower ''false'' = ''false''" by (simp_all add: go_defs)
  show "config_parse_bool ''true'' True" "config_parse_bool ''true'' False"
    "\<not> config_parse_bool ''false'' True" "\<not> config_parse_bool ''false'' False"
    by (simp_all add: config_parse_bool_def t l)
qed

lemma parse_bool_format [simp]: "config_parse_bool (format_bool b) d = b"
  "config_parse_bool (if b then ''true'' else ''false'') d = b"
  using parse_bool_literals by (cases b; cases d; simp add: format_bool_def)+

lemma ipv4_string_domain: "list_all domain_char (ipv4_string q)"
proof -
  have d: "list_all domain_char (nat_digits n)" for n
    by (auto simp: list_all_iff domain_char_def dest: nat_digits_no_dot)
  have dot: "domain_char (CHR ''.'')" by (simp add: domain_char_def)
  have "list_all domain_char (join ''.'' (map nat_digits q))"
    by (induction q rule: induct_list012) (simp_all add: d dot)
  then show ?thesis by (simp add: ipv4_string_def)
qed

lemma ipv4_string_nonempty: "v4_bytes q \<Longrightarrow> ipv4_string q \<noteq> []"
  using parse_ipv4_string [of q] by (auto simp: v4_bytes_def parse_ipv4_def)

text \<open>A setter rejects and changes nothing, or writes its key.\<close>

lemmas setter_defs = set_theme_mode_def set_php_version_default_def set_db_engine_default_def
  set_db_version_default_def set_redis_version_default_def set_web_server_default_def
  set_publish_db_port_default_def set_mkcert_path_def set_router_http_port_def set_router_https_port_def
  set_update_check_enabled_def set_update_check_channel_def set_performance_mode_def set_auto_snapshot_def
  set_health_enabled_def set_health_cadence_minutes_def set_health_disk_cadence_minutes_def
  set_health_disk_warn_gb_def set_health_disk_blocker_gb_def set_debug_logging_def
  set_update_dismissed_version_def set_update_last_available_def set_lan_default_def set_lan_domain_def
  set_lan_ip_override_def set_health_last_seen_def

lemma config_step_cases:
  "(\<exists>k v. config_step op api c ms = reject k v ms) \<or> (\<exists>k v. config_step op api c ms = put k v api c ms)"
  by (cases op) (auto simp: setter_defs Let_def split: option.splits)

lemma put_cases:
  assumes "put k v api c (m, s) = (e, m', s')"
  obtains x where "api_put api c (key_string k) v s = (Some x, s')" "e = Some (PersistFailed (key_string k) x)" "m' = m"
  | "api_put api c (key_string k) v s = (None, s')" "e = None" "m' = m(key_string k \<mapsto> v)"
  using assms by (auto simp: put_def config_set_def split: prod.splits option.splits)

lemma config_step_elim:
  assumes "config_step op api c (m, s) = (e, m', s')"
  obtains "e \<noteq> None" "m' = m" "s' = s" | k v where "put k v api c (m, s) = (e, m', s')"
proof -
  consider k v where "config_step op api c (m, s) = reject k v (m, s)"
    | k v where "config_step op api c (m, s) = put k v api c (m, s)"
    using config_step_cases [of op api c "(m, s)"] by blast
  then show thesis
  proof cases
    case 1
    with assms have "e = Some (InvalidSetting k v)" "m' = m" "s' = s" by (simp_all add: reject_def)
    with that(1) show thesis by simp
  next
    case 2
    with assms that(2) show thesis by simp
  qed
qed

lemma put_None: "put k v api c (m, s) = (None, m', s') \<Longrightarrow> m' = m(key_string k \<mapsto> v)"
  by (auto elim: put_cases)

section \<open>The contract of the store\<close>

text \<open>
  \<open>view\<close> is the content of the store: a read that returns is of it, a write that returns no error
  changes one key, a write that returns an error changes nothing.
\<close>

locale settings_store =
  fixes api :: "('c, 's) store_api" and view :: "'s \<Rightarrow> string \<Rightarrow> string"
  assumes get_view: "api_get api c k s = Inr v \<Longrightarrow> v = view s k"
    and put_ok: "api_put api c k v s = (None, s') \<Longrightarrow> view s' = (view s)(k := v)"
    and put_err: "api_put api c k v s = (Some e, s') \<Longrightarrow> view s' = view s"
begin

definition coherent :: "cache \<times> 's \<Rightarrow> bool" where
  "coherent ms \<longleftrightarrow> (\<forall>k. raw (fst ms) k = view (snd ms) (key_string k))"

lemma reload_loop_view:
  "reload_loop api cs ks fresh s = Inr m \<Longrightarrow>
     raw m k = (if k \<in> set ks then view s (key_string k) else raw fresh k)"
  by (induction ks arbitrary: fresh) (auto split: sum.splits simp: raw_upd dest: get_view)

lemma new_coherent: "config_new (Some api) cs s = Inr m \<Longrightarrow> coherent (m, s)"
  using reload_loop_view all_keys_complete
  by (auto simp: config_new_def config_reload_def coherent_def split: sum.splits)

lemma put_coherent:
  assumes "put k v api c (m, s) = (e, m', s')" "coherent (m, s)"
  shows "coherent (m', s')"
  using assms(1)
proof (cases rule: put_cases)
  case (1 x)
  with assms(2) put_err show ?thesis by (auto simp: coherent_def)
next
  case 2
  with assms(2) put_ok [OF 2(1)] show ?thesis by (simp add: coherent_def raw_upd key_string_inj)
qed

lemma step_coherent:
  assumes "config_step op api c (m, s) = (e, m', s')" "coherent (m, s)"
  shows "coherent (m', s')"
  using assms(1)
proof (cases rule: config_step_elim)
  case 1
  with assms(2) show ?thesis by simp
next
  case (2 k v)
  then show ?thesis using assms(2) by (rule put_coherent)
qed

text \<open>The cache after any calls is the one a fresh \<^verbatim>\<open>New\<close> on the same store would build.\<close>

lemma coherent_reload:
  assumes "coherent (m, s)" "config_new (Some api) cs s = Inr m'"
  shows "raw m' k = raw m k"
  using new_coherent [OF assms(2)] assms(1) by (simp add: coherent_def)

end

section \<open>The storage as a store\<close>

definition storage_api :: "(storage_error \<Rightarrow> go_error) \<Rightarrow> (faults, db) store_api" where
  "storage_api msg =
     \<lparr>api_get = (\<lambda>flt k d. case get_setting flt k d of Inl e \<Rightarrow> Inl (msg e) | Inr v \<Rightarrow> Inr v),
      api_put = (\<lambda>flt k v d. case set_setting flt k v d of (eo, d') \<Rightarrow> (map_option msg eo, d'))\<rparr>"

definition setting_view :: "db \<Rightarrow> string \<Rightarrow> string" where
  "setting_view d k = (case db_settings d k of None \<Rightarrow> [] | Some v \<Rightarrow> v)"

interpretation stored: settings_store "storage_api msg" setting_view for msg
proof
  show "api_get (storage_api msg) c k s = Inr v \<Longrightarrow> v = setting_view s k" for c k s v
    by (auto simp: storage_api_def get_setting_def setting_view_def split: sum.splits option.splits dest!: exec_Inr)
  show "api_put (storage_api msg) c k v s = (None, s') \<Longrightarrow> setting_view s' = (setting_view s)(k := v)" for c k v s s'
    by (auto simp: storage_api_def set_setting_def setting_view_def split: sum.splits prod.splits dest!: exec_Inr)
  show "api_put (storage_api msg) c k v s = (Some e, s') \<Longrightarrow> setting_view s' = setting_view s" for c k v s e s'
    by (auto simp: storage_api_def set_setting_def setting_view_def split: sum.splits prod.splits dest!: exec_Inr)
qed

text \<open>A program run: construction, then typed writes, each with its own driver faults.\<close>

fun config_run :: "(storage_error \<Rightarrow> go_error) \<Rightarrow> (faults \<times> config_op) list \<Rightarrow> cache \<times> db \<Rightarrow> cache \<times> db" where
  "config_run msg [] ms = ms"
| "config_run msg ((flt, op) # ops) ms = config_run msg ops (snd (config_step op (storage_api msg) flt ms))"

lemma config_run_coherent: "stored.coherent ms \<Longrightarrow> stored.coherent (config_run msg ops ms)"
proof (induction msg ops ms rule: config_run.induct)
  case (2 msg flt op ops ms)
  obtain m s e m' s' where ms: "ms = (m, s)" and st: "config_step op (storage_api msg) flt (m, s) = (e, m', s')"
    by (metis prod_cases3 surj_pair)
  from stored.step_coherent [OF st] 2 show ?case by (simp add: ms st)
qed simp

section \<open>Properties\<close>

text \<open>
  C28. The settings cache is never stale: after \<open>New\<close> on a storage and any sequence of typed
  writes, some of which may fail in the driver, every key reads from the cache exactly what a
  fresh \<open>New\<close> on the same database would read.
\<close>

theorem config_cache_coherent:
  assumes "config_new (Some (storage_api msg)) flts d = Inr m" and "config_run msg ops (m, d) = (m', d')"
    and "config_new (Some (storage_api msg)) flts' d' = Inr fresh"
  shows "raw m' k = raw fresh k"
proof -
  have "stored.coherent (m', d')"
    using config_run_coherent [OF stored.new_coherent [OF assms(1)], of msg ops] assms(2) by simp
  from stored.coherent_reload [OF this assms(3)] show ?thesis by simp
qed

lemma config_new_no_faults: "\<exists>m. config_new (Some (storage_api msg)) (\<lambda>_. no_faults) d = Inr m"
proof -
  have g: "\<exists>v. api_get (storage_api msg) no_faults k d = Inr v" for k
    by (auto simp: storage_api_def get_setting_def split: option.splits)
  have "\<exists>m. reload_loop (storage_api msg) (\<lambda>_. no_faults) ks fresh d = Inr m" for ks fresh
  proof (induction ks arbitrary: fresh)
    case (Cons k ks)
    with g [of "key_string k"] show ?case by auto
  qed simp
  then obtain m where "reload_loop (storage_api msg) (\<lambda>_. no_faults) all_keys Map.empty d = Inr m" by blast
  then show ?thesis by (simp add: config_new_def config_reload_def)
qed

lemma config_cache_coherent_witness:
  "\<exists>m m' d' fresh. config_new (Some (storage_api (\<lambda>_. ''e''))) (\<lambda>_. no_faults) empty_db = Inr m \<and>
     config_run (\<lambda>_. ''e'') [(no_faults, OpWebServer ''apache''), (\<lambda>_ _. Some ''locked'', OpRouterHTTPPort 8080)]
       (m, empty_db) = (m', d') \<and>
     config_new (Some (storage_api (\<lambda>_. ''e''))) (\<lambda>_. no_faults) d' = Inr fresh \<and>
     raw m' Key_router_http_port = raw fresh Key_router_http_port"
proof -
  obtain m where m: "config_new (Some (storage_api (\<lambda>_. ''e''))) (\<lambda>_. no_faults) empty_db = Inr m"
    using config_new_no_faults by blast
  obtain m' d' where r: "config_run (\<lambda>_. ''e'') [(no_faults, OpWebServer ''apache''),
      (\<lambda>_ _. Some ''locked'', OpRouterHTTPPort 8080)] (m, empty_db) = (m', d')" by (metis surj_pair)
  obtain fresh where "config_new (Some (storage_api (\<lambda>_. ''e''))) (\<lambda>_. no_faults) d' = Inr fresh"
    using config_new_no_faults by blast
  with m r config_cache_coherent [OF m r this] show ?thesis by blast
qed

text \<open>
  What is set is what is read: a typed write that returns no error makes the matching
  accessor return the value set (normalised, for the two LAN settings), for every setter; and a
  write that returns an error leaves the cache as it was.
\<close>

theorem config_write_reads_back:
  assumes "config_step op api c (m, s) = (e, m', s')" and "op_in_range op"
  shows "(e = None \<longrightarrow> reads_back op m') \<and> (e \<noteq> None \<longrightarrow> m' = m)"
proof (cases e)
  case (Some x)
  from assms(1) have "m' = m"
  proof (cases rule: config_step_elim)
    case (2 k v)
    then show ?thesis by (cases rule: put_cases) (use Some in simp_all)
  qed
  with Some show ?thesis by simp
next
  case None
  have ip: "lan_ip_override (m(key_string Key_lan_ip_override \<mapsto> ipv4_string q)) = Some q"
    if "parse_ip v = Some i" "to4 i = Some q" for v i q
  proof -
    from parse_ip_to4 [OF that] have q: "v4_bytes q" .
    then show ?thesis
      by (simp add: lan_ip_override_def raw_upd Let_def trim_space_domain [OF ipv4_string_domain]
          ipv4_string_nonempty parse_ip_v4_string)
        (use to4_mapped [OF q] in simp)
  qed
  have ip0: "lan_ip_override (m(key_string Key_lan_ip_override \<mapsto> [])) = None"
    by (simp add: lan_ip_override_def raw_upd)
  from assms None show ?thesis
    by (cases op)
      (auto simp: setter_defs reject_def Let_def theme_mode_def php_version_default_def db_engine_default_def
        db_version_default_def redis_version_default_def web_server_default_def publish_db_port_default_def
        mkcert_path_def router_http_port_def router_https_port_def update_check_enabled_def
        update_check_channel_def performance_mode_def auto_snapshot_before_destructive_def health_enabled_def
        health_cadence_minutes_def health_disk_cadence_minutes_def health_disk_warn_gb_def
        health_disk_blocker_gb_def debug_logging_def update_dismissed_version_def update_last_available_def
        lan_default_def lan_domain_def health_last_seen_def raw_upd parse_int_itoa validate_port_def
        trim_space_domain valid_enum_def allowed_defs ip ip0 parse_bool_literals
        split: if_split_asm option.splits dest!: put_None)
qed

definition map_api :: "(unit, cache) store_api" where
  "map_api = \<lparr>api_get = (\<lambda>_ k m. Inr (case m k of None \<Rightarrow> [] | Some v \<Rightarrow> v)),
     api_put = (\<lambda>_ k v m. (None, m(k \<mapsto> v)))\<rparr>"

lemma map_api_put: "put k v map_api c (m, s) = (None, m(key_string k \<mapsto> v), s(key_string k \<mapsto> v))"
  by (simp add: put_def config_set_def map_api_def)

lemma config_write_reads_back_witness:
  "health_disk_blocker_gb (Map.empty(''health.disk_blocker_gb'' \<mapsto> itoa 3)) = 3 \<and>
   3 < health_disk_warn_gb (Map.empty(''health.disk_blocker_gb'' \<mapsto> itoa 3))"
proof -
  have "config_step (OpHealthDiskBlocker 3) map_api () (Map.empty, Map.empty)
      = (None, Map.empty(''health.disk_blocker_gb'' \<mapsto> itoa 3), Map.empty(''health.disk_blocker_gb'' \<mapsto> itoa 3))"
    by (simp add: set_health_disk_blocker_gb_def map_api_put health_disk_warn_gb_def raw_def parse_int_def
        config_defaults key_string.simps)
  from config_write_reads_back [OF this] show ?thesis by simp
qed

text \<open>
  The accessors are total and safe on any stored rows: the enumerated settings are always
  one of their allowed values, versions and domain are never empty, ports, cadences and
  thresholds are never negative, and a LAN override is a well-formed IPv4 address.
\<close>

theorem config_reads_are_valid:
  "db_engine_default m \<in> {''mysql'', ''mariadb''} \<and> web_server_default m \<in> {''nginx'', ''apache''} \<and>
   performance_mode m \<in> {''auto'', ''bind'', ''mutagen''} \<and> update_check_channel m \<in> {''stable'', ''beta''} \<and>
   theme_mode m \<noteq> [] \<and> php_version_default m \<noteq> [] \<and> redis_version_default m \<noteq> [] \<and> lan_domain m \<noteq> [] \<and>
   0 \<le> router_http_port m \<and> 0 \<le> router_https_port m \<and> 0 \<le> health_cadence_minutes m \<and>
   0 \<le> health_disk_cadence_minutes m \<and> 0 \<le> health_disk_warn_gb m \<and> 0 \<le> health_disk_blocker_gb m \<and>
   (case lan_ip_override m of None \<Rightarrow> True | Some q \<Rightarrow> v4_bytes q)"
proof -
  have n: "0 \<le> parse_int v d" if "0 \<le> d" for v d using that by (simp add: parse_int_def split: option.splits)
  have ip: "case lan_ip_override m of None \<Rightarrow> True | Some q \<Rightarrow> v4_bytes q"
    by (auto simp: lan_ip_override_def Let_def dest: parse_ip_to4 split: option.splits)
  show ?thesis
    by (intro conjI ip)
      (simp_all add: db_engine_default_def web_server_default_def performance_mode_def update_check_channel_def
        theme_mode_def php_version_default_def redis_version_default_def lan_domain_def router_http_port_def
        router_https_port_def health_cadence_minutes_def health_disk_cadence_minutes_def health_disk_warn_gb_def
        health_disk_blocker_gb_def n Let_def valid_enum_def allowed_defs config_defaults)
qed

text \<open>
  The disk thresholds are checked in one direction only: lowering the warning threshold is
  accepted below the blocker threshold, so the blocker can end up the looser of the two.
\<close>

theorem disk_thresholds_can_cross:
  "case config_step (OpHealthDiskBlocker 4) map_api () (Map.empty, Map.empty) of (e1, m1, s1) \<Rightarrow>
     (case config_step (OpHealthDiskWarn 2) map_api () (m1, s1) of (e2, m2, s2) \<Rightarrow>
        e1 = None \<and> e2 = None \<and> health_disk_warn_gb m2 = 2 \<and> health_disk_blocker_gb m2 = 4)"
  by (simp add: set_health_disk_blocker_gb_def set_health_disk_warn_gb_def map_api_put
      health_disk_warn_gb_def health_disk_blocker_gb_def raw_def parse_int_def config_defaults itoa_nonempty atoi_itoa
      key_string.simps)

end
