(* ===== verification/Site_Lan.thy ===== *)
theory Site_Lan
  imports Config Activity
begin

text \<open>
  LAN access of a site: the hostnames of \<^verbatim>\<open>internal/sites/lanhost.go\<close>, and from \<^verbatim>\<open>sites.go\<close> the route of a
  site, the cached LAN address, \<^verbatim>\<open>RefreshLAN\<close> and the toggle plan with its undo steps, run by the
  orchestrator. The world holds the in-memory site struct, the database, the address cache, the
  routes of the router and the site the on-disk WordPress config was last generated from. What is
  outside the package (interface detection, the router, writing the config, hooks, cancellation,
  the clock) are functions of the world that may fail; \<open>tick\<close> tells successive calls apart.
\<close>

section \<open>Hostnames and routes\<close>

text \<open>\<^verbatim>\<open>dashedIPv4\<close>: the dotted form with every dot replaced.\<close>

definition dashed_ipv4 :: "ip \<Rightarrow> string" where
  "dashed_ipv4 q = replace_all ''.'' ''-'' (ipv4_string q)"

definition lan_host :: "string \<Rightarrow> ip option \<Rightarrow> string \<Rightarrow> string" where
  "lan_host slug ipo domain =
     (let slug = trim_space slug; domain = trim_space domain
      in if slug = [] \<or> domain = [] then []
         else case ipo of None \<Rightarrow> []
         | Some ip \<Rightarrow>
             (case to4 ip of None \<Rightarrow> []
              | Some q \<Rightarrow> slug @ ''.'' @ dashed_ipv4 q @ ''.'' @ domain))"

definition lan_wildcard_host :: "string \<Rightarrow> ip option \<Rightarrow> string \<Rightarrow> string \<Rightarrow> string" where
  "lan_wildcard_host slug ipo domain multisite =
     (if multisite \<noteq> ''subdomain'' then []
      else (let host = lan_host slug ipo domain in if host = [] then [] else ''*.'' @ host))"

definition effective_lan_domain :: "cache option \<Rightarrow> string" where
  "effective_lan_domain cfg = (case cfg of None \<Rightarrow> default_lan_domain | Some m \<Rightarrow> lan_domain m)"

record site_route =
  route_slug :: string
  route_primary_host :: string
  route_extra_hosts :: "string list"
  route_wildcard_host :: string
  route_extra_wildcard_hosts :: "string list"
  route_backend :: string

text \<open>\<^verbatim>\<open>routeFor\<close>, given what \<^verbatim>\<open>lanIP()\<close> answers when it is asked.\<close>

definition route_for :: "cache option \<Rightarrow> ip option \<Rightarrow> site \<Rightarrow> site_route" where
  "route_for cfg ipo s =
     (let host = (if site_lan_enabled s \<and> ipo \<noteq> None
                  then lan_host (site_slug s) ipo (effective_lan_domain cfg) else []);
          w = (if host \<noteq> [] \<and> site_multisite s = ''subdomain''
               then lan_wildcard_host (site_slug s) ipo (effective_lan_domain cfg) (site_multisite s) else [])
      in \<lparr>route_slug = site_slug s, route_primary_host = site_domain s,
          route_extra_hosts = (if host \<noteq> [] then [host] else []),
          route_wildcard_host = (if site_multisite s = ''subdomain'' then ''*.'' @ site_domain s else []),
          route_extra_wildcard_hosts = (if w \<noteq> [] then [w] else []),
          route_backend = ''http://'' @ site_container_name (site_slug s) ''web'' @ '':80''\<rparr>)"

section \<open>The world of the site manager\<close>

record lan_world =
  lw_site :: site
  lw_db :: db
  lw_ip :: "ip option"
  lw_ip_at :: gtime
  lw_routes :: "string \<rightharpoonup> site_route"
  lw_wp :: "site option"
  lw_notices :: "site list"
  lw_tick :: nat

record lan_env =
  le_cfg :: "cache option"
  le_detect :: "lan_world \<Rightarrow> go_error + ip"
  le_wsl :: bool
  le_wp_fault :: "lan_world \<Rightarrow> go_error option"
  le_route_fault :: "site_route \<Rightarrow> lan_world \<Rightarrow> go_error option"
  le_flt :: "lan_world \<Rightarrow> faults"
  le_hook :: "string \<Rightarrow> lan_world \<Rightarrow> go_error option"
  le_now :: "lan_world \<Rightarrow> string"
  le_run :: "lan_world surroundings"
  le_json_valid :: "string \<Rightarrow> bool"
  le_scrub :: "string \<Rightarrow> string"

definition tick :: "lan_world \<Rightarrow> lan_world" where "tick w = w\<lparr>lw_tick := Suc (lw_tick w)\<rparr>"

definition lan_cache_ttl :: duration where "lan_cache_ttl = 5 * minute"

definition invalidate_lan_ip :: "lan_world \<Rightarrow> lan_world" where
  "invalidate_lan_ip w = w\<lparr>lw_ip := None, lw_ip_at := zero_time\<rparr>"

definition lan_ip :: "lan_env \<Rightarrow> lan_world \<Rightarrow> ip option \<times> lan_world" where
  "lan_ip env w =
     (case (case le_cfg env of None \<Rightarrow> None | Some m \<Rightarrow> lan_ip_override m) of
        Some q \<Rightarrow> (Some q, w)
      | None \<Rightarrow>
          if lw_ip w \<noteq> None \<and> time_sub (clock (le_run env) w) (lw_ip_at w) < lan_cache_ttl then (lw_ip w, w)
          else
            (case le_detect env w of
               Inl _ \<Rightarrow> (None, (tick w)\<lparr>lw_ip := None, lw_ip_at := clock (le_run env) (tick w)\<rparr>)
             | Inr ip \<Rightarrow> (Some ip, (tick w)\<lparr>lw_ip := Some ip, lw_ip_at := clock (le_run env) (tick w)\<rparr>)))"

text \<open>\<^verbatim>\<open>UpsertSite(ctx, routeFor(site))\<close>: the address is only asked for when LAN access is on.\<close>

definition upsert_route :: "lan_env \<Rightarrow> lan_world \<Rightarrow> lan_world \<times> go_error option" where
  "upsert_route env w =
     (let (ipo, w) = (if site_lan_enabled (lw_site w) then lan_ip env w else (None, w));
          r = route_for (le_cfg env) ipo (lw_site w)
      in case le_route_fault env r w of
           Some e \<Rightarrow> (tick w, Some e)
         | None \<Rightarrow> ((tick w)\<lparr>lw_routes := (lw_routes w)(route_slug r \<mapsto> r)\<rparr>, None))"

definition ensure_wp_config :: "lan_env \<Rightarrow> lan_world \<Rightarrow> lan_world \<times> go_error option" where
  "ensure_wp_config env w =
     (case le_wp_fault env w of
        Some e \<Rightarrow> (tick w, Some e)
      | None \<Rightarrow> ((tick w)\<lparr>lw_wp := Some (lw_site w)\<rparr>, None))"

definition save_site :: "lan_env \<Rightarrow> lan_world \<Rightarrow> lan_world \<times> storage_error option" where
  "save_site env w =
     (let (s, e, d) = update_site (le_flt env w) (le_now env w) (lw_site w) (lw_db w)
      in ((tick w)\<lparr>lw_site := s, lw_db := d\<rparr>, e))"

definition set_lan_flag :: "bool \<Rightarrow> lan_world \<Rightarrow> lan_world" where
  "set_lan_flag b w = w\<lparr>lw_site := (lw_site w)\<lparr>site_lan_enabled := b\<rparr>\<rparr>"

section \<open>The toggle plan\<close>

definition func_step ::
  "string \<Rightarrow> (ctx \<Rightarrow> 'w \<Rightarrow> 'w \<times> go_error option) option \<Rightarrow> (ctx \<Rightarrow> 'w \<Rightarrow> 'w \<times> go_error option) option \<Rightarrow> 'w step" where
  "func_step label do undo =
     \<lparr>step_name = label,
      step_apply = (\<lambda>c w. case do of None \<Rightarrow> (w, Returned None)
                          | Some f \<Rightarrow> (case f c w of (w', e) \<Rightarrow> (w', Returned e))),
      step_rollback = (\<lambda>c w. case undo of None \<Rightarrow> (w, Returned None)
                             | Some f \<Rightarrow> (case f c w of (w', e) \<Rightarrow> (w', Returned e)))\<rparr>"

definition no_lan_address :: go_error where
  "no_lan_address = ''no usable LAN IPv4 address found; set lan.ip_override in Settings if your network has a non-standard layout''"

definition detect_lan_ip :: "lan_env \<Rightarrow> bool \<Rightarrow> lan_world \<Rightarrow> lan_world \<times> go_error option" where
  "detect_lan_ip env on w =
     (let w = invalidate_lan_ip w
      in if \<not> on then (w, None)
         else (case lan_ip env w of (None, w') \<Rightarrow> (w', Some no_lan_address) | (Some _, w') \<Rightarrow> (w', None)))"

definition apply_lan_state :: "lan_env \<Rightarrow> bool \<Rightarrow> bool \<Rightarrow> lan_world \<Rightarrow> lan_world \<times> go_error option" where
  "apply_lan_state env previous on w =
     (case save_site env (set_lan_flag on w) of
        (w, Some e) \<Rightarrow> (set_lan_flag previous w, Some ''update site row'')
      | (w, None) \<Rightarrow>
          (case ensure_wp_config env w of
             (w, None) \<Rightarrow> (w, None)
           | (w, Some e) \<Rightarrow>
               (let (w, _) = save_site env (set_lan_flag previous w);
                    (w, _) = ensure_wp_config env w
                in (w, Some (''regenerate wp-config: '' @ e)))))"

definition undo_lan_state :: "lan_env \<Rightarrow> bool \<Rightarrow> lan_world \<Rightarrow> lan_world \<times> go_error option" where
  "undo_lan_state env previous w =
     (case save_site env (set_lan_flag previous w) of
        (w, Some e) \<Rightarrow> (w, Some ''update site row'')
      | (w, None) \<Rightarrow> ensure_wp_config env w)"

definition toggle_steps :: "lan_env \<Rightarrow> bool \<Rightarrow> bool \<Rightarrow> lan_world step list" where
  "toggle_steps env previous on =
     [func_step ''detect-lan-ip'' (Some (\<lambda>_. detect_lan_ip env on)) None,
      func_step ''apply-lan-state'' (Some (\<lambda>_. apply_lan_state env previous on))
        (Some (\<lambda>_. undo_lan_state env previous)),
      func_step ''upsert-route'' (Some (\<lambda>_. upsert_route env)) (Some (\<lambda>_. upsert_route env))]"

text \<open>\<^verbatim>\<open>runPlan\<close>: the callbacks log and, at the end, record the activity of the site.\<close>

definition plan_callbacks :: "lan_env \<Rightarrow> site \<Rightarrow> string \<Rightarrow> lan_world callbacks" where
  "plan_callbacks env s plan =
     \<lparr>on_step_start = Some (\<lambda>_ w. (tick w, None)), on_step_done = Some (\<lambda>_ w. (tick w, None)),
      on_plan_done = Some (\<lambda>r w. ((tick w)\<lparr>lw_db := snd (record_activity (le_flt env w) (clock (le_run env) w)
          (le_json_valid env) (le_scrub env) (Some s) plan r (lw_db w))\<rparr>, None))\<rparr>"

definition toggle_plan :: "lan_env \<Rightarrow> bool \<Rightarrow> lan_world \<Rightarrow> run_result \<times> lan_world" where
  "toggle_plan env on w =
     (let name = (if on then ''enable-lan:'' else ''disable-lan:'') @ site_slug (lw_site w)
      in run (le_run env) \<lparr>plan_name = name, plan_steps = toggle_steps env (site_lan_enabled (lw_site w)) on\<rparr>
           (plan_callbacks env (lw_site w) name) w)"

definition run_lan_hook :: "lan_env \<Rightarrow> string \<Rightarrow> lan_world \<Rightarrow> lan_world \<times> go_error option" where
  "run_lan_hook env ev w = (tick w, le_hook env ev w)"

definition toggle_lan :: "lan_env \<Rightarrow> string \<Rightarrow> bool \<Rightarrow> lan_world \<Rightarrow> lan_world \<times> go_error option" where
  "toggle_lan env sid on w =
     (case get_site (le_flt env w) sid (lw_db w) of
        Inl _ \<Rightarrow> (w, Some ''fetch site'')
      | Inr None \<Rightarrow> (w, Some (''site '' @ sid @ '' not found''))
      | Inr (Some s) \<Rightarrow>
          if le_wsl env then (w, Some ''LAN access is not supported on WSL2'')
          else
            (case run_lan_hook env (if on then ''pre-lan-enable'' else ''pre-lan-disable'') (w\<lparr>lw_site := s\<rparr>) of
               (w, Some e) \<Rightarrow> (w, Some e)
             | (w, None) \<Rightarrow>
                 (case toggle_plan env on w of
                    (r, w) \<Rightarrow>
                      (case res_final_error r of
                         Some e \<Rightarrow> (w, Some e)
                       | None \<Rightarrow>
                           run_lan_hook env (if on then ''post-lan-enable'' else ''post-lan-disable'')
                             (w\<lparr>lw_notices := lw_notices w @ [lw_site w]\<rparr>)))))"

definition refresh_lan :: "lan_env \<Rightarrow> string \<Rightarrow> lan_world \<Rightarrow> lan_world \<times> go_error option" where
  "refresh_lan env sid w =
     (case get_site (le_flt env w) sid (lw_db w) of
        Inl _ \<Rightarrow> (w, Some ''fetch site'')
      | Inr None \<Rightarrow> (w, Some (''site '' @ sid @ '' not found''))
      | Inr (Some s) \<Rightarrow>
          if le_wsl env then (w, Some ''LAN access is not supported on WSL2'')
          else if \<not> site_lan_enabled s then (w, Some ''LAN access is not enabled for this site'')
          else
            (case lan_ip env (invalidate_lan_ip (w\<lparr>lw_site := s\<rparr>)) of
               (None, w) \<Rightarrow> (w, Some no_lan_address)
             | (Some _, w) \<Rightarrow>
                 (case ensure_wp_config env w of
                    (w, Some e) \<Rightarrow> (w, Some (''regenerate wp-config: '' @ e))
                  | (w, None) \<Rightarrow>
                      (case upsert_route env w of
                         (w, Some e) \<Rightarrow> (w, Some (''upsert route: '' @ e))
                       | (w, None) \<Rightarrow> (w\<lparr>lw_notices := lw_notices w @ [lw_site w]\<rparr>, None)))))"

definition lan_host_for :: "lan_env \<Rightarrow> site option \<Rightarrow> lan_world \<Rightarrow> string \<times> lan_world" where
  "lan_host_for env so w =
     (case so of None \<Rightarrow> ([], w)
      | Some s \<Rightarrow>
          if \<not> site_lan_enabled s then ([], w)
          else (case lan_ip env w of
                  (None, w') \<Rightarrow> ([], w')
                | (Some ip, w') \<Rightarrow> (lan_host (site_slug s) (Some ip) (effective_lan_domain (le_cfg env)), w')))"

section \<open>What the steps touch\<close>

definition row_flag :: "lan_world \<Rightarrow> bool option" where
  "row_flag w = map_option site_lan_enabled (find (\<lambda>r. site_id r = site_id (lw_site w)) (db_sites (lw_db w)))"

text \<open>What the plan must treat atomically: the flag of the struct and the flag of its row.\<close>

definition lan_state :: "lan_world \<Rightarrow> string \<times> bool \<times> bool option" where
  "lan_state w = (site_id (lw_site w), site_lan_enabled (lw_site w), row_flag w)"

lemma lan_state_cong:
  "lw_site w = lw_site v \<Longrightarrow> db_sites (lw_db w) = db_sites (lw_db v) \<Longrightarrow> lan_state w = lan_state v"
  by (simp add: lan_state_def row_flag_def)

lemma lan_ip_frame: "lan_ip env w = (r, w') \<Longrightarrow> lw_site w' = lw_site w \<and> lw_db w' = lw_db w"
  by (auto simp: lan_ip_def tick_def split: option.splits sum.splits if_splits)

lemma ensure_wp_frame: "ensure_wp_config env w = (w', e) \<Longrightarrow> lw_site w' = lw_site w \<and> lw_db w' = lw_db w"
  by (auto simp: ensure_wp_config_def tick_def split: option.splits)

lemma upsert_route_frame: "upsert_route env w = (w', e) \<Longrightarrow> lw_site w' = lw_site w \<and> lw_db w' = lw_db w"
  by (auto simp: upsert_route_def tick_def Let_def dest!: lan_ip_frame split: option.splits prod.splits if_splits)

lemma detect_frame: "detect_lan_ip env on w = (w', e) \<Longrightarrow> lw_site w' = lw_site w \<and> lw_db w' = lw_db w"
  by (auto simp: detect_lan_ip_def invalidate_lan_ip_def Let_def dest!: lan_ip_frame
      split: option.splits prod.splits if_splits)

lemma append_activity_sites: "db_sites (snd (snd (append_activity flt now js (Some ev) d))) = db_sites d"
proof -
  obtain evo e d' where r: "append_activity flt now js (Some ev) d = (evo, e, d')" by (metis prod_cases3)
  from r have "db_sites d' = db_sites d"
    by (cases rule: append_activity_cases)
      (auto simp: trim_activity_tx_def sql_insert_activity_def split: if_splits)
  with r show ?thesis by simp
qed

lemma record_activity_sites: "db_sites (snd (record_activity flt now js scrub so plan r d)) = db_sites d"
proof (cases so)
  case (Some s)
  obtain evo e d' where a: "append_activity flt now js (Some (activity_row scrub now s plan r)) d = (evo, e, d')"
    by (metis prod_cases3)
  with append_activity_sites [of flt now js "activity_row scrub now s plan r" d] Some show ?thesis
    by (cases e) (simp_all add: record_activity_def)
qed (simp add: record_activity_def)

lemma find_updated:
  "find (\<lambda>r. site_id r = x) (map (\<lambda>r. if site_id r = x then t\<lparr>site_created_at := site_created_at r\<rparr> else r) rs)
    = (if site_id t = x then map_option (\<lambda>r. t\<lparr>site_created_at := site_created_at r\<rparr>) (find (\<lambda>r. site_id r = x) rs)
       else None)"
  by (induction rs) auto

text \<open>Without driver failures, saving writes the flag of the struct to its row, if it has one.\<close>

lemma save_site_state:
  assumes "save_site (env\<lparr>le_flt := \<lambda>_. no_faults\<rparr>) (set_lan_flag b w) = (w', e)"
  shows "e = None" and "lan_state w' = (site_id (lw_site w), b, map_option (\<lambda>_. b) (row_flag w))"
proof -
  let ?s = "mirror_mysql_version ((lw_site w)\<lparr>site_lan_enabled := b, site_updated_at := le_now env (set_lan_flag b w)\<rparr>)"
  have r: "e = None \<and> lw_site w' = ?s \<and> lw_db w' = sql_update_site ?s (lw_db w)"
    using assms by (auto simp: save_site_def update_site_def Let_def set_lan_flag_def tick_def)
  then show "e = None" by simp
  have "find (\<lambda>r. site_id r = site_id ?s) (db_sites (sql_update_site ?s (lw_db w))) =
      map_option (\<lambda>r. ?s\<lparr>site_created_at := site_created_at r\<rparr>)
        (find (\<lambda>r. site_id r = site_id ?s) (db_sites (lw_db w)))"
    unfolding sql_update_site_def using find_updated [of "site_id ?s" ?s "db_sites (lw_db w)"] by simp
  then show "lan_state w' = (site_id (lw_site w), b, map_option (\<lambda>_. b) (row_flag w))"
    using r by (simp add: lan_state_def row_flag_def option.map_comp comp_def)
qed

definition lan_at :: "bool \<Rightarrow> nat \<Rightarrow> lan_world \<Rightarrow> bool" where
  "lan_at previous i w \<longleftrightarrow> (i \<le> 1 \<longrightarrow> site_lan_enabled (lw_site w) = previous \<and> row_flag w = Some previous)"

lemma lan_at_state: "lan_at previous i w \<longleftrightarrow> (i \<le> 1 \<longrightarrow> lan_state w = (site_id (lw_site w), previous, Some previous))"
  by (auto simp: lan_at_def lan_state_def)

lemma lan_at_cong:
  "lw_site w = lw_site v \<Longrightarrow> db_sites (lw_db w) = db_sites (lw_db v) \<Longrightarrow> lan_at previous i w = lan_at previous i v"
  by (simp add: lan_at_def row_flag_def)

abbreviation reliable :: "lan_env \<Rightarrow> lan_env" where "reliable env \<equiv> env\<lparr>le_flt := \<lambda>_. no_faults\<rparr>"

lemma safe_func_step:
  "safe_apply c (func_step n (Some f) u) w = f c w"
  "safe_rollback c (func_step n d (Some g)) w = g c w" "safe_rollback c (func_step n d None) w = (w, None)"
  by (simp_all add: safe_apply_def safe_rollback_def func_step_def split: prod.splits)

lemma apply_state:
  assumes "apply_lan_state (reliable env) previous on w = (w1, e)" and "lan_at previous (Suc 0) w"
  shows "lan_state w1 = (if e = None then (site_id (lw_site w), on, Some on) else lan_state w)"
proof -
  obtain wa ea where a: "save_site (reliable env) (set_lan_flag on w) = (wa, ea)" by (metis surj_pair)
  note sa = save_site_state [OF a]
  have ws: "lan_state w = (site_id (lw_site w), previous, Some previous)" using assms(2) by (simp add: lan_at_state)
  then have sta: "lan_state wa = (site_id (lw_site w), on, Some on)" using sa(2) by (simp add: lan_state_def)
  obtain wb eb where b: "ensure_wp_config (reliable env) wa = (wb, eb)" by (metis surj_pair)
  have stb: "lan_state wb = lan_state wa" using ensure_wp_frame [OF b] by (intro lan_state_cong) simp_all
  show ?thesis
  proof (cases eb)
    case None
    with assms(1) a b sa(1) sta stb show ?thesis by (auto simp: apply_lan_state_def)
  next
    case (Some x)
    obtain wc ec where c: "save_site (reliable env) (set_lan_flag previous wb) = (wc, ec)" by (metis surj_pair)
    obtain wd ed where d: "ensure_wp_config (reliable env) wc = (wd, ed)" by (metis surj_pair)
    have "lan_state wc = (site_id (lw_site w), previous, Some previous)"
      using save_site_state(2) [OF c] sta stb by (simp add: lan_state_def)
    moreover have "lan_state wd = lan_state wc" using ensure_wp_frame [OF d] by (intro lan_state_cong) simp_all
    moreover have "w1 = wd" "e \<noteq> None"
      using assms(1) a b c d sa(1) Some by (auto simp: apply_lan_state_def Let_def)
    ultimately show ?thesis using ws by auto
  qed
qed

lemma undo_state:
  "lan_state v = (i, on, Some on) \<Longrightarrow> lan_state (fst (undo_lan_state (reliable env) previous v)) = (i, previous, Some previous)"
proof -
  assume v: "lan_state v = (i, on, Some on)"
  obtain wa ea where a: "save_site (reliable env) (set_lan_flag previous v) = (wa, ea)" by (metis surj_pair)
  note sa = save_site_state [OF a]
  obtain wb eb where b: "ensure_wp_config (reliable env) wa = (wb, eb)" by (metis surj_pair)
  have "lan_state wb = lan_state wa" using ensure_wp_frame [OF b] by (intro lan_state_cong) simp_all
  then show ?thesis using a b sa v by (simp add: undo_lan_state_def lan_state_def)
qed

section \<open>The toggle plan compensates\<close>

interpretation lan: compensating_steps lan_state "lan_at previous" "toggle_steps (reliable env) previous on"
    "plan_callbacks (reliable env) s plan" for env previous on s plan
proof
  fix i w w1 v e
  let ?steps = "toggle_steps (reliable env) previous on"
  have steps: "?steps ! 0 = func_step ''detect-lan-ip'' (Some (\<lambda>_. detect_lan_ip (reliable env) on)) None"
    "?steps ! 1 = func_step ''apply-lan-state'' (Some (\<lambda>_. apply_lan_state (reliable env) previous on))
        (Some (\<lambda>_. undo_lan_state (reliable env) previous))"
    "?steps ! 2 = func_step ''upsert-route'' (Some (\<lambda>_. upsert_route (reliable env))) (Some (\<lambda>_. upsert_route (reliable env)))"
    "length ?steps = 3"
    by (simp_all add: toggle_steps_def)
  have three: "i < length ?steps \<Longrightarrow> i = 0 \<or> i = 1 \<or> i = 2" by (auto simp: steps(4))
  have at_step: "i < length ?steps \<Longrightarrow> lan_at previous i w \<Longrightarrow> safe_apply Caller (?steps ! i) w = (w1, e) \<Longrightarrow>
      (e = None \<longrightarrow> lan_at previous (Suc i) w1) \<and> (e \<noteq> None \<longrightarrow> lan_state w1 = lan_state w)"
    for e :: "go_error option"
  proof -
    assume a: "i < length ?steps" "lan_at previous i w" "safe_apply Caller (?steps ! i) w = (w1, e)"
    from three [OF a(1)] consider "i = 0" | "i = 1" | "i = 2" by blast
    then show ?thesis
    proof cases
      case 1
      with a(3) have f: "lw_site w1 = lw_site w \<and> lw_db w1 = lw_db w"
        by (simp add: steps safe_func_step) (rule detect_frame)
      with a(2) 1 have "lan_at previous 0 w1" by (simp add: lan_at_cong [of w1 w])
      then show ?thesis using 1 f lan_state_cong [of w1 w] by (simp add: lan_at_def)
    next
      case 2
      with a(2,3) apply_state [of env previous on w w1 e] show ?thesis
        by (simp add: steps safe_func_step lan_at_def del: One_nat_def)
    next
      case 3
      with a(3) have "lw_site w1 = lw_site w \<and> lw_db w1 = lw_db w"
        by (simp add: steps safe_func_step) (rule upsert_route_frame)
      then show ?thesis using 3 lan_state_cong [of w1 w] by (simp add: lan_at_def)
    qed
  qed
  show "i < length ?steps \<Longrightarrow> lan_at previous i w \<Longrightarrow> safe_apply Caller (?steps ! i) w = (w1, None) \<Longrightarrow>
      lan_at previous (Suc i) w1"
    using at_step [of None] by simp
  show "i < length ?steps \<Longrightarrow> lan_at previous i w \<Longrightarrow> safe_apply Caller (?steps ! i) w = (w1, Some e) \<Longrightarrow>
      lan_state w1 = lan_state w"
    using at_step [of "Some e"] by simp
  assume a: "i < length ?steps" "lan_at previous i w" "safe_apply Caller (?steps ! i) w = (w1, None)"
    "lan_state v = lan_state w1"
  from three [OF a(1)] consider "i = 0" | "i = 1" | "i = 2" by blast
  then show "lan_state (fst (safe_rollback Detached (?steps ! i) v)) = lan_state w"
  proof cases
    case 1
    with a(3) have "lw_site w1 = lw_site w \<and> lw_db w1 = lw_db w"
      by (simp add: steps safe_func_step) (rule detect_frame)
    with a(4) 1 lan_state_cong [of w1 w] show ?thesis by (simp add: steps safe_func_step)
  next
    case 2
    with a apply_state [of env previous on w w1 None] have "lan_state v = (site_id (lw_site w), on, Some on)"
      by (simp add: steps safe_func_step del: One_nat_def) (simp add: lan_at_def)
    from undo_state [OF this] 2 a(2) show ?thesis
      by (simp add: steps safe_func_step lan_at_state del: One_nat_def)
  next
    case 3
    with a(3) have "lw_site w1 = lw_site w \<and> lw_db w1 = lw_db w"
      by (simp add: steps safe_func_step) (rule upsert_route_frame)
    moreover obtain v' x where u: "upsert_route (reliable env) v = (v', x)" by (metis surj_pair)
    ultimately show ?thesis
      using upsert_route_frame [OF u] a(4) 3 lan_state_cong [of v' v] lan_state_cong [of w1 w]
      by (simp add: steps safe_func_step)
  qed
next
  fix sr w i res
  show "lan_state (fire (on_step_start (plan_callbacks (reliable env) s plan)) sr w) = lan_state w"
    "lan_state (fire (on_step_done (plan_callbacks (reliable env) s plan)) sr w) = lan_state w"
    "lan_state (fire (on_plan_done (plan_callbacks (reliable env) s plan)) res w) = lan_state w"
    by (rule lan_state_cong; simp add: plan_callbacks_def fire_def tick_def record_activity_sites)+
  show "lan_at previous i w \<Longrightarrow> lan_at previous i (fire (on_step_start (plan_callbacks (reliable env) s plan)) sr w)"
    "lan_at previous i w \<Longrightarrow> lan_at previous i (fire (on_step_done (plan_callbacks (reliable env) s plan)) sr w)"
    by (simp_all add: plan_callbacks_def fire_def tick_def lan_at_def row_flag_def)
qed

section \<open>Properties\<close>


definition sample_lan_env :: "(site_route \<Rightarrow> lan_world \<Rightarrow> go_error option) \<Rightarrow> nat \<Rightarrow> lan_env" where
  "sample_lan_env route_fault cancel_at =
     \<lparr>le_cfg = None, le_detect = (\<lambda>_. Inr [192, 168, 1, 42]), le_wsl = False, le_wp_fault = (\<lambda>_. None),
      le_route_fault = route_fault, le_flt = (\<lambda>_. no_faults), le_hook = (\<lambda>_ _. None), le_now = (\<lambda>_. ''t1''),
      le_run = \<lparr>ctx_err = (\<lambda>w. if cancel_at \<le> lw_tick w then Some ''context canceled'' else None), clock = (\<lambda>_. 0)\<rparr>,
      le_json_valid = (\<lambda>_. True), le_scrub = (\<lambda>x. x)\<rparr>"

definition sample_lan_world :: lan_world where
  "sample_lan_world = \<lparr>lw_site = empty_site\<lparr>site_id := ''s1'', site_slug := ''blog''\<rparr>,
     lw_db = empty_db\<lparr>db_sites := [empty_site\<lparr>site_id := ''s1'', site_slug := ''blog''\<rparr>]\<rparr>,
     lw_ip = None, lw_ip_at = 0, lw_routes = Map.empty, lw_wp = None, lw_notices = [], lw_tick = 0\<rparr>"



text \<open>
  The route is not restored by a cancellation after the last step: rollback runs in reverse, so
  the undo of \<open>upsert-route\<close> runs while the flag is still on and issues the LAN route again. The
  flag ends off, the route keeps the LAN hostname; the comment on that undo assumes the opposite
  order.
\<close>

theorem cancelled_toggle_keeps_lan_route:
  "case toggle_plan (sample_lan_env (\<lambda>_ _. None) 8) True sample_lan_world of (r, w) \<Rightarrow>
     res_final_error r = Some ''context canceled'' \<and> \<not> site_lan_enabled (lw_site w) \<and>
     map_option route_extra_hosts (lw_routes w ''blog'') = Some [''blog.192-168-1-42.sslip.io'']"
  by code_simp

end
