(* ===== verification/Retry.thy ===== *)
theory Retry
  imports Go_Prelude
begin

text \<open>
  Retrying Docker calls: \<^verbatim>\<open>internal/docker/retry.go\<close>. An error of the SDK is its text and what the
  typed checks of the libraries say of it (\<^verbatim>\<open>errdefs.IsConflict\<close>, \<^verbatim>\<open>errdefs.IsNotFound\<close>,
  \<^verbatim>\<open>errors.Is(err, ECONNREFUSED)\<close>, the same for a wrapped \<^verbatim>\<open>net.OpError\<close>). The operation, the
  recovery, the context, the clock and the wait are functions of the world. The log lines and the
  calls are a trace, in the order they happen.
\<close>

section \<open>Classification\<close>

record api_error =
  ae_text :: string
  ae_conflict :: bool
  ae_not_found :: bool
  ae_refused :: bool
  ae_net_refused :: bool

datatype retry_class = RetryNone | RetryBuildKitRace | RetryNameInUse | RetryNetworkExists | RetryDaemonRestart

definition retry_budget_default :: duration where "retry_budget_default = 90 * second"
definition retry_attempts_default :: nat where "retry_attempts_default = 5"
definition retry_backoff_minimum :: duration where "retry_backoff_minimum = 200 * millisecond"
definition retry_backoff_max :: duration where "retry_backoff_max = 30 * second"

lemmas retry_consts = retry_budget_default_def retry_attempts_default_def retry_backoff_minimum_def
  retry_backoff_max_def

definition is_conn_refused :: "api_error \<Rightarrow> bool" where
  "is_conn_refused err =
     (if ae_refused err then True
      else if ae_net_refused err then True
      else let msg = to_lower (ae_text err)
           in contains msg ''connection refused'' \<or> contains msg ''is the docker daemon running'')"

definition classify_conflict :: "string \<Rightarrow> retry_class" where
  "classify_conflict msg =
     (if contains msg ''name'' \<and> contains msg ''already in use''
        \<or> contains msg ''container'' \<and> contains msg ''already exists'' then RetryNameInUse
      else if contains msg ''network'' \<and> contains msg ''already exists''
        \<or> contains msg ''network with name'' then RetryNetworkExists
      else RetryNone)"

definition classify_error :: "api_error option \<Rightarrow> retry_class" where
  "classify_error e =
     (case e of None \<Rightarrow> RetryNone
      | Some err \<Rightarrow>
          (let msg = to_lower (ae_text err)
           in if contains msg ''parent snapshot'' \<and> contains msg ''does not exist'' then RetryBuildKitRace
              else if is_conn_refused err then RetryDaemonRestart
              else if ae_conflict err \<or> contains msg ''conflict'' then classify_conflict msg
              else RetryNone))"

definition is_not_found_like :: "api_error option \<Rightarrow> bool" where
  "is_not_found_like e =
     (case e of None \<Rightarrow> False
      | Some err \<Rightarrow>
          (if ae_not_found err then True
           else let msg = to_lower (ae_text err)
                in contains msg ''no such container'' \<or> contains msg ''no such network''
                 \<or> contains msg ''no such volume'' \<or> contains msg ''no such image''))"

section \<open>The loop\<close>

datatype retry_error = RetryCtx go_error | RetryHard api_error | RetryBuildKit api_error
  | RetryConflict api_error | RetryBudget api_error | RetryMaxAttempts

text \<open>Which errors wrap \<^verbatim>\<open>ErrTransient\<close>, and their text.\<close>

fun wraps_transient :: "retry_error \<Rightarrow> bool" where
  "wraps_transient (RetryCtx e) = False"
| "wraps_transient (RetryHard e) = False"
| "wraps_transient _ = True"

definition err_transient :: string where "err_transient = ''transient docker error''"

fun retry_error_text :: "string \<Rightarrow> retry_error \<Rightarrow> string" where
  "retry_error_text desc (RetryCtx e) = e"
| "retry_error_text desc (RetryHard err) = ae_text err"
| "retry_error_text desc (RetryBuildKit err) =
     desc @ '': '' @ err_transient @ '' (buildkit snapshot race after 3 attempts): '' @ ae_text err"
| "retry_error_text desc (RetryConflict err) = desc @ '': '' @ err_transient @ '': '' @ ae_text err"
| "retry_error_text desc (RetryBudget err) =
     desc @ '': '' @ err_transient @ '': budget exhausted: '' @ ae_text err"
| "retry_error_text desc RetryMaxAttempts =
     desc @ '': '' @ err_transient @ '': max attempts ('' @ itoa (int retry_attempts_default) @ '') reached''"

datatype retry_event = Tried "api_error option" | Recovered retry_class "go_error option"
  | Waiting nat retry_class duration

text \<open>\<open>re_wait\<close> is the second \<^verbatim>\<open>select\<close>: \<open>None\<close> when the timer fires, the context's error otherwise.\<close>

record ('a, 'w) retry_env =
  re_op :: "'w \<Rightarrow> (api_error + 'a) \<times> 'w"
  re_recover :: "(retry_class \<Rightarrow> 'w \<Rightarrow> go_error option \<times> 'w) option"
  re_done :: "'w \<Rightarrow> go_error option"
  re_wait :: "duration \<Rightarrow> 'w \<Rightarrow> go_error option \<times> 'w"
  re_now :: "'w \<Rightarrow> gtime"
  re_deadline :: "gtime option"

text \<open>The per-class shaping: an error that ends the loop, or the next backoff.\<close>

definition shape_retry ::
  "('a, 'w) retry_env \<Rightarrow> retry_class \<Rightarrow> nat \<Rightarrow> duration \<Rightarrow> api_error \<Rightarrow> 'w
    \<Rightarrow> (retry_error + duration) \<times> retry_event list \<times> 'w" where
  "shape_retry env class attempt backoff err w =
     (case class of
        RetryBuildKitRace \<Rightarrow>
          (if 3 \<le> attempt then Inl (RetryBuildKit err) else Inr (50 * millisecond), [], w)
      | RetryDaemonRestart \<Rightarrow>
          (Inr (if 2 * backoff > retry_backoff_max then retry_backoff_max else 2 * backoff), [], w)
      | RetryNone \<Rightarrow> (Inr backoff, [], w)
      | _ \<Rightarrow>
          (let (t, w') = (case re_recover env of None \<Rightarrow> ([], w)
                          | Some f \<Rightarrow> (case f class w of (e, w') \<Rightarrow> ([Recovered class e], w')))
           in (if 1 < attempt then Inl (RetryConflict err) else Inr backoff, t, w')))"

fun retry_loop ::
  "('a, 'w) retry_env \<Rightarrow> gtime \<Rightarrow> nat \<Rightarrow> nat \<Rightarrow> duration \<Rightarrow> 'w
    \<Rightarrow> (retry_error + 'a) \<times> retry_event list \<times> 'w" where
  "retry_loop env deadline 0 attempt backoff w = (Inl RetryMaxAttempts, [], w)"
| "retry_loop env deadline (Suc n) attempt backoff w =
     (case re_done env w of
        Some e \<Rightarrow> (Inl (RetryCtx e), [], w)
      | None \<Rightarrow>
          (case re_op env w of
             (Inr v, w1) \<Rightarrow> (Inr v, [Tried None], w1)
           | (Inl err, w1) \<Rightarrow>
               (let class = classify_error (Some err)
                in if class = RetryNone then (Inl (RetryHard err), [Tried (Some err)], w1)
                   else (case shape_retry env class attempt backoff err w1 of
                           (Inl e, t, w2) \<Rightarrow> (Inl e, Tried (Some err) # t, w2)
                         | (Inr b, t, w2) \<Rightarrow>
                             if deadline < re_now env w2 + b
                             then (Inl (RetryBudget err), Tried (Some err) # t, w2)
                             else (case re_wait env b w2 of
                                     (Some e, w3) \<Rightarrow>
                                       (Inl (RetryCtx e), Tried (Some err) # t @ [Waiting attempt class b], w3)
                                   | (None, w3) \<Rightarrow>
                                       (case retry_loop env deadline n (Suc attempt) b w3 of
                                          (r, t', w') \<Rightarrow>
                                            (r, Tried (Some err) # t @ Waiting attempt class b # t', w')))))))"

definition with_retry :: "('a, 'w) retry_env \<Rightarrow> 'w \<Rightarrow> (retry_error + 'a) \<times> retry_event list \<times> 'w" where
  "with_retry env w =
     (let d0 = re_now env w + retry_budget_default;
          deadline = (case re_deadline env of None \<Rightarrow> d0 | Some d \<Rightarrow> if d < d0 then d else d0)
      in retry_loop env deadline retry_attempts_default 1 retry_backoff_minimum w)"

lemma with_retry_first:
  "re_done env w = None \<Longrightarrow> re_op env w = (Inr v, w') \<Longrightarrow> with_retry env w = (Inr v, [Tried None], w')"
  by (simp add: with_retry_def Let_def retry_attempts_default_def numeral_eq_Suc)

text \<open>\<^verbatim>\<open>withRetryErr\<close>: the same for an operation without a value.\<close>

definition with_retry_err ::
  "(unit, 'w) retry_env \<Rightarrow> 'w \<Rightarrow> retry_error option \<times> retry_event list \<times> 'w" where
  "with_retry_err env w =
     (case with_retry env w of (r, t, w') \<Rightarrow> (case r of Inl e \<Rightarrow> Some e | Inr _ \<Rightarrow> None, t, w'))"

text \<open>
  What every attempt, recovery and wait keeps holds of the loop, and what a successful attempt reaches is reached by a
  loop that succeeds.
\<close>

lemma retry_loop_keeps:
  assumes "\<And>w. I w \<Longrightarrow> case re_op env w of (Inl e, w') \<Rightarrow> I w' | (Inr v, w') \<Rightarrow> Q v w'"
    and "\<And>f class w. re_recover env = Some f \<Longrightarrow> I w \<Longrightarrow> I (snd (f class w))"
    and "\<And>d w. I w \<Longrightarrow> I (snd (re_wait env d w))"
  shows "I w \<Longrightarrow> retry_loop env deadline n attempt b w = (r, t, w') \<Longrightarrow> (case r of Inl e \<Rightarrow> I w' | Inr v \<Rightarrow> Q v w')"
proof (induction n arbitrary: attempt b w r t w')
  case (Suc n)
  obtain x w1 where op: "re_op env w = (x, w1)" by (cases "re_op env w")
  note o = assms(1) [OF Suc.prems(1), unfolded op prod.case]
  show ?case
  proof (cases "re_done env w")
    case None
    show ?thesis
    proof (cases x)
      case (Inl err)
      let ?cl = "classify_error (Some err)"
      obtain y s w2 where sh: "shape_retry env ?cl attempt b err w1 = (y, s, w2)" by (metis prod_cases3)
      have I1: "I w1" using o Inl by simp
      have I2: "I w2" using sh I1 assms(2)
        by (auto simp: shape_retry_def Let_def split: retry_class.splits option.splits prod.splits) (metis snd_conv)+
      show ?thesis
      proof (cases "?cl = RetryNone \<or> (\<exists>e. y = Inl e)")
        case True
        with Suc.prems(2) None op Inl sh I1 I2 show ?thesis by (auto simp: Let_def split: if_splits)
      next
        case False
        then obtain d where y: "y = Inr d" by (cases y) auto
        obtain u w3 where wt: "re_wait env d w2 = (u, w3)" by (cases "re_wait env d w2")
        have I3: "I w3" using assms(3) [OF I2, of d] wt by simp
        obtain r' t' w'' where rec: "retry_loop env deadline n (Suc attempt) d w3 = (r', t', w'')" by (metis prod_cases3)
        from Suc.IH [OF I3 rec] Suc.prems(2) None op Inl sh y wt rec False I2 I3 show ?thesis
          by (auto simp: Let_def split: if_splits option.splits)
      qed
    qed (use Suc.prems(2) None op o in auto)
  qed (use Suc.prems in auto)
qed auto

section \<open>Traces\<close>

fun tried :: "retry_event list \<Rightarrow> api_error option list" where
  "tried [] = []"
| "tried (Tried e # t) = e # tried t"
| "tried (_ # t) = tried t"

fun waited :: "retry_event list \<Rightarrow> duration" where
  "waited [] = 0"
| "waited (Waiting _ _ b # t) = b + waited t"
| "waited (_ # t) = waited t"

lemma tried_append [simp]: "tried (s @ t) = tried s @ tried t"
  by (induction s rule: tried.induct) auto

lemma waited_append [simp]: "waited (s @ t) = waited s + waited t"
  by (induction s rule: waited.induct) auto

lemma shape_retry_cases:
  assumes "shape_retry env class attempt backoff err w = (r, t, w')" and "class \<noteq> RetryNone"
  obtains (stop) "tried t = []" "waited t = 0" "\<exists>e. r = Inl e \<and> e \<in> {RetryBuildKit err, RetryConflict err}"
    | (again) b where "tried t = []" "waited t = 0" "r = Inr b"
      "b = 50 * millisecond \<or> b = backoff \<or> b = min (2 * backoff) retry_backoff_max"
  using assms unfolding shape_retry_def
  by (cases "class") (auto simp: min_def split: if_splits option.splits prod.splits)

section \<open>How often, how long\<close>

text \<open>What is left to wait with \<open>n\<close> attempts when the backoff is \<open>b\<close>: \<open>2b + 4b + \<dots>\<close>.\<close>

fun wait_left :: "nat \<Rightarrow> duration \<Rightarrow> duration" where
  "wait_left 0 b = 0"
| "wait_left (Suc n) b = 2 * b + wait_left n (2 * b)"

lemma wait_left_mono: "b \<le> c \<Longrightarrow> wait_left n b \<le> wait_left n c"
  by (induction n arbitrary: b c) (auto intro: add_mono)

lemma wait_left_nonneg: "0 \<le> b \<Longrightarrow> 0 \<le> wait_left n b"
  by (induction n arbitrary: b) auto

lemma retry_loop_bounds:
  assumes "retry_loop env deadline n attempt backoff w = (r, t, w')" and "50 * millisecond \<le> backoff"
  shows "length (tried t) \<le> n \<and> 0 \<le> waited t \<and> waited t \<le> wait_left n backoff"
  using assms
proof (induction n arbitrary: attempt backoff w r t w')
  case (Suc n)
  have pos: "0 \<le> backoff" and small: "50 * millisecond \<le> 2 * backoff" and m: "(0 :: int) \<le> millisecond"
    using Suc.prems(2) by (auto simp: duration_defs)
  have wl: "0 \<le> 2 * backoff + wait_left n (2 * backoff)" using pos wait_left_nonneg [of "2 * backoff" n] by simp
  show ?case
  proof (cases "re_done env w")
    case (Some e)
    with Suc.prems wl show ?thesis by auto
  next
    case None
    obtain o1 w1 where o1: "re_op env w = (o1, w1)" by (metis surj_pair)
    show ?thesis
    proof (cases o1)
      case (Inr v)
      with Suc.prems None o1 wl show ?thesis by auto
    next
      case (Inl err)
      define c where "c = classify_error (Some err)"
      show ?thesis
      proof (cases "c = RetryNone")
        case True
        with Suc.prems None o1 Inl wl show ?thesis by (auto simp: c_def Let_def)
      next
        case False
        obtain s ts w2 where s: "shape_retry env c attempt backoff err w1 = (s, ts, w2)" by (metis prod_cases3)
        from s False show ?thesis
        proof (cases rule: shape_retry_cases)
          case stop
          with Suc.prems None o1 Inl False s wl show ?thesis by (auto simp: c_def Let_def)
        next
          case (again b)
          then have b: "b \<le> 2 * backoff" "50 * millisecond \<le> b"
            using pos small m Suc.prems(2) by (auto simp: min_def retry_backoff_max_def duration_defs)
          have wb: "wait_left n b \<le> wait_left n (2 * backoff)" using b(1) by (rule wait_left_mono)
          have w0: "0 \<le> wait_left n b" using b m by (intro wait_left_nonneg) linarith
          obtain y w3 where y: "re_wait env b w2 = (y, w3)" by (metis surj_pair)
          obtain r' t' w4 where l: "retry_loop env deadline n (Suc attempt) b w3 = (r', t', w4)"
            by (metis prod_cases3)
          from Suc.IH [OF l b(2)] again b wb w0 wl y l Suc.prems None o1 Inl False s m
          show ?thesis
            by (cases y) (auto simp: c_def [symmetric] Let_def split: if_splits)
        qed
      qed
    qed
  qed
qed auto

text \<open>The shape of a trace: every attempt but the last failed with a retryable error.\<close>

definition transient :: "api_error option \<Rightarrow> bool" where
  "transient e \<longleftrightarrow> e \<noteq> None \<and> classify_error e \<noteq> RetryNone"

fun verdict_fits :: "api_error option list \<Rightarrow> (retry_error + 'a) \<Rightarrow> bool" where
  "verdict_fits es (Inr v) \<longleftrightarrow> es \<noteq> [] \<and> last es = None \<and> list_all transient (butlast es)"
| "verdict_fits es (Inl (RetryHard err)) \<longleftrightarrow>
     es \<noteq> [] \<and> last es = Some err \<and> classify_error (Some err) = RetryNone \<and> list_all transient (butlast es)"
| "verdict_fits es (Inl (RetryCtx e)) \<longleftrightarrow> list_all transient es"
| "verdict_fits es (Inl RetryMaxAttempts) \<longleftrightarrow> list_all transient es"
| "verdict_fits es (Inl (RetryBuildKit err)) \<longleftrightarrow> es \<noteq> [] \<and> last es = Some err \<and> list_all transient es"
| "verdict_fits es (Inl (RetryConflict err)) \<longleftrightarrow> es \<noteq> [] \<and> last es = Some err \<and> list_all transient es"
| "verdict_fits es (Inl (RetryBudget err)) \<longleftrightarrow> es \<noteq> [] \<and> last es = Some err \<and> list_all transient es"

lemma verdict_fits_Cons: "transient e \<Longrightarrow> verdict_fits es r \<Longrightarrow> verdict_fits (e # es) r"
  by (induction es r rule: verdict_fits.induct) auto

lemma retry_loop_verdict:
  "retry_loop env deadline n attempt backoff w = (r, t, w') \<Longrightarrow> verdict_fits (tried t) r"
proof (induction n arbitrary: attempt backoff w r t w')
  case (Suc n)
  show ?case
  proof (cases "re_done env w")
    case (Some e)
    with Suc.prems show ?thesis by auto
  next
    case None
    obtain o1 w1 where o1: "re_op env w = (o1, w1)" by (metis surj_pair)
    show ?thesis
    proof (cases o1)
      case (Inr v)
      with Suc.prems None o1 show ?thesis by auto
    next
      case (Inl err)
      define c where "c = classify_error (Some err)"
      show ?thesis
      proof (cases "c = RetryNone")
        case True
        with Suc.prems None o1 Inl show ?thesis by (auto simp: c_def Let_def)
      next
        case False
        then have tr: "transient (Some err)" by (simp add: transient_def c_def)
        obtain s ts w2 where s: "shape_retry env c attempt backoff err w1 = (s, ts, w2)" by (metis prod_cases3)
        from s False show ?thesis
        proof (cases rule: shape_retry_cases)
          case stop
          with Suc.prems None o1 Inl False s tr show ?thesis by (auto simp: c_def Let_def)
        next
          case (again b)
          obtain y w3 where y: "re_wait env b w2 = (y, w3)" by (metis surj_pair)
          obtain r' t' w4 where l: "retry_loop env deadline n (Suc attempt) b w3 = (r', t', w4)"
            by (metis prod_cases3)
          from verdict_fits_Cons [OF tr Suc.IH [OF l]] again y l Suc.prems None o1 Inl False s tr
          show ?thesis
            by (cases y) (auto simp: c_def [symmetric] Let_def split: if_splits)
        qed
      qed
    qed
  qed
qed auto

text \<open>
  How often an operation that keeps failing the same way is tried, when nobody cancels and the
  deadline is far: the policy of the comments.
\<close>

fun retry_policy :: "retry_class \<Rightarrow> nat" where
  "retry_policy RetryNone = 1"
| "retry_policy RetryBuildKitRace = 3"
| "retry_policy RetryNameInUse = 2"
| "retry_policy RetryNetworkExists = 2"
| "retry_policy RetryDaemonRestart = 5"

definition undisturbed :: "('a, 'w) retry_env \<Rightarrow> bool" where
  "undisturbed env \<longleftrightarrow> (\<forall>w. re_done env w = None) \<and> (\<forall>b w. fst (re_wait env b w) = None) \<and> (\<forall>w. re_now env w = 0)
     \<and> re_deadline env = None"

definition always_fails :: "('a, 'w) retry_env \<Rightarrow> api_error \<Rightarrow> bool" where
  "always_fails env err \<longleftrightarrow> (\<forall>w. fst (re_op env w) = Inl err)"

definition shape_verdict :: "retry_class \<Rightarrow> nat \<Rightarrow> duration \<Rightarrow> api_error \<Rightarrow> retry_error + duration" where
  "shape_verdict c k b err =
     (case c of RetryBuildKitRace \<Rightarrow> if 3 \<le> k then Inl (RetryBuildKit err) else Inr (50 * millisecond)
      | RetryDaemonRestart \<Rightarrow> Inr (min (2 * b) retry_backoff_max)
      | RetryNone \<Rightarrow> Inr b
      | _ \<Rightarrow> if 1 < k then Inl (RetryConflict err) else Inr b)"

lemma fst_shape_retry: "fst (shape_retry env c k b err w) = shape_verdict c k b err"
  by (cases c) (auto simp: shape_retry_def shape_verdict_def min_def split: option.splits prod.splits)

lemma retry_loop_step:
  assumes "undisturbed env" and "always_fails env err" and "c = classify_error (Some err)" and "c \<noteq> RetryNone"
    and "backoff \<le> 10 * second" and run: "retry_loop env retry_budget_default (Suc n) k backoff w = (r, t, w')"
  shows "case shape_verdict c k backoff err of
      Inl e \<Rightarrow> r = Inl e \<and> tried t = [Some err]
    | Inr b \<Rightarrow> \<exists>w3 t'. retry_loop env retry_budget_default n (Suc k) b w3 = (r, t', w') \<and> tried t = Some err # tried t'"
proof -
  obtain w1 where o1: "re_op env w = (Inl err, w1)"
    using assms(2) by (metis always_fails_def prod.collapse)
  obtain s ts w2 where s: "shape_retry env c k backoff err w1 = (s, ts, w2)" by (metis prod_cases3)
  then have sv: "shape_verdict c k backoff err = s" using fst_shape_retry [of env c k backoff err w1] by simp
  have d: "re_done env w = None" "re_now env w2 = 0" using assms(1) by (auto simp: undisturbed_def)
  from s assms(4) show ?thesis
  proof (cases rule: shape_retry_cases)
    case stop
    then show ?thesis using run assms(3,4) o1 d s sv by auto
  next
    case (again b)
    obtain w3 where wt: "re_wait env b w2 = (None, w3)"
      using assms(1) by (metis undisturbed_def prod.collapse)
    from again have "b \<le> retry_budget_default" using assms(5) by (auto simp: retry_consts duration_defs min_def)
    then have "\<not> retry_budget_default < re_now env w2 + b" using d by simp
    with run assms(3,4) o1 d s again(3) wt
    have "\<exists>t'. retry_loop env retry_budget_default n (Suc k) b w3 = (r, t', w') \<and>
        t = Tried (Some err) # ts @ Waiting k c b # t'"
      by (auto simp: Let_def split: prod.splits)
    then obtain t' where "retry_loop env retry_budget_default n (Suc k) b w3 = (r, t', w')"
      "t = Tried (Some err) # ts @ Waiting k c b # t'" by blast
    moreover from this have "tried t = Some err # tried t'" using again(1) by simp
    ultimately show ?thesis using again(3) sv by simp blast
  qed
qed

lemma retry_loop_daemon:
  assumes "undisturbed env" and "always_fails env err" and "classify_error (Some err) = RetryDaemonRestart"
  shows "retry_loop env retry_budget_default n k backoff w = (r, t, w') \<Longrightarrow> 2 ^ n * backoff \<le> 20 * second \<Longrightarrow>
    0 \<le> backoff \<Longrightarrow> r = Inl RetryMaxAttempts \<and> tried t = replicate n (Some err)"
proof (induction n arbitrary: k backoff w t)
  case (Suc n)
  have "1 * backoff \<le> 2 ^ n * backoff" using Suc.prems(3) by (intro mult_right_mono) auto
  moreover have "2 * (2 ^ n * backoff) \<le> 20 * second" using Suc.prems(2) by (simp add: mult.assoc)
  ultimately have small: "backoff \<le> 10 * second" by linarith
  then have "shape_verdict RetryDaemonRestart k backoff err = Inr (2 * backoff)"
    by (auto simp: shape_verdict_def retry_consts duration_defs)
  with retry_loop_step [OF assms(1,2) assms(3) [symmetric] _ small Suc.prems(1)]
  obtain w3 t' where "retry_loop env retry_budget_default n (Suc k) (2 * backoff) w3 = (r, t', w')"
    "tried t = Some err # tried t'" by auto
  then show ?case using Suc.IH [of "Suc k" "2 * backoff" w3 t'] Suc.prems(2,3) by simp
qed simp

lemma with_retry_undisturbed:
  assumes "undisturbed env"
  shows "with_retry env w = retry_loop env retry_budget_default (Suc (Suc (Suc (Suc (Suc 0))))) 1 retry_backoff_minimum w"
  using assms by (simp add: with_retry_def undisturbed_def retry_attempts_default_def numeral_eq_Suc)

lemma retry_small: "retry_backoff_minimum \<le> 10 * second" "50 * millisecond \<le> 10 * second"
  by (simp_all add: retry_consts duration_defs)

section \<open>Properties\<close>

text \<open>
  C30. Retrying is bounded, whatever the operation, the recovery, the context and the clock do: at most
  five attempts, and the pauses between them add up to at most 12.4 seconds, so neither the 30
  second cap of the backoff nor, by waiting alone, the 90 second budget is ever reached.
\<close>

theorem retry_is_bounded:
  "case with_retry env w of (r, t, w') \<Rightarrow>
     length (tried t) \<le> 5 \<and> 0 \<le> waited t \<and> waited t \<le> 12400 * millisecond"
proof -
  obtain r t w' where r: "with_retry env w = (r, t, w')" by (metis prod_cases3)
  then obtain d where "retry_loop env d 5 1 retry_backoff_minimum w = (r, t, w')"
    unfolding with_retry_def retry_attempts_default_def Let_def by blast
  from retry_loop_bounds [OF this] have "length (tried t) \<le> 5 \<and> 0 \<le> waited t
    \<and> waited t \<le> wait_left 5 retry_backoff_minimum"
    by (simp add: retry_consts duration_defs)
  moreover have "wait_left 5 retry_backoff_minimum = 12400 * millisecond"
    by (simp add: retry_consts duration_defs numeral_eq_Suc)
  ultimately show ?thesis using r by simp
qed

text \<open>
  Only transient errors are retried and the answer is that of the last attempt: every attempt
  but the last failed with a retryable error; a value is returned exactly when the last attempt
  gave it, and an error that is not retryable comes back unchanged from the attempt that met it.
\<close>

theorem retry_tries_until_verdict:
  "case with_retry env w of (r, t, w') \<Rightarrow> verdict_fits (tried t) r"
  by (auto simp: with_retry_def Let_def dest: retry_loop_verdict split: prod.splits)

text \<open>
  The retry policy: undisturbed by cancellation and deadline, an operation that keeps failing
  with the same error is tried once for an unknown error, twice for a conflict, three times for
  the BuildKit race and five times for an unreachable daemon, and then the error of that class
  is returned.
\<close>

theorem persistent_error_follows_policy:
  assumes "undisturbed env" and "always_fails env err" and "with_retry env w = (r, t, w')"
  shows "tried t = replicate (retry_policy (classify_error (Some err))) (Some err)
    \<and> r = Inl (case classify_error (Some err) of RetryNone \<Rightarrow> RetryHard err
        | RetryBuildKitRace \<Rightarrow> RetryBuildKit err | RetryDaemonRestart \<Rightarrow> RetryMaxAttempts
        | _ \<Rightarrow> RetryConflict err)"
proof -
  note run = assms(3) [unfolded with_retry_undisturbed [OF assms(1)]]
  note step = retry_loop_step [OF assms(1,2) refl]
  have two: "shape_verdict (classify_error (Some err)) 1 retry_backoff_minimum err = Inr retry_backoff_minimum \<Longrightarrow>
      shape_verdict (classify_error (Some err)) (Suc 1) retry_backoff_minimum err = Inl (RetryConflict err) \<Longrightarrow>
      classify_error (Some err) \<noteq> RetryNone \<Longrightarrow> tried t = [Some err, Some err] \<and> r = Inl (RetryConflict err)"
    using step [OF _ retry_small(1) run] step [OF _ retry_small(1)] by fastforce
  show ?thesis
  proof (cases "classify_error (Some err)")
    case RetryNone
    obtain w1 where "re_op env w = (Inl err, w1)" using assms(2) by (metis always_fails_def prod.collapse)
    moreover have "re_done env w = None" using assms(1) by (simp add: undisturbed_def)
    ultimately show ?thesis using run RetryNone by (auto simp: Let_def)
  next
    case RetryBuildKitRace
    then have v: "shape_verdict (classify_error (Some err)) k b err
        = (if 3 \<le> k then Inl (RetryBuildKit err) else Inr (50 * millisecond))" for k b
      by (simp add: shape_verdict_def)
    have nn: "classify_error (Some err) \<noteq> RetryNone" using RetryBuildKitRace by simp
    from step [OF nn retry_small(1) run] obtain w1 t1 where
      1: "retry_loop env retry_budget_default (Suc (Suc (Suc (Suc 0)))) (Suc 1) (50 * millisecond) w1 = (r, t1, w')"
        "tried t = Some err # tried t1" by (auto simp: v)
    from step [OF nn retry_small(2) 1(1)] obtain w2 t2 where
      2: "retry_loop env retry_budget_default (Suc (Suc (Suc 0))) (Suc (Suc 1)) (50 * millisecond) w2 = (r, t2, w')"
        "tried t1 = Some err # tried t2" by (auto simp: v)
    from step [OF nn retry_small(2) 2(1)] have "r = Inl (RetryBuildKit err) \<and> tried t2 = [Some err]" by (simp add: v)
    with 1(2) 2(2) RetryBuildKitRace show ?thesis by (simp add: numeral_eq_Suc)
  next
    case RetryNameInUse
    with two show ?thesis by (simp add: shape_verdict_def numeral_eq_Suc)
  next
    case RetryNetworkExists
    with two show ?thesis by (simp add: shape_verdict_def numeral_eq_Suc)
  next
    case RetryDaemonRestart
    have "2 ^ Suc (Suc (Suc (Suc (Suc 0)))) * retry_backoff_minimum \<le> 20 * second" "0 \<le> retry_backoff_minimum"
      by (simp_all add: retry_consts duration_defs)
    from retry_loop_daemon [OF assms(1,2) RetryDaemonRestart run this] RetryDaemonRestart show ?thesis
      by (simp add: numeral_eq_Suc)
  qed
qed

definition sample_retry_env :: "string \<Rightarrow> (unit, unit) retry_env" where
  "sample_retry_env msg =
     \<lparr>re_op = (\<lambda>w. (Inl \<lparr>ae_text = msg, ae_conflict = False, ae_not_found = False, ae_refused = False,
        ae_net_refused = False\<rparr>, w)), re_recover = None, re_done = (\<lambda>_. None), re_wait = (\<lambda>_ w. (None, w)),
      re_now = (\<lambda>_. 0), re_deadline = None\<rparr>"

lemma persistent_error_follows_policy_witness:
  "length (tried (fst (snd (with_retry (sample_retry_env ''Conflict. The container name is already in use'') ())))) = 2"
proof -
  let ?m = "''Conflict. The container name is already in use''"
  let ?e = "\<lparr>ae_text = ?m, ae_conflict = False, ae_not_found = False, ae_refused = False, ae_net_refused = False\<rparr>"
  have q: "undisturbed (sample_retry_env ?m)" "always_fails (sample_retry_env ?m) ?e"
    by (simp_all add: sample_retry_env_def undisturbed_def always_fails_def)
  obtain r t w' where r: "with_retry (sample_retry_env ?m) () = (r, t, w')" by (metis prod_cases3)
  note persistent_error_follows_policy [OF q r, THEN conjunct1]
  moreover have "classify_error (Some ?e) = RetryNameInUse" by code_simp
  ultimately show ?thesis using r by simp
qed

end
