(* ===== verification/Platform.thy ===== *)
theory Platform
  imports Go_Net Go_Text
begin

text \<open>
  What is known of the host: \<^verbatim>\<open>internal/platform\<close> (\<^verbatim>\<open>user.go\<close>, \<^verbatim>\<open>paths.go\<close>, the fields of \<^verbatim>\<open>Info\<close> other parts
  read, the WSL signals), the Docker server version of \<^verbatim>\<open>internal/version/images.go\<close> and the provider
  classification of \<^verbatim>\<open>internal/docker/engine_provider.go\<close>. Unicode normalisation (\<^verbatim>\<open>golang.org/x/text\<close>) and the
  tables of \<^verbatim>\<open>unicode\<close> are parameters.
\<close>

section \<open>Usernames\<close>

text \<open>The runes of a string as \<^verbatim>\<open>range\<close> yields them; an invalid byte is U+FFFD.\<close>

definition decode_rune :: "string \<Rightarrow> nat" where
  "decode_rune s =
     (let b = byte_at s; c = (\<lambda>i. byte_at s i mod 64)
      in case utf8_width s of
           0 \<Rightarrow> 65533
         | Suc 0 \<Rightarrow> b 0
         | Suc (Suc 0) \<Rightarrow> (b 0 mod 32) * 64 + c 1
         | Suc (Suc (Suc 0)) \<Rightarrow> (b 0 mod 16) * 4096 + c 1 * 64 + c 2
         | _ \<Rightarrow> (b 0 mod 8) * 262144 + c 1 * 4096 + c 2 * 64 + c 3)"

function runes :: "string \<Rightarrow> nat list" where
  "runes [] = []"
| "runes (c # s) = decode_rune (c # s) # runes (drop (rune_advance (c # s)) (c # s))"
  by pat_completeness auto
termination
  by (relation "measure length") (auto simp: rune_advance_pos)

declare runes.simps(2) [simp del]

text \<open>The parameters: NFKC and NFD, the class Mn, \<^verbatim>\<open>unicode.ToLower\<close>.\<close>

record unicode =
  uc_nfkc :: "string \<Rightarrow> string"
  uc_nfd :: "string \<Rightarrow> string"
  uc_mn :: "nat \<Rightarrow> bool"
  uc_lower :: "nat \<Rightarrow> nat"

definition max_sanitised_username_len :: nat where "max_sanitised_username_len = 32"

definition unicode_space :: "nat \<Rightarrow> bool" where
  "unicode_space r \<longleftrightarrow> 9 \<le> r \<and> r \<le> 13 \<or> 8192 \<le> r \<and> r \<le> 8202 \<or>
     r \<in> {32, 133, 160, 5760, 8232, 8233, 8239, 8287, 12288}"

definition strip_combining :: "unicode \<Rightarrow> string \<Rightarrow> nat list" where
  "strip_combining uc s = filter (\<lambda>r. \<not> uc_mn uc r) (runes (uc_nfd uc s))"

text \<open>Steps 3 to 5, on runes; what is left is ASCII.\<close>

definition dash_rune :: "nat \<Rightarrow> nat" where
  "dash_rune r = (if r = 92 \<or> r = 47 then 45 else if unicode_space r then 45 else r)"

definition dash_separators :: "nat list \<Rightarrow> nat list" where "dash_separators rs = map dash_rune rs"

definition username_rune :: "nat \<Rightarrow> bool" where
  "username_rune r \<longleftrightarrow> 97 \<le> r \<and> r \<le> 122 \<or> 48 \<le> r \<and> r \<le> 57 \<or> r = 46 \<or> r = 45 \<or> r = 95"

definition keep_allowed :: "nat list \<Rightarrow> string" where
  "keep_allowed rs = map char_of (filter username_rune rs)"

fun collapse_from :: "bool \<Rightarrow> string \<Rightarrow> string" where
  "collapse_from prev [] = []"
| "collapse_from prev (c # s) =
     (if c = CHR ''-'' then (if prev then collapse_from prev s else CHR ''-'' # collapse_from True s)
      else c # collapse_from False s)"

definition collapse_dashes :: "string \<Rightarrow> string" where
  "collapse_dashes s = (if \<not> contains s ''--'' then s else collapse_from False s)"

definition dash_or_dot :: "char \<Rightarrow> bool" where "dash_or_dot c \<longleftrightarrow> c = CHR ''-'' \<or> c = CHR ''.''"

text \<open>Cutting to the limit, which may uncover punctuation again.\<close>

definition limit_username :: "string \<Rightarrow> string" where
  "limit_username s =
     (if length s > max_sanitised_username_len
      then trim_right dash_or_dot (take max_sanitised_username_len s) else s)"

text \<open>Step 8: a first byte that is no letter goes behind a prefix; nothing at all becomes the fallback.\<close>

definition prefix_username :: "string \<Rightarrow> string" where
  "prefix_username s = (if s = [] \<or> \<not> is_lower (hd s) then limit_username (''u-'' @ s) else s)"

definition fallback_username :: "string \<Rightarrow> string" where
  "fallback_username s = (if s = [] \<or> s = ''u-'' then ''locorum'' else s)"

definition sanitise_username :: "unicode \<Rightarrow> string \<Rightarrow> string" where
  "sanitise_username uc inp =
     fallback_username (prefix_username (limit_username (trim_right dash_or_dot (trim_left dash_or_dot
       (collapse_dashes (keep_allowed (map (uc_lower uc)
          (dash_separators (strip_combining uc (uc_nfkc uc inp))))))))))"

section \<open>The host\<close>

record wsl_info =
  wi_active :: bool
  wi_distro :: string
  wi_networking :: string
  wi_kernel :: string

record platform_info =
  pi_os :: string
  pi_arch :: string
  pi_wsl :: wsl_info
  pi_username :: string
  pi_uid :: int
  pi_gid :: int
  pi_home :: string
  pi_under_rosetta :: bool
  pi_hostname :: string
  pi_long_paths_enabled :: bool

text \<open>
  What the operating system answers: environment, identifiers, the two files under \<^verbatim>\<open>/proc\<close> when they can
  be read, and the output of \<^verbatim>\<open>wslinfo\<close> when it could be run.
\<close>

record host =
  h_goos :: string
  h_goarch :: string
  h_env :: "string \<Rightarrow> string option"
  h_uid :: int
  h_gid :: int
  h_home :: string
  h_hostname :: string
  h_rosetta :: bool
  h_long_paths :: bool
  h_proc_version :: "string option"
  h_osrelease :: "string option"
  h_wslinfo :: "string option"

definition get_env :: "host \<Rightarrow> string \<Rightarrow> string" where
  "get_env h k = (case h_env h k of None \<Rightarrow> [] | Some v \<Rightarrow> v)"

text \<open>The first element of \<^verbatim>\<open>strings.Fields\<close> of a text that does not begin with a space.\<close>

fun until_space :: "string \<Rightarrow> string" where
  "until_space [] = []"
| "until_space (c # s) = (if strip_prefix space_encodings (c # s) = None then c # until_space s else [])"

definition read_wsl_networking_mode :: "host \<Rightarrow> string" where
  "read_wsl_networking_mode h =
     (case h_wslinfo h of None \<Rightarrow> []
      | Some out \<Rightarrow>
          (let mode = trim_space out
           in if mode \<in> {''nat'', ''mirrored'', ''virtioproxy''} then mode else until_space mode))"

definition wsl_active :: "host \<Rightarrow> bool" where
  "wsl_active h \<longleftrightarrow>
     h_env h ''WSL_INTEROP'' \<noteq> None \<or> get_env h ''WSL_DISTRO_NAME'' \<noteq> [] \<or>
     (case h_proc_version h of None \<Rightarrow> False
      | Some v \<Rightarrow> contains (to_lower v) ''microsoft'' \<or> contains (to_lower v) ''wsl'') \<or>
     (case h_osrelease h of None \<Rightarrow> False
      | Some r \<Rightarrow> suffix ''-wsl2'' (to_lower (trim_space r))
               \<or> suffix ''-microsoft-standard'' (to_lower (trim_space r)))"

definition detect_wsl :: "host \<Rightarrow> wsl_info" where
  "detect_wsl h =
     (if h_goos h \<noteq> ''linux'' then \<lparr>wi_active = False, wi_distro = [], wi_networking = [], wi_kernel = []\<rparr>
      else \<lparr>wi_active = wsl_active h, wi_distro = get_env h ''WSL_DISTRO_NAME'',
            wi_networking = (if wsl_active h then read_wsl_networking_mode h else []),
            wi_kernel = (case h_osrelease h of None \<Rightarrow> [] | Some r \<Rightarrow> trim_space r)\<rparr>)"

definition os_login_name :: "host \<Rightarrow> string" where
  "os_login_name h = first_non_empty (map (get_env h) [''USER'', ''USERNAME'', ''LOGNAME''])"

definition detect :: "unicode \<Rightarrow> host \<Rightarrow> platform_info" where
  "detect uc h =
     \<lparr>pi_os = h_goos h, pi_arch = h_goarch h, pi_wsl = detect_wsl h,
      pi_username = sanitise_username uc (os_login_name h), pi_uid = h_uid h, pi_gid = h_gid h,
      pi_home = h_home h, pi_under_rosetta = h_rosetta h, pi_hostname = h_hostname h,
      pi_long_paths_enabled = h_long_paths h\<rparr>"

text \<open>\<^verbatim>\<open>Init\<close>: the first value stored in the package cache stays; the second result is the cache.\<close>

definition platform_init :: "unicode \<Rightarrow> host \<Rightarrow> platform_info option \<Rightarrow> platform_info \<times> platform_info option" where
  "platform_init uc h cache =
     (case cache of Some i \<Rightarrow> (i, cache) | None \<Rightarrow> (detect uc h, Some (detect uc h)))"

section \<open>Paths\<close>

definition wp_max_plugin_path_suffix :: nat where "wp_max_plugin_path_suffix = 180"
definition windows_max_path :: nat where "windows_max_path = 260"

text \<open>\<^verbatim>\<open>filepath.ToSlash\<close> depends on the operating system the program was built for.\<close>

definition to_slash :: "string \<Rightarrow> string \<Rightarrow> string" where
  "to_slash goos p = (if goos = ''windows'' then map (\<lambda>c. if c = CHR 0x5C then CHR ''/'' else c) p else p)"

definition docker_path :: "string \<Rightarrow> string \<Rightarrow> string" where
  "docker_path goos p =
     (if p = [] then []
      else let out = to_slash goos p
           in if CHR 0x5C \<in> set out then replace_all [CHR 0x5C] ''/'' out else out)"

definition is_long_path :: "string \<Rightarrow> string \<Rightarrow> bool" where
  "is_long_path goos p =
     (if goos \<noteq> ''windows'' then False
      else if p = [] then False
      else length p + 1 + wp_max_plugin_path_suffix > windows_max_path)"

definition long_path_blocking :: "string \<Rightarrow> string \<Rightarrow> platform_info option \<Rightarrow> bool" where
  "long_path_blocking goos p info =
     (case info of None \<Rightarrow> False
      | Some i \<Rightarrow>
          if pi_os i \<noteq> ''windows'' then False
          else if pi_long_paths_enabled i then False
          else is_long_path goos p)"

definition is_mnt_drv_fs_path :: "string \<Rightarrow> string \<Rightarrow> bool" where
  "is_mnt_drv_fs_path goos p =
     (let clean = to_slash goos (to_lower p)
      in if \<not> prefix ''/mnt/'' clean then False
         else let rest = drop (length ''/mnt/'') clean
              in if rest = [] then False
                 else let letter = takeWhile (\<lambda>c. c \<noteq> CHR ''/'') rest
                      in length letter = 1 \<and> is_lower (hd letter))"

definition is_mnt_c :: "string \<Rightarrow> platform_info \<Rightarrow> string \<Rightarrow> bool" where
  "is_mnt_c goos info p = (if \<not> wi_active (pi_wsl info) then False else is_mnt_drv_fs_path goos p)"

section \<open>The Docker server\<close>

record docker_version =
  dv_major :: int
  dv_minor :: int
  dv_patch :: int
  dv_suffix :: string

definition min_supported_major :: int where "min_supported_major = 24"
definition min_supported_minor :: int where "min_supported_minor = 0"

definition zero_version :: docker_version where
  "zero_version = \<lparr>dv_major = 0, dv_minor = 0, dv_patch = 0, dv_suffix = []\<rparr>"

definition version_is_zero :: "docker_version \<Rightarrow> bool" where
  "version_is_zero v \<longleftrightarrow> dv_major v = 0 \<and> dv_minor v = 0 \<and> dv_patch v = 0 \<and> dv_suffix v = []"

definition version_less_than :: "docker_version \<Rightarrow> int \<Rightarrow> int \<Rightarrow> bool" where
  "version_less_than v major minor =
     (if dv_major v \<noteq> major then dv_major v < major else dv_minor v < minor)"

text \<open>\<^verbatim>\<open>strconv.Atoi\<close> of digits with the error ignored: 0 for nothing, the largest \<^verbatim>\<open>int\<close> when out of range.\<close>

definition atoi_or_limit :: "string \<Rightarrow> int" where
  "atoi_or_limit ds =
     (case atoi ds of Some v \<Rightarrow> v | None \<Rightarrow> if ds \<noteq> [] \<and> list_all is_digit ds then 2 ^ 63 - 1 else 0)"

definition version_char :: "char \<Rightarrow> bool" where "version_char c \<longleftrightarrow> is_digit c \<or> c = CHR ''.''"

definition parse_docker_server :: "string \<Rightarrow> docker_version" where
  "parse_docker_server inp =
     (let s = trim_space inp
      in if s = [] then zero_version
         else let num = takeWhile version_char s;
                  parts = split_on CHR ''.'' num
              in \<lparr>dv_major = (if length parts \<ge> 1 then atoi_or_limit (parts ! 0) else 0),
                  dv_minor = (if length parts \<ge> 2 then atoi_or_limit (parts ! 1) else 0),
                  dv_patch = (if length parts \<ge> 3 then atoi_or_limit (parts ! 2) else 0),
                  dv_suffix = dropWhile version_char s\<rparr>)"

definition classify_provider_name :: "string \<Rightarrow> string \<Rightarrow> string" where
  "classify_provider_name daemon os =
     (let l = to_lower os
      in if contains l ''docker desktop'' then ''Docker Desktop''
         else if contains l ''orbstack'' then ''OrbStack''
         else if contains l ''rancher'' then ''Rancher Desktop''
         else if contains l ''colima'' then ''Colima''
         else if contains l ''podman'' then ''Podman''
         else if daemon \<noteq> [] then daemon else ''docker'')"

definition is_docker_desktop :: "string \<Rightarrow> string \<Rightarrow> bool" where
  "is_docker_desktop os name =
     (if contains (to_lower os) ''docker desktop'' then True else contains (to_lower name) ''docker-desktop'')"

fun is_rootless :: "string list \<Rightarrow> bool" where
  "is_rootless [] = False"
| "is_rootless (o1 # os) = (if contains (to_lower o1) ''rootless'' then True else is_rootless os)"

text \<open>\<^verbatim>\<open>ProviderInfo\<close>: the daemon's answer, cached after the first success. The log line is left out.\<close>

record daemon_info =
  di_name :: string
  di_os :: string
  di_os_type :: string
  di_arch :: string
  di_server_version :: string
  di_security :: "string list"
  di_ncpu :: int
  di_mem :: int

record provider =
  pv_name :: string
  pv_os :: string
  pv_os_type :: string
  pv_arch :: string
  pv_server_version :: string
  pv_version :: docker_version
  pv_rootless :: bool
  pv_docker_desktop :: bool
  pv_ncpu :: int
  pv_mem :: int

definition provider_of :: "daemon_info \<Rightarrow> provider" where
  "provider_of i =
     \<lparr>pv_name = classify_provider_name (di_name i) (di_os i), pv_os = di_os i, pv_os_type = di_os_type i,
      pv_arch = di_arch i, pv_server_version = di_server_version i,
      pv_version = parse_docker_server (di_server_version i), pv_rootless = is_rootless (di_security i),
      pv_docker_desktop = is_docker_desktop (di_os i) (di_name i), pv_ncpu = di_ncpu i, pv_mem = di_mem i\<rparr>"

definition provider_info ::
  "(go_error + daemon_info) \<Rightarrow> provider option \<Rightarrow> (go_error + provider) \<times> provider option" where
  "provider_info answer cache =
     (case cache of Some p \<Rightarrow> (Inr p, cache)
      | None \<Rightarrow>
          (case answer of Inl e \<Rightarrow> (Inl (''docker info: '' @ e), None)
           | Inr i \<Rightarrow> (Inr (provider_of i), Some (provider_of i))))"

definition refresh_provider_info :: "provider option \<Rightarrow> provider option" where
  "refresh_provider_info cache = None"

section \<open>Lemmas\<close>

definition username_char :: "char \<Rightarrow> bool" where "username_char c \<longleftrightarrow> username_rune (byte c)"

definition canonical_username :: "string \<Rightarrow> bool" where
  "canonical_username s \<longleftrightarrow>
     s \<noteq> [] \<and> length s \<le> max_sanitised_username_len \<and> is_lower (hd s) \<and> list_all username_char s \<and>
     \<not> contains s ''--'' \<and> \<not> dash_or_dot (last s)"

lemma keep_allowed_chars: "list_all username_char (keep_allowed rs)"
  by (auto simp: keep_allowed_def list_all_iff username_char_def username_rune_def)

lemma collapse_from_no_double:
  "\<not> contains (collapse_from b s) ''--'' \<and> (b \<longrightarrow> collapse_from b s = [] \<or> hd (collapse_from b s) \<noteq> CHR ''-'')"
proof (induction b s rule: collapse_from.induct)
  case (2 b c s)
  then show ?case
    by (cases "collapse_from True s") (auto simp: prefix_Cons)
qed simp

lemma collapse_from_set: "set (collapse_from b s) \<subseteq> set s"
  by (induction b s rule: collapse_from.induct) auto

lemma collapse_dashes_props:
  "\<not> contains (collapse_dashes s) ''--''" "set (collapse_dashes s) \<subseteq> set s"
  using collapse_from_no_double collapse_from_set by (auto simp: collapse_dashes_def)

lemma trim_left_suffix: "suffix (trim_left P s) s"
  by (simp add: trim_left_def suffix_dropWhile)

lemma contains_sublist: "sublist s t \<Longrightarrow> contains s p \<Longrightarrow> contains t p"
  by (simp add: contains_iff)

lemma limit_username_props:
  "prefix (limit_username s) s" "length (limit_username s) \<le> max_sanitised_username_len"
  "s = [] \<or> \<not> dash_or_dot (last s) \<Longrightarrow> limit_username s = [] \<or> \<not> dash_or_dot (last (limit_username s))"
proof -
  show "prefix (limit_username s) s"
    by (auto simp: limit_username_def intro: prefix_order.trans [OF trim_right_prefix take_is_prefix])
  show "length (limit_username s) \<le> max_sanitised_username_len"
    using trim_right_length [of dash_or_dot "take max_sanitised_username_len s"] by (auto simp: limit_username_def)
  show "s = [] \<or> \<not> dash_or_dot (last s) \<Longrightarrow> limit_username s = [] \<or> \<not> dash_or_dot (last (limit_username s))"
    using trim_right_last [of dash_or_dot "take max_sanitised_username_len s"] by (auto simp: limit_username_def)
qed

lemma prefix_keeps:
  assumes "prefix s t"
  shows "list_all P t \<Longrightarrow> list_all P s" "\<not> contains t p \<Longrightarrow> \<not> contains s p" "s \<noteq> [] \<Longrightarrow> hd s = hd t"
  using assms contains_sublist [OF prefix_imp_sublist [OF assms]] by (auto simp: prefix_def)

text \<open>The string after step 7.\<close>

lemma limited_props:
  assumes "list_all username_char s0"
  defines "s \<equiv> limit_username (trim_right dash_or_dot (trim_left dash_or_dot (collapse_dashes s0)))"
  shows "list_all username_char s" "\<not> contains s ''--''" "s \<noteq> [] \<Longrightarrow> \<not> dash_or_dot (hd s) \<and> \<not> dash_or_dot (last s)"
    "length s \<le> max_sanitised_username_len"
proof -
  let ?a = "collapse_dashes s0" and ?b = "trim_left dash_or_dot (collapse_dashes s0)"
  let ?c = "trim_right dash_or_dot ?b"
  have a: "list_all username_char ?a" "\<not> contains ?a ''--''"
    using assms(1) collapse_dashes_props [of s0] by (auto simp: list_all_iff)
  have b: "list_all username_char ?b" "\<not> contains ?b ''--''"
    using a set_mono_suffix [OF trim_left_suffix [of dash_or_dot ?a]]
      contains_sublist [OF suffix_imp_sublist [OF trim_left_suffix]] by (auto simp: list_all_iff)
  have hb: "?b \<noteq> [] \<Longrightarrow> \<not> dash_or_dot (hd ?b)"
    unfolding trim_left_def by (rule hd_dropWhile)
  have c: "list_all username_char ?c" "\<not> contains ?c ''--''" "?c \<noteq> [] \<Longrightarrow> hd ?c = hd ?b"
    using prefix_keeps [OF trim_right_prefix [of dash_or_dot ?b]] b by blast+
  have lc: "?c = [] \<or> \<not> dash_or_dot (last ?c)" using trim_right_last by blast
  have pr: "prefix s ?c" unfolding s_def by (rule limit_username_props)
  show "list_all username_char s" "\<not> contains s ''--''" using prefix_keeps [OF pr] c by blast+
  show "length s \<le> max_sanitised_username_len" unfolding s_def by (rule limit_username_props)
  assume "s \<noteq> []"
  then have cn: "?c \<noteq> []" "hd s = hd ?c" using pr prefix_keeps(3) [OF pr] by auto
  then have bn: "?b \<noteq> []" by auto
  have "\<not> dash_or_dot (hd s)" using cn c(3) hb [OF bn] by simp
  moreover have "\<not> dash_or_dot (last s)"
    using limit_username_props(3) [OF lc] \<open>s \<noteq> []\<close> unfolding s_def by blast
  ultimately show "\<not> dash_or_dot (hd s) \<and> \<not> dash_or_dot (last s)" ..
qed

lemma runes_ascii: "list_all (\<lambda>c. byte c < 128) s \<Longrightarrow> runes s = map of_char s"
proof (induction s)
  case (Cons c s)
  then have w: "utf8_width (c # s) = 1"
    by (simp add: utf8_width_def Let_def byte_at_def lead_width_def)
  then have "decode_rune (c # s) = byte c" by (simp add: decode_rune_def Let_def byte_at_def)
  with Cons w show ?case by (simp add: runes.simps(2) rune_advance_def)
qed simp

definition ascii_lower :: "nat \<Rightarrow> nat" where
  "ascii_lower r = (if 65 \<le> r \<and> r \<le> 90 then r + 32 else r)"

text \<open>What the parameters are documented to do on ASCII text.\<close>

definition ascii_unicode :: "unicode \<Rightarrow> bool" where
  "ascii_unicode uc \<longleftrightarrow>
     (\<forall>s. list_all (\<lambda>c. byte c < 128) s \<longrightarrow> uc_nfkc uc s = s \<and> uc_nfd uc s = s) \<and>
     (\<forall>r < 128. \<not> uc_mn uc r \<and> uc_lower uc r = ascii_lower r)"

lemma username_rune_fixed:
  assumes "username_rune r" and "ascii_unicode uc"
  shows "\<not> uc_mn uc r" "uc_lower uc r = r" "r \<noteq> 92" "r \<noteq> 47" "\<not> unicode_space r" "r < 128"
  using assms by (auto simp: username_rune_def ascii_unicode_def ascii_lower_def unicode_space_def)

section \<open>Properties\<close>

text \<open>
  The contract of \<open>SanitiseUsername\<close>, for every input and whatever normalisation does: the result
  has between 1 and 32 bytes, begins with a lower-case letter, holds only letters, digits, dot,
  dash and underscore, never two dashes in a row, and does not end in a dash or a dot.
\<close>

theorem username_is_canonical: "canonical_username (sanitise_username uc inp)"
proof -
  define s0 where "s0 = keep_allowed (map (uc_lower uc) (dash_separators (strip_combining uc (uc_nfkc uc inp))))"
  define s where "s = limit_username (trim_right dash_or_dot (trim_left dash_or_dot (collapse_dashes s0)))"
  note p = limited_props [of s0, folded s_def, OF keep_allowed_chars [of "map (uc_lower uc)
      (dash_separators (strip_combining uc (uc_nfkc uc inp)))", folded s0_def]]
  define u where "u = limit_username (''u-'' @ s)"
  have eq: "sanitise_username uc inp =
      (let t = if s = [] \<or> \<not> is_lower (hd s) then u else s in if t = [] \<or> t = ''u-'' then ''locorum'' else t)"
    by (simp only: sanitise_username_def fallback_username_def prefix_username_def Let_def s0_def s_def u_def)
  have loc: "canonical_username ''locorum''" by code_simp
  show ?thesis
  proof (cases "s = []")
    case True
    then have "u = ''u-''" by (simp add: u_def limit_username_def max_sanitised_username_len_def)
    with True eq loc show ?thesis by simp
  next
    case False
    note q = p(3) [OF False]
    show ?thesis
    proof (cases "is_lower (hd s)")
      case True
      with False p q eq loc show ?thesis by (auto simp: canonical_username_def)
    next
      case bad: False
      have pr: "prefix u (''u-'' @ s)" unfolding u_def by (rule limit_username_props)
      have "list_all username_char (''u-'' @ s)"
        using p(1) by (simp add: username_char_def username_rune_def)
      moreover have "\<not> contains (''u-'' @ s) ''--''"
        using p(2) q False by (cases s) (auto simp: dash_or_dot_def)
      ultimately have u: "list_all username_char u" "\<not> contains u ''--''" "u \<noteq> [] \<Longrightarrow> hd u = CHR ''u''"
        using prefix_keeps [OF pr] by auto
      have "u = [] \<or> \<not> dash_or_dot (last u)"
        unfolding u_def using q False by (intro limit_username_props) simp
      moreover have "length u \<le> max_sanitised_username_len" unfolding u_def by (rule limit_username_props)
      ultimately have "u \<noteq> [] \<Longrightarrow> canonical_username u"
        using u by (auto simp: canonical_username_def is_lower_def)
      with loc eq bad show ?thesis by (auto simp: Let_def)
    qed
  qed
qed

text \<open>
  \<open>SanitiseUsername\<close> is idempotent, given that normalisation and lower-casing act on ASCII text as
  documented: a name that went through it once is left alone.
\<close>

theorem sanitise_username_idempotent:
  assumes "ascii_unicode uc"
  shows "sanitise_username uc (sanitise_username uc inp) = sanitise_username uc inp"
proof -
  define s where "s = sanitise_username uc inp"
  have c: "canonical_username s" unfolding s_def by (rule username_is_canonical)
  then have ch: "list_all username_char s" by (simp add: canonical_username_def)
  have fixed: "list_all (\<lambda>c. \<not> uc_mn uc (byte c) \<and> uc_lower uc (byte c) = byte c \<and> byte c \<noteq> 92 \<and> byte c \<noteq> 47
      \<and> \<not> unicode_space (byte c) \<and> byte c < 128) s"
    using ch username_rune_fixed [OF _ assms] by (auto simp: list_all_iff username_char_def)
  then have asc: "list_all (\<lambda>c. byte c < 128) s" by (simp add: list_all_iff)
  with assms have "uc_nfkc uc s = s" "uc_nfd uc s = s" by (auto simp: ascii_unicode_def)
  then have 1: "strip_combining uc (uc_nfkc uc s) = map of_char s"
    using fixed by (simp add: strip_combining_def runes_ascii [OF asc] list_all_iff)
  have 2: "dash_separators (map of_char s) = map of_char s"
    using fixed by (auto simp: dash_separators_def dash_rune_def list_all_iff)
  have 3: "map (uc_lower uc) (map of_char s) = map of_char s" using fixed by (simp add: list_all_iff)
  have 4: "keep_allowed (map of_char s) = s"
    using ch by (auto simp: keep_allowed_def username_char_def list_all_iff comp_def filter_map map_idI)
  have 5: "collapse_dashes s = s" using c by (simp add: collapse_dashes_def canonical_username_def)
  have 6: "trim_left dash_or_dot s = s"
    using c by (cases s) (auto simp: trim_left_def canonical_username_def dash_or_dot_def is_lower_def)
  have 7: "trim_right dash_or_dot s = s"
    using c by (intro trim_right_id) (simp add: canonical_username_def)
  have 8: "limit_username s = s" using c by (simp add: limit_username_def canonical_username_def)
  have 9: "s \<noteq> ''u-''" "s \<noteq> []" "is_lower (hd s)" using c by (auto simp: canonical_username_def dash_or_dot_def)
  have "sanitise_username uc s = s"
    by (simp only: sanitise_username_def fallback_username_def prefix_username_def 1 2 3 4 5 6 7 8 9 simp_thms if_False)
  then show ?thesis by (simp add: s_def)
qed

definition plain_unicode :: unicode where
  "plain_unicode = \<lparr>uc_nfkc = (\<lambda>s. s), uc_nfd = (\<lambda>s. s), uc_mn = (\<lambda>_. False), uc_lower = ascii_lower\<rparr>"

lemma sanitise_username_sample: "sanitise_username plain_unicode ''CORP/Jane  Doe.'' = ''corp-jane-doe''"
proof -
  have 1: "strip_combining plain_unicode (uc_nfkc plain_unicode ''CORP/Jane  Doe.'')
      = [67, 79, 82, 80, 47, 74, 97, 110, 101, 32, 32, 68, 111, 101, 46]" by code_simp
  have 2: "dash_separators [67, 79, 82, 80, 47, 74, 97, 110, 101, 32, 32, 68, 111, 101, 46]
      = [67, 79, 82, 80, 45, 74, 97, 110, 101, 45, 45, 68, 111, 101, 46]"
    by (simp add: dash_separators_def dash_rune_def unicode_space_def)
  have 22: "map (uc_lower plain_unicode) [67, 79, 82, 80, 45, 74, 97, 110, 101, 45, 45, 68, 111, 101, 46]
      = [99, 111, 114, 112, 45, 106, 97, 110, 101, 45, 45, 100, 111, 101, 46]" by code_simp
  have 3: "keep_allowed [99, 111, 114, 112, 45, 106, 97, 110, 101, 45, 45, 100, 111, 101, 46] = ''corp-jane--doe.''"
    by code_simp
  have 4: "collapse_dashes ''corp-jane--doe.'' = ''corp-jane-doe.''" by code_simp
  have 5: "trim_left dash_or_dot ''corp-jane-doe.'' = ''corp-jane-doe.''" by code_simp
  have 6: "trim_right dash_or_dot ''corp-jane-doe.'' = ''corp-jane-doe''" by code_simp
  have 7: "limit_username ''corp-jane-doe'' = ''corp-jane-doe''" by code_simp
  have 8: "prefix_username ''corp-jane-doe'' = ''corp-jane-doe''" by code_simp
  have 9: "fallback_username ''corp-jane-doe'' = ''corp-jane-doe''" by code_simp
  show ?thesis by (simp only: sanitise_username_def 1 2 22 3 4 5 6 7 8 9)
qed

lemma sanitise_username_idempotent_witness:
  "sanitise_username plain_unicode (sanitise_username plain_unicode ''CORP/Jane  Doe.'') = ''corp-jane-doe''"
proof -
  have "ascii_unicode plain_unicode" by (simp add: ascii_unicode_def plain_unicode_def)
  from sanitise_username_idempotent [OF this, of "''CORP/Jane  Doe.''"] show ?thesis
    by (simp only: sanitise_username_sample)
qed

text \<open>
  A version the parser cannot read is not recognised as unread: its suffix makes it differ from the zero
  value \<open>IsZero\<close> compares with, although the comment on \<open>ParseDockerServer\<close> says callers can detect
  the failure that way; such a daemon counts as older than the supported minimum.
\<close>

theorem unread_version_is_not_zero:
  "let v = parse_docker_server ''dev''
   in v = zero_version\<lparr>dv_suffix := ''dev''\<rparr> \<and> \<not> version_is_zero v
      \<and> version_less_than v min_supported_major min_supported_minor"
  by code_simp

lemma itoa_digits: "0 \<le> i \<Longrightarrow> itoa i = nat_digits (nat i)"
  by (simp add: itoa_def)

lemma itoa_version_chars: "0 \<le> i \<Longrightarrow> \<forall>c\<in>set (itoa i). version_char c" "0 \<le> i \<Longrightarrow> CHR ''.'' \<notin> set (itoa i)"
  using nat_digits_props [of "nat i"] by (auto simp: itoa_digits list_all_iff version_char_def is_digit_def)

lemma atoi_or_limit_itoa: "0 \<le> i \<Longrightarrow> i < 2 ^ 63 \<Longrightarrow> atoi_or_limit (itoa i) = i"
  using atoi_itoa [of i] by (simp add: atoi_or_limit_def)

text \<open>
  Reading a version back: three numbers in the range of an \<open>int\<close> and any suffix that is not empty, begins
  with neither a digit nor a dot and ends in no white space are what \<open>ParseDockerServer\<close> finds in
  \<open>major.minor.patch\<close> followed by the suffix.
\<close>

theorem docker_version_roundtrip:
  assumes "0 \<le> a" "a < 2 ^ 63" "0 \<le> b" "b < 2 ^ 63" "0 \<le> c" "c < 2 ^ 63"
    and "sfx = [] \<or> \<not> version_char (hd sfx)"
    and "trim_space (itoa a @ ''.'' @ itoa b @ ''.'' @ itoa c @ sfx) = itoa a @ ''.'' @ itoa b @ ''.'' @ itoa c @ sfx"
  shows "parse_docker_server (itoa a @ ''.'' @ itoa b @ ''.'' @ itoa c @ sfx)
    = \<lparr>dv_major = a, dv_minor = b, dv_patch = c, dv_suffix = sfx\<rparr>"
proof -
  let ?num = "itoa a @ ''.'' @ itoa b @ ''.'' @ itoa c"
  have all: "\<forall>x\<in>set ?num. version_char x"
    using itoa_version_chars(1) [OF assms(1)] itoa_version_chars(1) [OF assms(3)] itoa_version_chars(1) [OF assms(5)]
    by (auto simp: version_char_def)
  have "takeWhile version_char (?num @ sfx) = ?num @ takeWhile version_char sfx"
    using all by (intro takeWhile_append2) blast
  moreover have "takeWhile version_char sfx = []" using assms(7) by (cases sfx) auto
  moreover have "dropWhile version_char (?num @ sfx) = dropWhile version_char sfx"
    using all by (intro dropWhile_append2) blast
  moreover have "dropWhile version_char sfx = sfx" using assms(7) by (cases sfx) auto
  moreover have "split_on CHR ''.'' ?num = [itoa a, itoa b, itoa c]"
    using itoa_version_chars(2) [OF assms(1)] itoa_version_chars(2) [OF assms(3)] itoa_version_chars(2) [OF assms(5)]
    by (simp add: split_on_append split_on_free)
  ultimately show ?thesis
    using assms(1-6,8) by (simp add: parse_docker_server_def Let_def atoi_or_limit_itoa itoa_nonempty)
qed

lemma docker_version_roundtrip_witness:
  "parse_docker_server ''25.0.3-rc1'' = \<lparr>dv_major = 25, dv_minor = 0, dv_patch = 3, dv_suffix = ''-rc1''\<rparr>"
proof -
  have n: "itoa 25 = ''25''" "itoa 0 = ''0''" "itoa 3 = ''3''" by code_simp+
  have "trim_space (itoa 25 @ ''.'' @ itoa 0 @ ''.'' @ itoa 3 @ ''-rc1'') = itoa 25 @ ''.'' @ itoa 0 @ ''.'' @ itoa 3 @ ''-rc1''"
    unfolding n by code_simp
  from docker_version_roundtrip [OF _ _ _ _ _ _ _ this] show ?thesis by (simp add: n version_char_def is_digit_def)
qed

end
