(* ===== verification/Health.thy ===== *)
theory Health
  imports Go_Prelude "HOL-Library.Multiset" "HOL-Library.Product_Lexorder"
begin

text \<open>
  System health: the check runner of \<^verbatim>\<open>internal/health/runner.go\<close> with the data of \<^verbatim>\<open>check.go\<close>. The checks
  of a batch run in goroutines and their results arrive in any order, each at most once, and not at all
  when the context ends first; a batch is therefore a function of the list of arrivals. An
  action's function is not compared by anything and is left out of the finding. Loads and stores of
  the published snapshot are separate atomic steps at the end of the theory, where batches interleave.
\<close>

section \<open>Findings and snapshots\<close>

definition severity_info :: int where "severity_info = 1"
definition severity_warn :: int where "severity_warn = 2"
definition severity_blocker :: int where "severity_blocker = 3"

lemmas severity_defs = severity_info_def severity_warn_def severity_blocker_def

definition severity_string :: "int \<Rightarrow> string" where
  "severity_string s =
     (if s = severity_info then ''info'' else if s = severity_warn then ''warn''
      else if s = severity_blocker then ''blocker'' else ''unknown'')"

record finding =
  f_id :: string
  f_severity :: int
  f_dedup :: string
  f_title :: string
  f_detail :: string
  f_remediation :: string
  f_help_url :: string
  f_action :: "(string \<times> duration) option"
  f_detected :: gtime
  f_stale :: bool

definition new_finding :: "string \<Rightarrow> int \<Rightarrow> string \<Rightarrow> string \<Rightarrow> string \<Rightarrow> finding" where
  "new_finding i sev title detail remedy =
     \<lparr>f_id = i, f_severity = sev, f_dedup = [], f_title = title, f_detail = detail, f_remediation = remedy,
      f_help_url = [], f_action = None, f_detected = zero_time, f_stale = False\<rparr>"

record snapshot =
  sn_findings :: "finding list"
  sn_last_run :: gtime
  sn_running :: bool
  sn_generation :: nat

definition empty_snapshot :: snapshot where
  "empty_snapshot = \<lparr>sn_findings = [], sn_last_run = zero_time, sn_running = False, sn_generation = 0\<rparr>"

fun has_finding :: "string \<Rightarrow> finding list \<Rightarrow> bool" where
  "has_finding i [] = False"
| "has_finding i (f # fs) = (if f_id f = i then True else has_finding i fs)"

definition snapshot_has :: "snapshot option \<Rightarrow> string \<Rightarrow> bool" where
  "snapshot_has s i = (case s of None \<Rightarrow> False | Some sn \<Rightarrow> has_finding i (sn_findings sn))"

definition highest_severity :: "snapshot option \<Rightarrow> int" where
  "highest_severity s =
     (case s of None \<Rightarrow> 0
      | Some sn \<Rightarrow> foldl (\<lambda>worst f. if f_severity f > worst then f_severity f else worst) 0 (sn_findings sn))"

definition count_at :: "snapshot option \<Rightarrow> int \<Rightarrow> nat" where
  "count_at s level =
     (case s of None \<Rightarrow> 0
      | Some sn \<Rightarrow> foldl (\<lambda>n f. if f_severity f = level then n + 1 else n) 0 (sn_findings sn))"

definition finding_key :: "finding \<Rightarrow> string" where
  "finding_key f = f_id f @ ''|'' @ severity_string (f_severity f) @ ''|'' @ f_dedup f"

section \<open>The runner's state\<close>

definition default_min_cadence :: duration where "default_min_cadence = 5 * minute"
definition default_budget :: duration where "default_budget = 5 * second"
definition suspend_budget_trips :: nat where "suspend_budget_trips = 3"

record runner =
  rn_min_cadence :: duration
  rn_first_seen :: "string \<rightharpoonup> gtime"
  rn_budget_trips :: "string \<rightharpoonup> nat"
  rn_next_run_at :: "string \<rightharpoonup> gtime"
  rn_snap :: snapshot
  rn_subscribers :: "nat option list"
  rn_notified :: "(nat \<times> snapshot) list"

definition new_runner :: "duration \<Rightarrow> runner" where
  "new_runner cadence =
     \<lparr>rn_min_cadence = (if cadence \<le> 0 then default_min_cadence else cadence), rn_first_seen = Map.empty,
      rn_budget_trips = Map.empty, rn_next_run_at = Map.empty, rn_snap = empty_snapshot,
      rn_subscribers = [], rn_notified = []\<rparr>"

text \<open>A subscriber is the number of its callback; the second result of \<open>subscribe\<close> is what detaches it.\<close>

definition subscribe :: "nat \<Rightarrow> runner \<Rightarrow> runner \<times> nat" where
  "subscribe fn r = (r\<lparr>rn_subscribers := rn_subscribers r @ [Some fn]\<rparr>, length (rn_subscribers r))"

definition unsubscribe :: "nat \<Rightarrow> runner \<Rightarrow> runner" where
  "unsubscribe idx r =
     (if idx \<ge> length (rn_subscribers r) then r
      else r\<lparr>rn_subscribers := (rn_subscribers r)[idx := None]\<rparr>)"

definition notify_subscribers :: "snapshot \<Rightarrow> runner \<Rightarrow> runner" where
  "notify_subscribers s r =
     r\<lparr>rn_notified := rn_notified r @ map (\<lambda>fn. (fn, s)) (List.map_filter id (rn_subscribers r))\<rparr>"

definition publish_running :: "bool \<Rightarrow> runner \<Rightarrow> runner" where
  "publish_running b r =
     (let cp = (rn_snap r)\<lparr>sn_running := b\<rparr> in notify_subscribers cp (r\<lparr>rn_snap := cp\<rparr>))"

definition suspended_until :: "runner \<Rightarrow> string \<Rightarrow> gtime" where
  "suspended_until r i = (case rn_next_run_at r i of None \<Rightarrow> zero_time | Some t \<Rightarrow> t)"

definition record_budget :: "gtime \<Rightarrow> string \<Rightarrow> bool \<Rightarrow> runner \<Rightarrow> runner" where
  "record_budget now i over r =
     (if \<not> over then r\<lparr>rn_budget_trips := (rn_budget_trips r)(i := None)\<rparr>
      else let n = (case rn_budget_trips r i of None \<Rightarrow> 0 | Some k \<Rightarrow> k) + 1
           in if suspend_budget_trips \<le> n
              then r\<lparr>rn_next_run_at := (rn_next_run_at r)(i \<mapsto> now + rn_min_cadence r),
                     rn_budget_trips := (rn_budget_trips r)(i \<mapsto> 0)\<rparr>
              else r\<lparr>rn_budget_trips := (rn_budget_trips r)(i \<mapsto> n)\<rparr>)"

section \<open>A batch\<close>

record check =
  ck_id :: string
  ck_budget :: duration

text \<open>
  What \<^verbatim>\<open>Run\<close> returned: findings with an error option (its text, and whether it is the deadline),
  or a panic with the text of its value.
\<close>

datatype check_outcome = Ran "finding list" "(string \<times> bool) option" | CheckPanic string

record arrival =
  ar_check :: check
  ar_outcome :: check_outcome
  ar_dur :: duration
  ar_at :: gtime

fun safe_run :: "check_outcome \<Rightarrow> finding list \<times> (string \<times> bool) option" where
  "safe_run (Ran out err) = (out, err)"
| "safe_run (CheckPanic rec) = ([], Some (''panic: '' @ rec, False))"

definition budget_of :: "check \<Rightarrow> duration" where
  "budget_of c = (if ck_budget c \<le> 0 then default_budget else ck_budget c)"

definition over_budget :: "arrival \<Rightarrow> bool" where
  "over_budget a =
     ((case snd (safe_run (ar_outcome a)) of None \<Rightarrow> False | Some (_, deadline) \<Rightarrow> deadline)
      \<or> ar_dur a > budget_of (ar_check a))"

definition due_checks :: "runner \<Rightarrow> gtime \<Rightarrow> check list \<Rightarrow> check list" where
  "due_checks r now cs = filter (\<lambda>c. \<not> suspended_until r (ck_id c) > now) cs"

text \<open>\<open>quote\<close> is the \<^verbatim>\<open>%q\<close> verb, used in the title of a failed check only.\<close>

definition result_findings :: "(string \<Rightarrow> string) \<Rightarrow> arrival \<Rightarrow> finding list" where
  "result_findings quote a =
     (case safe_run (ar_outcome a) of
        (out, Some (e, _)) \<Rightarrow>
          [(new_finding ''check-failed'' severity_warn
             (''Health check '' @ quote (ck_id (ar_check a)) @ '' failed'') e
             ''Check the application logs and re-run.'')\<lparr>f_dedup := ck_id (ar_check a)\<rparr>]
      | (out, None) \<Rightarrow> map (\<lambda>f. if over_budget a then f\<lparr>f_stale := True\<rparr> else f) out)"

fun collate :: "(string \<Rightarrow> string) \<Rightarrow> arrival list \<Rightarrow> runner \<Rightarrow> finding list \<Rightarrow> runner \<times> finding list" where
  "collate quote [] r acc = (r, acc)"
| "collate quote (a # as) r acc =
     collate quote as (record_budget (ar_at a) (ck_id (ar_check a)) (over_budget a) r)
       (acc @ result_findings quote a)"

text \<open>The first loop of \<^verbatim>\<open>publish\<close>: the time of the first observation, kept or minted.\<close>

fun date_findings ::
  "gtime \<Rightarrow> finding list \<Rightarrow> (string \<rightharpoonup> gtime) \<Rightarrow> finding list \<times> (string \<rightharpoonup> gtime)" where
  "date_findings now [] seen = ([], seen)"
| "date_findings now (f # fs) seen =
     (case seen (finding_key f) of
        Some first \<Rightarrow>
          (case date_findings now fs seen of (gs, seen') \<Rightarrow> (f\<lparr>f_detected := first\<rparr> # gs, seen'))
      | None \<Rightarrow>
          (case date_findings now fs (seen(finding_key f \<mapsto> now)) of
             (gs, seen') \<Rightarrow> (f\<lparr>f_detected := now\<rparr> # gs, seen')))"

definition finding_order :: "finding \<Rightarrow> int \<times> string \<times> string" where
  "finding_order f = (- f_severity f, f_id f, f_dedup f)"

definition publish :: "gtime \<Rightarrow> finding list \<Rightarrow> runner \<Rightarrow> runner" where
  "publish now collected r =
     (case date_findings now collected (rn_first_seen r) of
        (dated, seen) \<Rightarrow>
          let present = finding_key ` set collected;
              nxt = \<lparr>sn_findings = sort_key finding_order dated, sn_last_run = now, sn_running = False,
                     sn_generation = sn_generation (rn_snap r) + 1\<rparr>
          in notify_subscribers nxt (r\<lparr>rn_first_seen := seen |` present, rn_snap := nxt\<rparr>))"

definition run_batch :: "(string \<Rightarrow> string) \<Rightarrow> gtime \<Rightarrow> arrival list \<Rightarrow> runner \<Rightarrow> runner" where
  "run_batch quote now as r =
     (case collate quote as (publish_running True r) [] of
        (r1, collected) \<Rightarrow> publish_running False (publish now collected r1))"

definition run_now :: "(string \<Rightarrow> string) \<Rightarrow> gtime \<Rightarrow> arrival list \<Rightarrow> runner \<Rightarrow> runner \<times> snapshot" where
  "run_now quote now as r = (let r' = run_batch quote now as r in (r', rn_snap r'))"

text \<open>The arrivals a batch can have: results of due checks, each at most once.\<close>

definition batch_arrivals :: "runner \<Rightarrow> gtime \<Rightarrow> check list \<Rightarrow> arrival list \<Rightarrow> bool" where
  "batch_arrivals r now cs as \<longleftrightarrow> mset (map ar_check as) \<subseteq># mset (due_checks r now cs)"

section \<open>Lemmas\<close>

lemma notify_simps [simp]:
  "rn_snap (notify_subscribers s r) = rn_snap r" "rn_first_seen (notify_subscribers s r) = rn_first_seen r"
  "rn_budget_trips (notify_subscribers s r) = rn_budget_trips r"
  "rn_next_run_at (notify_subscribers s r) = rn_next_run_at r"
  "rn_min_cadence (notify_subscribers s r) = rn_min_cadence r"
  by (simp_all add: notify_subscribers_def)

lemma publish_running_simps [simp]:
  "rn_snap (publish_running b r) = (rn_snap r)\<lparr>sn_running := b\<rparr>"
  "rn_first_seen (publish_running b r) = rn_first_seen r"
  by (simp_all add: publish_running_def Let_def)

lemma record_budget_simps [simp]:
  "rn_snap (record_budget t i b r) = rn_snap r" "rn_first_seen (record_budget t i b r) = rn_first_seen r"
  "rn_min_cadence (record_budget t i b r) = rn_min_cadence r"
  by (simp_all add: record_budget_def Let_def)

definition batch_findings :: "(string \<Rightarrow> string) \<Rightarrow> arrival list \<Rightarrow> finding list" where
  "batch_findings quote as = concat (map (result_findings quote) as)"

lemma collate_eq:
  "collate quote as r acc = (r', fs) \<Longrightarrow>
     fs = acc @ batch_findings quote as \<and> rn_snap r' = rn_snap r \<and> rn_first_seen r' = rn_first_seen r"
  by (induction as arbitrary: r acc) (fastforce simp: batch_findings_def)+

definition date_of :: "gtime \<Rightarrow> (string \<rightharpoonup> gtime) \<Rightarrow> finding \<Rightarrow> gtime" where
  "date_of now seen f = (case seen (finding_key f) of None \<Rightarrow> now | Some t \<Rightarrow> t)"

definition dated :: "gtime \<Rightarrow> (string \<rightharpoonup> gtime) \<Rightarrow> finding \<Rightarrow> finding" where
  "dated now seen f = f\<lparr>f_detected := date_of now seen f\<rparr>"

definition seen_after :: "gtime \<Rightarrow> (string \<rightharpoonup> gtime) \<Rightarrow> string set \<Rightarrow> string \<rightharpoonup> gtime" where
  "seen_after now seen ks k = (if k \<in> ks then Some (case seen k of None \<Rightarrow> now | Some t \<Rightarrow> t) else None)"

lemma date_findings_eq:
  "date_findings now fs seen =
     (map (dated now seen) fs,
      \<lambda>k. if k \<in> finding_key ` set fs then seen_after now seen (finding_key ` set fs) k else seen k)"
proof (induction fs arbitrary: seen)
  case (Cons f fs)
  show ?case
  proof (cases "seen (finding_key f)")
    case None
    let ?seen = "seen(finding_key f \<mapsto> now)"
    have "dated now ?seen = dated now seen" using None by (simp add: dated_def date_of_def fun_eq_iff)
    then have "date_findings now (f # fs) seen = (f\<lparr>f_detected := now\<rparr> # map (dated now seen) fs,
        \<lambda>k. if k \<in> finding_key ` set fs then seen_after now ?seen (finding_key ` set fs) k else ?seen k)"
      using None by (simp add: Cons.IH [of ?seen] del: fun_upd_apply)
    moreover have "f\<lparr>f_detected := now\<rparr> = dated now seen f" using None by (simp add: dated_def date_of_def)
    ultimately show ?thesis using None by (auto simp: seen_after_def fun_eq_iff)
  next
    case (Some t)
    with Cons.IH [of seen] show ?thesis
      by (auto simp: dated_def date_of_def seen_after_def fun_eq_iff)
  qed
qed simp

lemma finding_order_dated [simp]: "finding_order (dated now seen f) = finding_order f"
  by (simp add: finding_order_def dated_def)

lemma finding_key_dated [simp]: "finding_key (dated now seen f) = finding_key f"
  by (simp add: finding_key_def dated_def)

lemma publish_eq:
  "rn_snap (publish now fs r) =
     \<lparr>sn_findings = sort_key finding_order (map (dated now (rn_first_seen r)) fs), sn_last_run = now,
      sn_running = False, sn_generation = sn_generation (rn_snap r) + 1\<rparr>"
  "rn_first_seen (publish now fs r) = seen_after now (rn_first_seen r) (finding_key ` set fs)"
  by (auto simp: publish_def Let_def date_findings_eq restrict_map_def seen_after_def fun_eq_iff split: prod.splits)

lemma run_batch_eq:
  "rn_snap (run_batch quote now as r) =
     \<lparr>sn_findings = sort_key finding_order (map (dated now (rn_first_seen r)) (batch_findings quote as)),
      sn_last_run = now, sn_running = False, sn_generation = sn_generation (rn_snap r) + 1\<rparr>"
  "rn_first_seen (run_batch quote now as r) =
     seen_after now (rn_first_seen r) (finding_key ` set (batch_findings quote as))"
proof -
  obtain r1 fs where c: "collate quote as (publish_running True r) [] = (r1, fs)" by (metis surj_pair)
  from collate_eq [OF c] show
    "rn_snap (run_batch quote now as r) =
     \<lparr>sn_findings = sort_key finding_order (map (dated now (rn_first_seen r)) (batch_findings quote as)),
      sn_last_run = now, sn_running = False, sn_generation = sn_generation (rn_snap r) + 1\<rparr>"
    "rn_first_seen (run_batch quote now as r) =
     seen_after now (rn_first_seen r) (finding_key ` set (batch_findings quote as))"
    by (simp_all add: run_batch_def c publish_eq)
qed

lemma sort_key_permuted:
  "mset xs = mset ys \<Longrightarrow> distinct (map f xs) \<Longrightarrow> sort_key f xs = sort_key f ys"
  by (intro sort_key_inj_key_eq) (simp_all add: distinct_map)

lemma mset_batch_findings:
  "mset (batch_findings quote as) = sum_mset (image_mset (\<lambda>a. mset (result_findings quote a)) (mset as))"
  by (induction as) (auto simp: batch_findings_def)

section \<open>Histories\<close>

definition run_batches :: "(string \<Rightarrow> string) \<Rightarrow> (gtime \<times> arrival list) list \<Rightarrow> runner \<Rightarrow> runner" where
  "run_batches quote bs r = foldl (\<lambda>r (now, as). run_batch quote now as r) r bs"

definition batch_keys :: "(string \<Rightarrow> string) \<Rightarrow> arrival list \<Rightarrow> string set" where
  "batch_keys quote as = finding_key ` set (batch_findings quote as)"

text \<open>The batches, latest first, that reported \<open>k\<close> without interruption up to the last one.\<close>

definition streak :: "(string \<Rightarrow> string) \<Rightarrow> (gtime \<times> arrival list) list \<Rightarrow> string \<Rightarrow> (gtime \<times> arrival list) list" where
  "streak quote bs k = takeWhile (\<lambda>(_, as). k \<in> batch_keys quote as) (rev bs)"

lemma streak_snoc:
  "streak quote (bs @ [(now, as)]) k = (if k \<in> batch_keys quote as then (now, as) # streak quote bs k else [])"
  by (simp add: streak_def)

definition over_streak :: "(gtime \<times> bool) list \<Rightarrow> nat" where
  "over_streak hist = length (takeWhile snd (rev hist))"

lemma over_streak_snoc: "over_streak (hist @ [(t, over)]) = (if over then Suc (over_streak hist) else 0)"
  by (simp add: over_streak_def)

definition budget_run :: "string \<Rightarrow> (gtime \<times> bool) list \<Rightarrow> runner \<Rightarrow> runner" where
  "budget_run i hist r = foldl (\<lambda>r (t, over). record_budget t i over r) r hist"

lemma budget_trips_streak:
  assumes "rn_budget_trips r i = None"
  shows "rn_budget_trips (budget_run i hist r) i = (if over_streak hist = 0 then None else Some (over_streak hist mod 3))"
proof (induction hist rule: rev_induct)
  case Nil
  with assms show ?case by (simp add: budget_run_def over_streak_def)
next
  case (snoc x hist)
  obtain t over where x: "x = (t, over)" by (cases x)
  have s: "Suc (n mod 3) mod 3 = Suc n mod 3" for n :: nat by presburger
  have m: "n mod 3 < 3" for n :: nat by simp
  have "3 \<le> Suc (n mod 3) \<Longrightarrow> Suc n mod 3 = 0" "\<not> 3 \<le> Suc (n mod 3) \<Longrightarrow> Suc n mod 3 = Suc (n mod 3)" for n :: nat
    by presburger+
  with snoc show ?case
    by (auto simp: x budget_run_def record_budget_def Let_def over_streak_snoc suspend_budget_trips_def)
qed

section \<open>Properties\<close>

text \<open>
  C21. What a batch publishes: whatever order the results arrive in, the snapshot's findings are sorted
  by severity, id and discriminator, they are exactly the findings of the results (a failed
  check as its \<open>check-failed\<close> finding), each dated by its first observation, the generation grows by
  one, and the memory of first observations holds the keys of this batch and no others.
\<close>

theorem batch_publishes:
  "let r' = run_batch quote now as r; sn = rn_snap r'; fs = batch_findings quote as
   in sorted_wrt (\<lambda>f g. f_severity g < f_severity f \<or> f_severity f = f_severity g \<and>
        (f_id f < f_id g \<or> f_id f = f_id g \<and> f_dedup f \<le> f_dedup g)) (sn_findings sn) \<and>
      mset (sn_findings sn) = mset (map (dated now (rn_first_seen r)) fs) \<and>
      sn_generation sn = sn_generation (rn_snap r) + 1 \<and> \<not> sn_running sn \<and> sn_last_run sn = now \<and>
      dom (rn_first_seen r') = finding_key ` set fs"
proof -
  let ?before = "\<lambda>f g. f_severity g < f_severity f \<or> f_severity f = f_severity g \<and>
    (f_id f < f_id g \<or> f_id f = f_id g \<and> f_dedup f \<le> f_dedup g)"
  have ordered: "sorted_wrt ?before (sort_key finding_order fs)" for fs
    using sorted_sort_key [of finding_order fs] unfolding sorted_map
    by (rule sorted_wrt_mono_rel [rotated]) (auto simp: finding_order_def less_eq_prod_def)
  show ?thesis
    by (auto simp: Let_def run_batch_eq ordered seen_after_def dom_def split: if_splits)
qed

text \<open>
  Concurrency does not show: when no two findings of a batch share severity, id and
  discriminator, the snapshot and the first observations are the same for every order in which the
  goroutines deliver.
\<close>

theorem batch_order_irrelevant:
  assumes "mset as = mset as'" and "distinct (map finding_order (batch_findings quote as))"
  shows "rn_snap (run_batch quote now as r) = rn_snap (run_batch quote now as' r)
    \<and> rn_first_seen (run_batch quote now as r) = rn_first_seen (run_batch quote now as' r)"
proof -
  have m: "mset (batch_findings quote as) = mset (batch_findings quote as')"
    using assms(1) by (simp add: mset_batch_findings)
  have "mset (map (dated now (rn_first_seen r)) (batch_findings quote as))
      = mset (map (dated now (rn_first_seen r)) (batch_findings quote as'))"
    using m by (metis mset_map)
  from sort_key_permuted [OF this, of finding_order] assms(2) show ?thesis
    using mset_eq_setD [OF m] by (simp add: run_batch_eq comp_def)
qed

text \<open>
  The date of a finding is the batch that began the streak it is still in: over any history of
  batches of a new runner, a key is remembered exactly when the last batch reported it, with the
  time of the first batch of its uninterrupted run, so detail churn and reordering never re-mint it.
\<close>

theorem first_seen_is_streak_start:
  "rn_first_seen (run_batches quote bs (new_runner cadence)) k =
     (if streak quote bs k = [] then None else Some (fst (last (streak quote bs k))))"
proof (induction bs rule: rev_induct)
  case Nil
  show ?case by (simp add: run_batches_def new_runner_def streak_def)
next
  case (snoc b bs)
  obtain now as where b: "b = (now, as)" by (cases b)
  have "rn_first_seen (run_batches quote (bs @ [b]) (new_runner cadence)) k =
      seen_after now (rn_first_seen (run_batches quote bs (new_runner cadence))) (batch_keys quote as) k"
    by (simp add: run_batches_def b run_batch_eq batch_keys_def)
  with snoc.IH show ?case by (simp add: seen_after_def streak_snoc b)
qed

text \<open>
  Suspension: a check is suspended by its third consecutive run over budget, and then by every
  third more; a run within budget starts the count again; and a suspension ends one cadence after
  it was imposed.
\<close>

theorem suspension_after_three_trips:
  assumes "rn_budget_trips r i = None"
  shows "rn_next_run_at (budget_run i (hist @ [(t, over)]) r) i =
     (if over \<and> Suc (over_streak hist) mod 3 = 0 then Some (t + rn_min_cadence r)
      else rn_next_run_at (budget_run i hist r) i)"
proof -
  have c: "rn_min_cadence (budget_run i hist r) = rn_min_cadence r"
    by (induction hist rule: rev_induct) (auto simp: budget_run_def)
  have "3 \<le> Suc (n mod 3) \<longleftrightarrow> Suc n mod 3 = 0" for n :: nat by presburger
  then show ?thesis
    using budget_trips_streak [OF assms, of hist] c
    by (auto simp: budget_run_def record_budget_def Let_def suspend_budget_trips_def)
qed

definition sample_arrival :: "string \<Rightarrow> check_outcome \<Rightarrow> arrival" where
  "sample_arrival i oc = \<lparr>ar_check = \<lparr>ck_id = i, ck_budget = 0\<rparr>, ar_outcome = oc, ar_dur = 1, ar_at = 10\<rparr>"

definition sample_arrivals :: "arrival list" where
  "sample_arrivals =
     [sample_arrival ''disk-low'' (Ran [new_finding ''disk-low'' severity_blocker ''full'' [] []] None),
      sample_arrival ''rosetta'' (CheckPanic ''nil'')]"

lemma batch_order_irrelevant_witness:
  "rn_snap (run_batch id 7 sample_arrivals (new_runner 0)) = rn_snap (run_batch id 7 (rev sample_arrivals) (new_runner 0))
    \<and> map f_id (sn_findings (rn_snap (run_batch id 7 (rev sample_arrivals) (new_runner 0)))) = [''disk-low'', ''check-failed'']"
proof -
  have "distinct (map finding_order (batch_findings id sample_arrivals))" by code_simp
  moreover have "mset sample_arrivals = mset (rev sample_arrivals)" by simp
  moreover have "map f_id (sn_findings (rn_snap (run_batch id 7 (rev sample_arrivals) (new_runner 0))))
      = [''disk-low'', ''check-failed'']" by code_simp
  ultimately show ?thesis using batch_order_irrelevant by blast
qed

lemma suspension_after_three_trips_witness:
  "rn_next_run_at (budget_run ''disk-low'' [(1, True), (2, True), (3, True)] (new_runner 100)) ''disk-low'' = Some 103"
proof -
  have "rn_budget_trips (new_runner 100) ''disk-low'' = None" by (simp add: new_runner_def)
  from suspension_after_three_trips [OF this, of "[(1, True), (2, True)]" 3 True] show ?thesis
    by (simp add: over_streak_def new_runner_def)
qed

section \<open>Concurrent batches\<close>

text \<open>
  The published snapshot is an atomic pointer: each load and each store is one step, and nothing
  keeps two batches (the ticker's and a \<^verbatim>\<open>RunNow\<close>) apart. A thread is the list of steps its batch
  still has to do and the snapshot it loaded last; a schedule picks the thread of each step.
\<close>

datatype snap_step = LoadSnap | StoreRunning bool | StorePublish gtime "finding list"

definition batch_program :: "gtime \<Rightarrow> finding list \<Rightarrow> snap_step list" where
  "batch_program now fs = [LoadSnap, StoreRunning True, LoadSnap, StorePublish now fs, LoadSnap, StoreRunning False]"

type_synonym thread = "snap_step list \<times> snapshot"

fun do_snap_step :: "snap_step \<Rightarrow> snapshot \<Rightarrow> snapshot \<Rightarrow> snapshot \<times> snapshot" where
  "do_snap_step LoadSnap prev shared = (shared, shared)"
| "do_snap_step (StoreRunning b) prev shared = (prev, prev\<lparr>sn_running := b\<rparr>)"
| "do_snap_step (StorePublish now fs) prev shared =
     (prev, \<lparr>sn_findings = fs, sn_last_run = now, sn_running = False, sn_generation = sn_generation prev + 1\<rparr>)"

fun interleave :: "nat list \<Rightarrow> thread list \<Rightarrow> snapshot \<Rightarrow> thread list \<times> snapshot" where
  "interleave [] ts shared = (ts, shared)"
| "interleave (i # sched) ts shared =
     (if i < length ts then
        (case ts ! i of
           ([], prev) \<Rightarrow> interleave sched ts shared
         | (s # prog, prev) \<Rightarrow>
             (case do_snap_step s prev shared of
                (prev', shared') \<Rightarrow> interleave sched (ts[i := (prog, prev')]) shared'))
      else interleave sched ts shared)"

text \<open>A thread alone publishes what \<open>run_batch\<close> publishes.\<close>

lemma interleave_alone:
  "snd (interleave [0, 0, 0, 0, 0, 0]
       [(batch_program now (sort_key finding_order (map (dated now (rn_first_seen r)) (batch_findings quote as))), prev)]
       (rn_snap r))
   = rn_snap (run_batch quote now as r)"
  by (simp add: batch_program_def run_batch_eq)

text \<open>
  Two batches at once can lose one's result: when the first stops between the load and the store of
  its last \<open>publishRunning\<close> while the second publishes, the store puts the old snapshot back. The
  second batch's findings are gone and the generation, documented as a monotonic counter, has fallen
  from 2 to 1.
\<close>

theorem concurrent_batches_lose_findings:
  "let low = [new_finding ''disk-low'' severity_blocker ''full'' [] []];
       start = [(batch_program 1 [], empty_snapshot), (batch_program 2 low, empty_snapshot)];
       mid = interleave [0, 0, 0, 0, 0, 1, 1, 1, 1] start empty_snapshot;
       fin = interleave [0, 1, 1] (fst mid) (snd mid)
   in sn_findings (snd mid) = low \<and> sn_generation (snd mid) = 2 \<and>
      map fst (fst fin) = [[], []] \<and> sn_findings (snd fin) = [] \<and> sn_generation (snd fin) = 1"
  by code_simp

end
