(* ===== verification/Health_Checks.thy ===== *)
theory Health_Checks
  imports Health Platform
begin

text \<open>
  The bundled checks of \<^verbatim>\<open>internal/health\<close> (\<^verbatim>\<open>checks_*.go\<close>, \<^verbatim>\<open>bundled.go\<close>) and the circuit breaker that guards
  \<^verbatim>\<open>docker system df\<close> (\<^verbatim>\<open>breaker.go\<close>). What a check asks (the engine, statfs, mkcert, the registered sites, a
  dial of a port) is an argument with the answer. The check's lock makes each operation atomic.
\<close>

section \<open>The circuit breaker\<close>

record breaker =
  bk_max :: int
  bk_cooldown :: duration
  bk_failures :: int
  bk_opened_at :: gtime

definition max_failures_or_default :: "breaker \<Rightarrow> int" where
  "max_failures_or_default b = (if bk_max b > 0 then bk_max b else 3)"

definition cooldown_or_default :: "breaker \<Rightarrow> duration" where
  "cooldown_or_default b = (if bk_cooldown b > 0 then bk_cooldown b else hour)"

definition breaker_state :: "gtime \<Rightarrow> breaker \<Rightarrow> string" where
  "breaker_state now b =
     (if bk_failures b < max_failures_or_default b then ''closed''
      else if time_sub now (bk_opened_at b) > cooldown_or_default b then ''half-open'' else ''open'')"

definition breaker_allow :: "gtime \<Rightarrow> breaker \<Rightarrow> bool" where
  "breaker_allow now b \<longleftrightarrow> breaker_state now b \<noteq> ''open''"

definition on_success :: "breaker \<Rightarrow> breaker" where
  "on_success b = b\<lparr>bk_failures := 0, bk_opened_at := zero_time\<rparr>"

definition on_failure :: "gtime \<Rightarrow> breaker \<Rightarrow> breaker" where
  "on_failure now b =
     (let b = b\<lparr>bk_failures := bk_failures b + 1\<rparr>
      in if bk_failures b = max_failures_or_default b then b\<lparr>bk_opened_at := now\<rparr>
         else if bk_failures b > max_failures_or_default b then b\<lparr>bk_opened_at := now\<rparr> else b)"

definition new_breaker :: "int \<Rightarrow> duration \<Rightarrow> breaker" where
  "new_breaker n cooldown = \<lparr>bk_max = n, bk_cooldown = cooldown, bk_failures = 0, bk_opened_at = zero_time\<rparr>"

section \<open>Disk space\<close>

definition default_disk_warn_bytes :: int where "default_disk_warn_bytes = 5 * 1024 * 1024 * 1024"
definition default_disk_blocker_bytes :: int where "default_disk_blocker_bytes = 1 * 1024 * 1024 * 1024"

record disk_config =
  dc_warn :: int
  dc_blocker :: int
  dc_path :: string

record 'r disk_check =
  dk_cfg :: disk_config
  dk_breaker :: breaker
  dk_last_report :: "'r option"
  dk_last_free :: int
  dk_last_err :: "go_error option"

definition effective_disk_config :: "disk_config \<Rightarrow> disk_config" where
  "effective_disk_config cfg =
     (let cfg = (if dc_warn cfg \<le> 0 then cfg\<lparr>dc_warn := default_disk_warn_bytes\<rparr> else cfg);
          cfg = (if dc_blocker cfg \<le> 0 then cfg\<lparr>dc_blocker := default_disk_blocker_bytes\<rparr> else cfg)
      in if dc_blocker cfg \<ge> dc_warn cfg then cfg\<lparr>dc_blocker := dc_warn cfg div 5\<rparr> else cfg)"

definition new_disk_check :: "disk_config \<Rightarrow> 'r disk_check" where
  "new_disk_check cfg =
     \<lparr>dk_cfg = effective_disk_config cfg, dk_breaker = new_breaker 3 hour, dk_last_report = None,
      dk_last_free = 0, dk_last_err = None\<rparr>"

text \<open>
  \<^verbatim>\<open>humanBytes\<close> divides as \<^verbatim>\<open>float64\<close>: the number is first rounded to 53 bits, the division by a power of
  two is exact, and the verb rounds to the nearest decimal, halves to even.
\<close>

definition round_half_even :: "int \<Rightarrow> int \<Rightarrow> int" where
  "round_half_even n d =
     (let q = n div d; r = n mod d in if 2 * r < d \<or> 2 * r = d \<and> even q then q else q + 1)"

fun to_double :: "nat \<Rightarrow> int \<Rightarrow> int" where
  "to_double 0 n = n"
| "to_double (Suc k) n =
     (if n < 2 ^ 53 then n
      else if n < 2 ^ (53 + Suc k) \<and> \<not> n < 2 ^ (53 + k) then round_half_even n (2 ^ Suc k) * 2 ^ Suc k
      else to_double k n)"

definition one_decimal :: "int \<Rightarrow> int \<Rightarrow> string" where
  "one_decimal n unit =
     (let t = round_half_even (to_double 10 n * 10) unit in itoa (t div 10) @ ''.'' @ itoa (t mod 10))"

definition no_decimal :: "int \<Rightarrow> int \<Rightarrow> string" where
  "no_decimal n unit = itoa (round_half_even (to_double 10 n) unit)"

definition human_bytes :: "int \<Rightarrow> string" where
  "human_bytes n =
     (if n \<ge> 1024 ^ 4 then one_decimal n (1024 ^ 4) @ '' TB''
      else if n \<ge> 1024 ^ 3 then one_decimal n (1024 ^ 3) @ '' GB''
      else if n \<ge> 1024 ^ 2 then no_decimal n (1024 ^ 2) @ '' MB''
      else if n \<ge> 1024 then no_decimal n 1024 @ '' KB''
      else itoa n @ '' B'')"

text \<open>A probe: statfs's answer, the engine's answer should it be asked, and the times of \<^verbatim>\<open>Allow\<close> and \<^verbatim>\<open>OnFailure\<close>.\<close>

record 'r probe =
  pr_statfs :: "int \<times> go_error option"
  pr_usage :: "go_error + 'r"
  pr_now :: gtime
  pr_after :: gtime

datatype disk_error = CircuitOpen | DockerErr go_error

fun disk_error_text :: "disk_error \<Rightarrow> string" where
  "disk_error_text CircuitOpen = ''health: disk-usage circuit open''"
| "disk_error_text (DockerErr e) = e"

definition read_host_free :: "'r probe \<Rightarrow> 'r disk_check \<Rightarrow> (int \<times> go_error option) \<times> 'r disk_check" where
  "read_host_free p c =
     (if dc_path (dk_cfg c) = [] then ((0, None), c)
      else (pr_statfs p, c\<lparr>dk_last_free := fst (pr_statfs p), dk_last_err := snd (pr_statfs p)\<rparr>))"

text \<open>The last component tells whether the engine was asked.\<close>

definition read_docker :: "'r probe \<Rightarrow> 'r disk_check \<Rightarrow> disk_error option \<times> 'r disk_check \<times> bool" where
  "read_docker p c =
     (if \<not> breaker_allow (pr_now p) (dk_breaker c) then (Some CircuitOpen, c, False)
      else case pr_usage p of
             Inl e \<Rightarrow> (Some (DockerErr e), c\<lparr>dk_breaker := on_failure (pr_after p) (dk_breaker c)\<rparr>, True)
           | Inr rep \<Rightarrow> (None, c\<lparr>dk_breaker := on_success (dk_breaker c), dk_last_report := Some rep\<rparr>, True))"

definition warn_finding :: "int \<Rightarrow> string \<Rightarrow> finding" where
  "warn_finding free path =
     new_finding ''disk-low'' severity_warn ''Low disk space''
       (''Only '' @ human_bytes free @ '' free at '' @ path @ ''.'')
       ''Free disk space; consider `docker system prune` to reclaim image cache.''"

definition blocker_finding :: "int \<Rightarrow> string \<Rightarrow> finding" where
  "blocker_finding free path =
     new_finding ''disk-low'' severity_blocker ''Critically low disk space''
       (''Only '' @ human_bytes free @ '' free at '' @ path @ ''; site operations will fail.'')
       (''Free disk space immediately. Run `docker system prune --all` to reclaim Docker'' @ [CHR 0x27] @ ''s footprint.'')"

definition skipped_finding :: finding where
  "skipped_finding =
     new_finding ''disk-check-skipped'' severity_info ''Skipped Docker disk-usage probe''
       ''Repeated timeouts on `docker system df`; will retry next cycle.''
       ''Restart Docker if this persists.''"

definition disk_run :: "'r probe \<Rightarrow> 'r disk_check \<Rightarrow> (go_error + finding list) \<times> 'r disk_check \<times> bool" where
  "disk_run p c =
     (let ((free, free_err), c1) = read_host_free p c;
          (docker_err, c2, asked) = read_docker p c1;
          cfg = dk_cfg c
      in (if 0 < free \<and> free < dc_blocker cfg then Inr [blocker_finding free (dc_path cfg)]
          else if 0 < free \<and> free < dc_warn cfg then Inr [warn_finding free (dc_path cfg)]
          else case docker_err of
                 Some CircuitOpen \<Rightarrow> Inr [skipped_finding]
               | Some (DockerErr e) \<Rightarrow>
                   (case free_err of None \<Rightarrow> Inr []
                    | Some fe \<Rightarrow> Inl (''disk check: host='' @ fe @ '' docker='' @ e))
               | None \<Rightarrow> Inr [], c2, asked))"

definition last_snapshot :: "'r disk_check \<Rightarrow> int \<times> 'r option" where
  "last_snapshot c = (dk_last_free c, dk_last_report c)"

section \<open>The other checks\<close>

text \<open>\<^verbatim>\<open>DockerDownCheck\<close>: the counter is an \<^verbatim>\<open>atomic.Int32\<close>.\<close>

definition wrap32 :: "int \<Rightarrow> int" where "wrap32 n = (n + 2 ^ 31) mod 2 ^ 32 - 2 ^ 31"

definition docker_down_run :: "go_error option \<Rightarrow> int \<Rightarrow> finding list \<times> int" where
  "docker_down_run ping failures =
     (case ping of None \<Rightarrow> ([], 0)
      | Some e \<Rightarrow>
          (let n = wrap32 (failures + 1)
           in if n < 2 then ([], n)
              else ([(new_finding ''docker-down'' severity_blocker ''Docker is not running''
                      (''Locorum could not reach the Docker daemon: '' @ e)
                      ''Start Docker Desktop / OrbStack / your Docker engine and re-check.'')
                     \<lparr>f_help_url := ''https://docs.locorum.dev/install/docker''\<rparr>], n)))"

definition docker_old_run :: "(go_error + provider) \<Rightarrow> finding list" where
  "docker_old_run answer =
     (case answer of Inl e \<Rightarrow> []
      | Inr pi \<Rightarrow>
          if version_is_zero (pv_version pi) then []
          else if \<not> version_less_than (pv_version pi) min_supported_major min_supported_minor then []
          else [(new_finding ''docker-old'' severity_warn ''Docker is older than recommended''
                 (''Daemon reports version '' @ pv_server_version pi @ ''; Locorum is tested against ''
                  @ itoa min_supported_major @ ''.'' @ itoa min_supported_minor @ '' and newer.'')
                 ''Update Docker Desktop / OrbStack / your engine.'')
                \<lparr>f_help_url := ''https://docs.docker.com/engine/release-notes/''\<rparr>])"

definition virtiofs_run :: "string \<Rightarrow> (go_error + provider) \<Rightarrow> finding list" where
  "virtiofs_run host_os answer =
     (if host_os \<noteq> ''darwin'' then []
      else case answer of Inl e \<Rightarrow> []
           | Inr pi \<Rightarrow>
               if \<not> pv_docker_desktop pi then []
               else [(new_finding ''provider-virtiofs'' severity_info
                       ''macOS Docker Desktop: slow filesystem for WordPress''
                       (''Docker Desktop on macOS uses VirtioFS for bind mounts, which is much slower than native ext4 for WordPress''
                        @ [CHR 0x27] @ ''s many-small-files workload.'')
                       ''Consider switching to OrbStack or Colima for faster bind-mount performance.'')
                     \<lparr>f_help_url := ''https://docs.locorum.dev/macos-performance''\<rparr>])"

definition port_holder_lookup_timeout :: duration where "port_holder_lookup_timeout = 3 * second"

text \<open>\<^verbatim>\<open>PortConflictCheck\<close>: the dial tells whether something listens; \<open>sink\<close> whether the action is wired up.\<close>

definition port_in_use :: "(int \<Rightarrow> bool) \<Rightarrow> int \<Rightarrow> bool" where
  "port_in_use dial port = (if port \<le> 0 \<or> port > 65535 then False else dial port)"

definition port_conflict_run :: "(int \<Rightarrow> bool) \<Rightarrow> (go_error + bool) \<Rightarrow> bool \<Rightarrow> int \<Rightarrow> finding list" where
  "port_conflict_run dial router_running sink port =
     (if \<not> port_in_use dial port then []
      else if router_running = Inr True then []
      else [(new_finding (''port-conflict-'' @ itoa port) severity_warn
              (''Port '' @ itoa port @ '' is held by another process'')
              (''Another process is listening on 127.0.0.1:'' @ itoa port @ ''. Locorum'' @ [CHR 0x27]
               @ ''s router cannot bind it; sites may be unreachable.'')
              ''Stop the conflicting service, then re-check. Click the action below to identify it.'')
            \<lparr>f_help_url := ''https://docs.locorum.dev/troubleshooting/ports'',
             f_action := (if sink then Some (''Show port holders'', port_holder_lookup_timeout + second) else None)\<rparr>])"

definition rosetta_run :: "platform_info option \<Rightarrow> finding list" where
  "rosetta_run info =
     (case info of None \<Rightarrow> []
      | Some i \<Rightarrow>
          if \<not> pi_under_rosetta i then []
          else [(new_finding ''rosetta'' severity_blocker ''Running under Rosetta translation''
                 (''This is the amd64 build of Locorum running on an Apple Silicon (arm64) Mac via Rosetta. ''
                  @ ''Docker volume performance and container compatibility will be unreliable.'')
                 ''Quit Locorum and reinstall the arm64 build for native performance.'')
                \<lparr>f_help_url := ''https://docs.locorum.dev/install/macos''\<rparr>])"

definition wsl_mnt_c_run :: "string \<Rightarrow> platform_info option \<Rightarrow> string list option \<Rightarrow> finding list" where
  "wsl_mnt_c_run goos info sites =
     (case (info, sites) of
        (Some i, Some roots) \<Rightarrow>
          if \<not> wi_active (pi_wsl i) then []
          else map (\<lambda>root. (new_finding ''wsl-mnt-c'' severity_warn ''Site stored on slow Windows-mounted drive''
                       (''The site at '' @ root @ '' lives under /mnt/c (DrvFS), which is much slower than native WSL ext4.'')
                       ''Move the site to a path under /home/<user>/ for native filesystem speed.'')
                     \<lparr>f_dedup := root, f_help_url := ''https://docs.locorum.dev/wsl-performance''\<rparr>)
                 (filter (is_mnt_c goos i) roots)
      | _ \<Rightarrow> [])"

definition longpath_finding :: "bool \<Rightarrow> string \<Rightarrow> finding" where
  "longpath_finding enabled root =
     (if enabled
      then new_finding ''windows-longpath'' severity_warn ''Path may exceed Windows 260-character limit''
             (''The site at '' @ root @ '' is long enough that some WordPress plugin assets ''
              @ ''may exceed Windows MAX_PATH. LongPathsEnabled is set, but not every plugin honours it.'')
             ''Move the site under a shorter path for the strongest guarantee.''
      else new_finding ''windows-longpath'' severity_blocker ''Path exceeds Windows 260-character limit''
             (''The site at '' @ root @ '' breaches Windows MAX_PATH and LongPathsEnabled is not set; ''
              @ ''Locorum will refuse to start it until the path is shortened or the registry flag is enabled.'')
             (''Move the site under a shorter path ('' @ [CHR 0xE2, CHR 0x89, CHR 0xA4]
              @ '' 200 chars), or enable LongPathsEnabled in the registry (admin) and restart Locorum.''))
     \<lparr>f_dedup := root,
      f_help_url := ''https://learn.microsoft.com/en-us/windows/win32/fileio/maximum-file-path-limitation''\<rparr>"

definition longpath_run :: "string \<Rightarrow> platform_info option \<Rightarrow> string list option \<Rightarrow> finding list" where
  "longpath_run goos info sites =
     (case (info, sites) of
        (Some i, Some roots) \<Rightarrow>
          if pi_os i \<noteq> ''windows'' then []
          else map (longpath_finding (pi_long_paths_enabled i)) (filter (is_long_path goos) roots)
      | _ \<Rightarrow> [])"

record tls_status =
  ts_installed :: bool
  ts_ca_trusted :: bool
  ts_message :: string

record tls_capabilities =
  tc_java :: bool
  tc_firefox_windows :: bool

definition mkcert_url :: string where "mkcert_url = ''https://github.com/FiloSottile/mkcert#''"

definition java_trust_finding :: finding where
  "java_trust_finding =
     (new_finding ''mkcert-java-trust'' severity_info (''Java apps don'' @ [CHR 0x27] @ ''t trust the Locorum CA'')
       (''JAVA_HOME or `java` is on PATH on this host, but mkcert from a GUI process can'' @ [CHR 0x27]
        @ ''t reach Java'' @ [CHR 0x27] @ ''s cacerts keystore.'')
       (''Re-run `mkcert -install` from a terminal where JAVA_HOME resolves; Spring Boot, Tomcat, and SBT will ''
        @ ''then trust Locorum certificates.''))
     \<lparr>f_help_url := mkcert_url @ ''supported-root-stores''\<rparr>"

definition firefox_finding :: finding where
  "firefox_finding =
     (new_finding ''mkcert-firefox-windows'' severity_info ''Firefox on Windows may not trust the Locorum CA''
       (''Firefox lazily creates its NSS database on first launch. If you ran `mkcert -install` before ''
        @ ''launching Firefox, the keystore wasn'' @ [CHR 0x27] @ ''t populated yet.'')
       ''Open Firefox once, close it, then re-run `mkcert -install` (or use the action above).'')
     \<lparr>f_help_url := mkcert_url @ ''supported-root-stores''\<rparr>"

definition mkcert_run ::
  "((go_error + tls_status) \<times> tls_capabilities) option \<Rightarrow> bool \<Rightarrow> go_error + finding list" where
  "mkcert_run prov installer =
     (case prov of None \<Rightarrow> Inr []
      | Some (Inl e, caps) \<Rightarrow> Inl e
      | Some (Inr status, caps) \<Rightarrow>
          if \<not> ts_installed status \<or> \<not> ts_ca_trusted status
          then Inr [(new_finding ''mkcert-missing'' severity_warn ''Trusted HTTPS not configured'' (ts_message status)
                      ''Install mkcert and run `mkcert -install` so browsers trust Locorum-issued certificates.'')
                    \<lparr>f_help_url := mkcert_url @ ''installation'',
                     f_action := (if installer then Some (''Set up trusted HTTPS'', 60 * second) else None)\<rparr>]
          else Inr ((if tc_java caps then [java_trust_finding] else [])
                 @ (if tc_firefox_windows caps then [firefox_finding] else [])))"

text \<open>\<^verbatim>\<open>Bundled\<close>: which checks the production set holds, by id, with their budgets.\<close>

record bundled_opts =
  bo_platform :: bool
  bo_engine :: bool
  bo_mkcert :: bool
  bo_sites :: bool
  bo_router :: string

definition check_of :: "string \<Rightarrow> duration \<Rightarrow> check" where
  "check_of i budget = \<lparr>ck_id = i, ck_budget = budget\<rparr>"

definition bundled :: "bundled_opts \<Rightarrow> check list" where
  "bundled opts =
     (if bo_platform opts
      then check_of ''rosetta'' second #
        (if bo_sites opts then [check_of ''wsl-mnt-c'' second, check_of ''windows-longpath'' second] else []) else [])
     @ (if bo_engine opts
        then [check_of ''docker-down'' (3 * second), check_of ''docker-old'' (2 * second)]
          @ (if bo_platform opts then [check_of ''provider-virtiofs'' (2 * second)] else [])
          @ [check_of ''disk-low'' (30 * second)]
          @ (if bo_router opts \<noteq> []
             then [check_of ''port-conflict-80'' second, check_of ''port-conflict-443'' second] else [])
        else [])
     @ (if bo_mkcert opts then [check_of ''mkcert-missing'' (2 * second)] else [])"

lemma bundled_ids_distinct: "distinct (map ck_id (bundled opts))"
  by (auto simp: bundled_def check_of_def)

section \<open>What the breaker remembers\<close>

text \<open>The outcomes the breaker was told: a failure with its time, or a success.\<close>

definition tell :: "breaker \<Rightarrow> gtime option \<Rightarrow> breaker" where
  "tell b e = (case e of None \<Rightarrow> on_success b | Some t \<Rightarrow> on_failure t b)"

definition failing :: "gtime option list \<Rightarrow> gtime list" where
  "failing evs = map the (takeWhile (\<lambda>e. e \<noteq> None) (rev evs))"

lemma failing_simps: "failing [] = []" "failing (evs @ [None]) = []" "failing (evs @ [Some t]) = t # failing evs"
  by (simp_all add: failing_def)

text \<open>Whether a call may proceed, from the history alone: \<open>failing\<close> lists the uninterrupted failures, latest first.\<close>

definition may_call :: "int \<Rightarrow> duration \<Rightarrow> gtime option list \<Rightarrow> gtime \<Rightarrow> bool" where
  "may_call n cooldown evs now \<longleftrightarrow>
     int (length (failing evs)) < n \<or> time_sub now (hd (failing evs)) > cooldown"

lemma tell_fixed [simp]: "bk_max (tell b e) = bk_max b" "bk_cooldown (tell b e) = bk_cooldown b"
  by (auto simp: tell_def on_success_def on_failure_def Let_def split: option.splits)

lemma breaker_history:
  assumes "0 < n" and "0 < cd"
  shows "let b = foldl tell (new_breaker n cd) evs in
     bk_max b = n \<and> bk_cooldown b = cd \<and> bk_failures b = int (length (failing evs)) \<and>
     bk_opened_at b = (if n \<le> int (length (failing evs)) then hd (failing evs) else zero_time)"
proof (induction evs rule: rev_induct)
  case Nil
  with assms show ?case by (simp add: new_breaker_def failing_simps)
next
  case (snoc e evs)
  define b where "b = foldl tell (new_breaker n cd) evs"
  have b: "bk_max b = n" "bk_cooldown b = cd" "bk_failures b = int (length (failing evs))"
    "bk_opened_at b = (if n \<le> int (length (failing evs)) then hd (failing evs) else zero_time)"
    using snoc.IH by (auto simp: b_def Let_def)
  have s: "foldl tell (new_breaker n cd) (evs @ [e]) = tell b e" by (simp add: b_def)
  show ?case
  proof (cases e)
    case None
    then show ?thesis using b assms unfolding s by (simp add: tell_def on_success_def failing_simps)
  next
    case (Some t)
    then show ?thesis using b assms unfolding s
      by (auto simp: tell_def on_failure_def max_failures_or_default_def failing_simps Let_def)
  qed
qed

lemma breaker_allow_history:
  assumes "0 < n" and "0 < cd"
  shows "breaker_allow now (foldl tell (new_breaker n cd) evs) \<longleftrightarrow> may_call n cd evs now"
  using breaker_history [OF assms, of evs] assms
  by (auto simp: Let_def breaker_allow_def breaker_state_def may_call_def max_failures_or_default_def
      cooldown_or_default_def)

text \<open>Runs of the disk check, and what the specification says the breaker is told by them.\<close>

definition disk_runs :: "'r probe list \<Rightarrow> 'r disk_check \<Rightarrow> 'r disk_check" where
  "disk_runs ps c = foldl (\<lambda>c p. fst (snd (disk_run p c))) c ps"

definition outcome_of :: "'r probe \<Rightarrow> gtime option" where
  "outcome_of p = (case pr_usage p of Inl e \<Rightarrow> Some (pr_after p) | Inr r \<Rightarrow> None)"

definition disk_events :: "'r probe list \<Rightarrow> gtime option list" where
  "disk_events ps = foldl (\<lambda>evs p. if may_call 3 hour evs (pr_now p) then evs @ [outcome_of p] else evs) [] ps"

lemma disk_run_parts:
  "snd (snd (disk_run p c)) = breaker_allow (pr_now p) (dk_breaker c)"
  "dk_breaker (fst (snd (disk_run p c))) =
     (if breaker_allow (pr_now p) (dk_breaker c) then tell (dk_breaker c) (outcome_of p) else dk_breaker c)"
  "dk_cfg (fst (snd (disk_run p c))) = dk_cfg c"
  by (cases "pr_statfs p"; auto simp: disk_run_def read_docker_def read_host_free_def tell_def outcome_of_def Let_def
      split: sum.splits)+

lemma disk_runs_breaker:
  "dk_breaker (disk_runs ps (new_disk_check cfg)) = foldl tell (new_breaker 3 hour) (disk_events ps)
   \<and> dk_cfg (disk_runs ps (new_disk_check cfg)) = effective_disk_config cfg"
proof (induction ps rule: rev_induct)
  case Nil
  show ?case by (simp add: disk_runs_def disk_events_def new_disk_check_def)
next
  case (snoc p ps)
  have "0 < hour" by (simp add: duration_defs)
  then have "breaker_allow (pr_now p) (dk_breaker (disk_runs ps (new_disk_check cfg)))
      \<longleftrightarrow> may_call 3 hour (disk_events ps) (pr_now p)"
    using snoc.IH breaker_allow_history [of 3 hour] by simp
  moreover have "disk_runs (ps @ [p]) (new_disk_check cfg) = fst (snd (disk_run p (disk_runs ps (new_disk_check cfg))))"
    by (simp add: disk_runs_def)
  moreover have "disk_events (ps @ [p]) = (if may_call 3 hour (disk_events ps) (pr_now p)
      then disk_events ps @ [outcome_of p] else disk_events ps)"
    by (simp add: disk_events_def)
  ultimately show ?case using snoc.IH by (simp add: disk_run_parts)
qed

section \<open>Properties\<close>

text \<open>
  The breaker keeps a failing Docker from being asked: over any history of probes the engine is asked
  by the next one exactly when fewer than three failures in a row were recorded or more than the
  one-hour cooldown has passed since the latest of them; a success starts the count again.
\<close>

theorem disk_probe_obeys_breaker:
  "snd (snd (disk_run p (disk_runs ps (new_disk_check cfg)))) = may_call 3 hour (disk_events ps) (pr_now p)"
proof -
  have "0 < hour" by (simp add: duration_defs)
  then show ?thesis using disk_runs_breaker [of ps cfg] breaker_allow_history [of 3 hour]
    by (simp add: disk_run_parts)
qed

text \<open>
  The thresholds a disk check works with are positive and in order whatever is configured, and the
  check reports at most one finding: the blocker below the blocker threshold, the warning between the
  two, and nothing about free space otherwise.
\<close>

theorem disk_check_levels:
  "let cfg' = effective_disk_config cfg; c = disk_runs ps (new_disk_check cfg);
       free = (if dc_path cfg' = [] then 0 else fst (pr_statfs p))
   in 0 \<le> dc_blocker cfg' \<and> dc_blocker cfg' < dc_warn cfg' \<and>
      (case fst (disk_run p c) of
         Inl e \<Rightarrow> \<not> (0 < free \<and> free < dc_warn cfg')
       | Inr fs \<Rightarrow> filter (\<lambda>f. f_id f = ''disk-low'') fs =
           (if 0 < free \<and> free < dc_blocker cfg' then [blocker_finding free (dc_path cfg')]
            else if 0 < free \<and> free < dc_warn cfg' then [warn_finding free (dc_path cfg')] else [])
           \<and> length fs \<le> 1)"
proof -
  have cfg: "dk_cfg (disk_runs ps (new_disk_check cfg)) = effective_disk_config cfg"
    using disk_runs_breaker [of ps cfg] by simp
  have th: "0 \<le> dc_blocker (effective_disk_config cfg)"
    "dc_blocker (effective_disk_config cfg) < dc_warn (effective_disk_config cfg)"
    by (auto simp: effective_disk_config_def Let_def default_disk_warn_bytes_def default_disk_blocker_bytes_def)
  then show ?thesis
    by (cases "pr_statfs p") (auto simp: Let_def disk_run_def cfg read_host_free_def read_docker_def blocker_finding_def warn_finding_def
        skipped_finding_def new_finding_def split: sum.splits option.splits)
qed

end
