(* ===== verification/Owner_Lock.thy ===== *)
theory Owner_Lock
  imports Go_Prelude
begin

text \<open>
  The owner lock of \<^verbatim>\<open>internal/daemon/lock.go\<close> and \<^verbatim>\<open>lock_unix.go\<close>: an advisory lock on the inode the lock path
  names, and a side file with the holder's identity. Every system call is one atomic step of the process
  that makes it, so the calls of several processes interleave; a process that dies loses its locks.
  Failing file operations other than the lock itself are the \<open>Fails\<close> steps. The directory is there.
\<close>

section \<open>State\<close>

record owner =
  ow_pid :: nat
  ow_started :: gtime
  ow_version :: string

definition zero_owner :: owner where
  "zero_owner = \<lparr>ow_pid = 0, ow_started = zero_time, ow_version = []\<rparr>"

text \<open>
  Where a process is: between calls (\<open>Idle\<close>, \<open>Refused\<close> with the owner of the returned \<^verbatim>\<open>ErrLocked\<close>,
  \<open>Errored\<close>, \<open>Holding\<close>), or before a system call of \<open>Acquire\<close> or \<open>Release\<close>. The flag of
  \<open>Opened\<close> and \<open>NotLocked\<close> tells \<^verbatim>\<open>acquireOnce\<close> from the first attempt.
\<close>

datatype phase = Idle | ToOpen bool owner | Opened bool nat owner | NotLocked bool nat owner | ToJudge owner owner
  | ToRemovePath owner | ToRemoveInfo owner | Locked nat owner | Holding nat owner
  | Releasing nat | PathToRemove nat | ToUnlock nat | Refused owner | Errored

record lock_state =
  ls_path :: "nat option"
  ls_fresh :: nat
  ls_flock :: "nat \<Rightarrow> nat option"
  ls_body :: "nat \<Rightarrow> owner"
  ls_info :: "owner option"
  ls_alive :: "nat \<Rightarrow> bool"
  ls_phase :: "nat \<Rightarrow> phase"

definition set_phase :: "nat \<Rightarrow> phase \<Rightarrow> lock_state \<Rightarrow> lock_state" where
  "set_phase p ph s = s\<lparr>ls_phase := (ls_phase s)(p := ph)\<rparr>"

section \<open>System calls\<close>

text \<open>\<^verbatim>\<open>O_RDWR|O_CREATE\<close>: the inode the path names, a new empty one when it names none.\<close>

definition sys_open :: "lock_state \<Rightarrow> nat \<times> lock_state" where
  "sys_open s =
     (case ls_path s of Some i \<Rightarrow> (i, s)
      | None \<Rightarrow> (ls_fresh s, s\<lparr>ls_path := Some (ls_fresh s), ls_fresh := Suc (ls_fresh s),
                              ls_body := (ls_body s)(ls_fresh s := zero_owner)\<rparr>))"

definition platform_lock :: "nat \<Rightarrow> nat \<Rightarrow> lock_state \<Rightarrow> lock_state option" where
  "platform_lock p i s =
     (if ls_flock s i = None then Some (s\<lparr>ls_flock := (ls_flock s)(i \<mapsto> p)\<rparr>) else None)"

definition platform_unlock :: "nat \<Rightarrow> lock_state \<Rightarrow> lock_state" where
  "platform_unlock i s = s\<lparr>ls_flock := (ls_flock s)(i := None)\<rparr>"

definition process_alive :: "nat \<Rightarrow> lock_state \<Rightarrow> bool" where
  "process_alive pid s = (if pid = 0 then False else ls_alive s pid)"

definition write_owner_info :: "owner \<Rightarrow> lock_state \<Rightarrow> lock_state" where
  "write_owner_info ow s = s\<lparr>ls_info := Some ow\<rparr>"

text \<open>The side file, else what an older version wrote into the lock file, else the zero owner.\<close>

definition read_owner_info_best_effort :: "lock_state \<Rightarrow> owner" where
  "read_owner_info_best_effort s =
     (case ls_info s of Some ow \<Rightarrow> ow
      | None \<Rightarrow> (case ls_path s of None \<Rightarrow> zero_owner | Some i \<Rightarrow> ls_body s i))"

section \<open>Steps\<close>

text \<open>
  \<open>Begin p ow\<close> calls \<open>Acquire\<close> (the owner record is the one \<^verbatim>\<open>finishAcquire\<close> will build), \<open>Leave p\<close> calls
  \<open>Release\<close>, \<open>Go p\<close> is the next system call of \<open>p\<close>, \<open>Fails p\<close> that call failing, \<open>Dies p\<close> the death of \<open>p\<close>.
\<close>

datatype action = Begin nat owner | Go nat | Leave nat | Fails nat | Dies nat

fun go :: "nat \<Rightarrow> phase \<Rightarrow> lock_state \<Rightarrow> lock_state" where
  "go p (ToOpen retry ow) s = (case sys_open s of (i, s') \<Rightarrow> set_phase p (Opened retry i ow) s')"
| "go p (Opened retry i ow) s =
     (case platform_lock p i s of Some s' \<Rightarrow> set_phase p (Locked i ow) s'
      | None \<Rightarrow> set_phase p (NotLocked retry i ow) s)"
| "go p (NotLocked retry i ow) s =
     (let holder = read_owner_info_best_effort s
      in if retry then set_phase p (Refused holder) s else set_phase p (ToJudge holder ow) s)"
| "go p (ToJudge holder ow) s =
     (if process_alive (ow_pid holder) s then set_phase p (Refused holder) s else set_phase p (ToRemovePath ow) s)"
| "go p (ToRemovePath ow) s = set_phase p (ToRemoveInfo ow) (s\<lparr>ls_path := None\<rparr>)"
| "go p (ToRemoveInfo ow) s = set_phase p (ToOpen True ow) (s\<lparr>ls_info := None\<rparr>)"
| "go p (Locked i ow) s = set_phase p (Holding i ow) (write_owner_info ow s)"
| "go p (Releasing i) s = set_phase p (PathToRemove i) (s\<lparr>ls_info := None\<rparr>)"
| "go p (PathToRemove i) s = set_phase p (ToUnlock i) (s\<lparr>ls_path := None\<rparr>)"
| "go p (ToUnlock i) s = set_phase p Idle (platform_unlock i s)"
| "go p ph s = s"

fun fails :: "nat \<Rightarrow> phase \<Rightarrow> lock_state \<Rightarrow> lock_state" where
  "fails p (ToOpen retry ow) s = set_phase p Errored s"
| "fails p (Locked i ow) s = set_phase p Errored (platform_unlock i s)"
| "fails p ph s = s"

fun between_calls :: "phase \<Rightarrow> bool" where
  "between_calls Idle = True"
| "between_calls (Refused ow) = True"
| "between_calls Errored = True"
| "between_calls ph = False"

fun lock_act :: "action \<Rightarrow> lock_state \<Rightarrow> lock_state" where
  "lock_act (Begin p ow) s =
     (if between_calls (ls_phase s p) \<and> p \<noteq> 0
      then set_phase p (ToOpen False (ow\<lparr>ow_pid := p\<rparr>)) (s\<lparr>ls_alive := (ls_alive s)(p := True)\<rparr>) else s)"
| "lock_act (Go p) s = go p (ls_phase s p) s"
| "lock_act (Leave p) s = (case ls_phase s p of Holding i ow \<Rightarrow> set_phase p (Releasing i) s | _ \<Rightarrow> s)"
| "lock_act (Fails p) s = fails p (ls_phase s p) s"
| "lock_act (Dies p) s =
     set_phase p Idle (s\<lparr>ls_alive := (ls_alive s)(p := False),
                         ls_flock := (\<lambda>i. if ls_flock s i = Some p then None else ls_flock s i)\<rparr>)"

definition lock_run :: "action list \<Rightarrow> lock_state \<Rightarrow> lock_state" where
  "lock_run as s = foldl (\<lambda>s a. lock_act a s) s as"

definition first_start :: lock_state where
  "first_start = \<lparr>ls_path = None, ls_fresh = 0, ls_flock = (\<lambda>_. None), ls_body = (\<lambda>_. zero_owner), ls_info = None,
     ls_alive = (\<lambda>_. False), ls_phase = (\<lambda>_. Idle)\<rparr>"

definition owns :: "nat \<Rightarrow> lock_state \<Rightarrow> bool" where
  "owns p s = (case ls_phase s p of Holding i ow \<Rightarrow> True | _ \<Rightarrow> False)"

text \<open>\<^verbatim>\<open>ReadOwner\<close>, of files that parse.\<close>

definition read_owner :: "lock_state \<Rightarrow> owner" where
  "read_owner s =
     (case ls_info s of Some ow \<Rightarrow> ow
      | None \<Rightarrow> (case ls_path s of None \<Rightarrow> zero_owner | Some i \<Rightarrow> ls_body s i))"

section \<open>Calls that are not interrupted\<close>

definition acquire_call :: "nat \<Rightarrow> owner \<Rightarrow> lock_state \<Rightarrow> lock_state" where
  "acquire_call p ow s = lock_run (Begin p ow # replicate 9 (Go p)) s"

definition release_call :: "nat \<Rightarrow> lock_state \<Rightarrow> lock_state" where
  "release_call p s = lock_run (Leave p # replicate 3 (Go p)) s"

datatype call = Acquire nat owner | Release nat | Death nat

fun do_call :: "call \<Rightarrow> lock_state \<Rightarrow> lock_state" where
  "do_call (Acquire p ow) s = acquire_call p ow s"
| "do_call (Release p) s = release_call p s"
| "do_call (Death p) s = lock_act (Dies p) s"

definition do_calls :: "call list \<Rightarrow> lock_state \<Rightarrow> lock_state" where
  "do_calls cs s = foldl (\<lambda>s c. do_call c s) s cs"

definition settled :: "phase \<Rightarrow> bool" where
  "settled ph \<longleftrightarrow> between_calls ph \<or> (\<exists>i ow. ph = Holding i ow)"

definition lock_free :: "lock_state \<Rightarrow> bool" where
  "lock_free s \<longleftrightarrow> (\<forall>p. between_calls (ls_phase s p)) \<and> ls_flock s = Map.empty"

definition lock_held :: "nat \<Rightarrow> nat \<Rightarrow> owner \<Rightarrow> lock_state \<Rightarrow> bool" where
  "lock_held q i ow s \<longleftrightarrow>
     ls_phase s q = Holding i ow \<and> (\<forall>p. p \<noteq> q \<longrightarrow> between_calls (ls_phase s p)) \<and> ls_flock s = [i \<mapsto> q] \<and>
     ls_path s = Some i \<and> ls_info s = Some ow \<and> ow_pid ow = q \<and> q \<noteq> 0 \<and> ls_alive s q"

definition lock_inv :: "lock_state \<Rightarrow> bool" where
  "lock_inv s \<longleftrightarrow> lock_free s \<or> (\<exists>q i ow. lock_held q i ow s)"

lemma lock_inv_cases:
  assumes "lock_inv s"
  obtains (free) "lock_free s" | (held) q i ow where "lock_held q i ow s"
  using assms by (auto simp: lock_inv_def)

lemma between_settled: "between_calls ph \<Longrightarrow> settled ph"
  by (simp add: settled_def)

lemma between_not_owning: "between_calls (ls_phase s p) \<Longrightarrow> \<not> owns p s"
  by (cases "ls_phase s p") (auto simp: owns_def)

lemma lock_free_owns: "lock_free s \<Longrightarrow> \<not> owns p s"
  by (simp add: lock_free_def between_not_owning)

lemma lock_held_owns: "lock_held q i ow s \<Longrightarrow> owns p s \<longleftrightarrow> p = q"
  using between_not_owning [of s p] by (auto simp: lock_held_def owns_def)

lemma go_settled: "settled ph \<Longrightarrow> go p ph s = s"
  by (cases ph) (auto simp: settled_def)

lemma go_replicate: "settled (ls_phase s p) \<Longrightarrow> foldl (\<lambda>s a. lock_act a s) s (replicate n (Go p)) = s"
  by (induction n) (simp_all add: go_settled)

lemma foldl_go_Suc:
  "foldl (\<lambda>s a. lock_act a s) s (replicate (Suc n) (Go p)) =
     foldl (\<lambda>s a. lock_act a s) (go p (ls_phase s p) s) (replicate n (Go p))"
  by simp

lemma acquire_unfold:
  assumes "between_calls (ls_phase s p)" and "p \<noteq> 0"
  shows "acquire_call p ow s =
    foldl (\<lambda>s a. lock_act a s) (set_phase p (ToOpen False (ow\<lparr>ow_pid := p\<rparr>)) (s\<lparr>ls_alive := (ls_alive s)(p := True)\<rparr>))
      (replicate (Suc (Suc (Suc (Suc 5)))) (Go p))"
  using assms by (simp add: acquire_call_def lock_run_def)

lemma acquire_held:
  assumes held: "lock_held q i ow s" and "between_calls (ls_phase s p)" and "p \<noteq> 0"
  shows "acquire_call p mine s = set_phase p (Refused ow) (s\<lparr>ls_alive := (ls_alive s)(p := True)\<rparr>)"
  using held by (simp only: acquire_unfold [OF assms(2,3)] foldl_go_Suc)
    (simp add: lock_held_def set_phase_def sys_open_def platform_lock_def read_owner_info_best_effort_def
      process_alive_def go_replicate settled_def del: replicate.simps)

definition open_inode :: "lock_state \<Rightarrow> nat" where
  "open_inode s = (case ls_path s of Some j \<Rightarrow> j | None \<Rightarrow> ls_fresh s)"

lemma acquire_free:
  assumes free: "lock_free s" and "p \<noteq> 0"
  shows "acquire_call p mine s =
    (snd (sys_open s))\<lparr>ls_path := Some (open_inode s), ls_flock := [open_inode s \<mapsto> p],
       ls_info := Some (mine\<lparr>ow_pid := p\<rparr>), ls_alive := (ls_alive s)(p := True),
       ls_phase := (ls_phase s)(p := Holding (open_inode s) (mine\<lparr>ow_pid := p\<rparr>))\<rparr>"
proof -
  have bc: "between_calls (ls_phase s p)" and "ls_flock s = Map.empty" using free by (simp_all add: lock_free_def)
  then show ?thesis
    by (simp only: acquire_unfold [OF bc assms(2)] foldl_go_Suc)
      (rule lock_state.equality; simp add: set_phase_def sys_open_def platform_lock_def write_owner_info_def
        open_inode_def go_replicate settled_def split: option.splits del: replicate.simps)
qed

lemma acquire_idle:
  assumes "\<not> between_calls (ls_phase s p) \<or> p = 0" and "settled (ls_phase s p)"
  shows "acquire_call p mine s = s"
  using assms go_replicate [of s p 9] by (auto simp: acquire_call_def lock_run_def)

lemma release_holding:
  assumes "ls_phase s p = Holding i ow"
  shows "release_call p s = s\<lparr>ls_info := None, ls_path := None, ls_flock := (ls_flock s)(i := None),
      ls_phase := (ls_phase s)(p := Idle)\<rparr>"
  using assms by (simp add: release_call_def lock_run_def set_phase_def platform_unlock_def numeral_eq_Suc)

lemma release_not_holding:
  assumes "settled (ls_phase s p)" and "\<not> owns p s"
  shows "release_call p s = s"
  using assms go_replicate [of s p 3] by (auto simp: release_call_def lock_run_def owns_def split: phase.splits)

lemma lock_inv_start: "lock_inv first_start"
  by (simp add: lock_inv_def lock_free_def first_start_def)

lemma lock_inv_settled: "lock_inv s \<Longrightarrow> settled (ls_phase s p)"
  unfolding lock_inv_def by (metis between_settled lock_free_def lock_held_def settled_def)

lemma acquire_free_held:
  "lock_free s \<Longrightarrow> p \<noteq> 0 \<Longrightarrow> lock_held p (open_inode s) (mine\<lparr>ow_pid := p\<rparr>) (acquire_call p mine s)"
  by (simp add: acquire_free) (simp add: lock_held_def lock_free_def sys_open_def split: option.splits)

lemma acquire_held_held:
  "lock_held q i ow s \<Longrightarrow> between_calls (ls_phase s p) \<Longrightarrow> p \<noteq> 0 \<Longrightarrow>
     lock_held q i ow (acquire_call p mine s) \<and> ls_phase (acquire_call p mine s) p = Refused ow"
  by (simp add: acquire_held) (auto simp: lock_held_def set_phase_def)

lemma acquire_inv:
  assumes inv: "lock_inv s"
  shows "lock_inv (acquire_call p mine s)"
proof (cases "between_calls (ls_phase s p) \<and> p \<noteq> 0")
  case False
  with acquire_idle [of s p mine] inv lock_inv_settled [OF inv] show ?thesis by auto
next
  case True
  with inv acquire_free_held [of s p mine] acquire_held_held [of _ _ _ s p mine] show ?thesis
    by (meson lock_inv_def)
qed

lemma release_inv:
  assumes inv: "lock_inv s"
  shows "lock_inv (release_call p s)"
proof (cases "owns p s")
  case False
  with release_not_holding [of s p] inv lock_inv_settled [OF inv] show ?thesis by auto
next
  case True
  then obtain i ow where h: "ls_phase s p = Holding i ow" by (auto simp: owns_def split: phase.splits)
  from inv True have "lock_held p i ow s"
    using h lock_free_owns by (cases rule: lock_inv_cases) (auto simp: lock_held_owns lock_held_def)
  then have "lock_free (release_call p s)"
    unfolding release_holding [OF h] by (auto simp: lock_free_def lock_held_def)
  then show ?thesis by (simp add: lock_inv_def)
qed

lemma death_inv:
  assumes inv: "lock_inv s"
  shows "lock_inv (lock_act (Dies p) s)"
  using inv
proof (cases rule: lock_inv_cases)
  case free
  then have "lock_free (lock_act (Dies p) s)" by (auto simp: lock_free_def set_phase_def)
  then show ?thesis by (simp add: lock_inv_def)
next
  case (held q i ow)
  then have "if p = q then lock_free (lock_act (Dies p) s) else lock_held q i ow (lock_act (Dies p) s)"
    by (auto simp: lock_free_def lock_held_def set_phase_def fun_eq_iff)
  then show ?thesis by (auto simp: lock_inv_def split: if_splits)
qed

lemma do_calls_inv: "lock_inv (do_calls cs first_start)"
proof (induction cs rule: rev_induct)
  case Nil
  show ?case by (simp add: do_calls_def lock_inv_start)
next
  case (snoc c cs)
  then show ?case
    by (cases c) (simp_all add: do_calls_def acquire_inv release_inv death_inv del: lock_act.simps)
qed

section \<open>What the kernel guarantees, in any interleaving\<close>

fun locked_inode :: "phase \<Rightarrow> nat option" where
  "locked_inode (Locked i ow) = Some i"
| "locked_inode (Holding i ow) = Some i"
| "locked_inode (Releasing i) = Some i"
| "locked_inode (PathToRemove i) = Some i"
| "locked_inode (ToUnlock i) = Some i"
| "locked_inode ph = None"

definition flock_inv :: "lock_state \<Rightarrow> bool" where
  "flock_inv s \<longleftrightarrow> (\<forall>i q. ls_flock s i = Some q \<longleftrightarrow> locked_inode (ls_phase s q) = Some i)
     \<and> (\<forall>q. ls_phase s q \<noteq> Idle \<longrightarrow> q \<noteq> 0 \<and> ls_alive s q)"

lemma flock_inv_locked: "flock_inv s \<Longrightarrow> locked_inode (ls_phase s q) = Some i \<longleftrightarrow> ls_flock s i = Some q"
  by (simp add: flock_inv_def)

text \<open>The three ways a step moves: the lock stays, is taken, is dropped.\<close>

lemma flock_inv_keep:
  assumes "flock_inv s" and "ls_phase s p \<noteq> Idle" and "ls_flock t = ls_flock s" and "ls_alive t = ls_alive s"
    and "ls_phase t = (ls_phase s)(p := ph)" and "locked_inode ph = locked_inode (ls_phase s p)"
  shows "flock_inv t"
  using assms by (auto simp: flock_inv_def)

lemma flock_inv_take:
  assumes "flock_inv s" and "ls_phase s p \<noteq> Idle" and "ls_flock t = (ls_flock s)(i \<mapsto> p)" and "ls_alive t = ls_alive s"
    and "ls_phase t = (ls_phase s)(p := ph)" and "ls_flock s i = None" and "locked_inode (ls_phase s p) = None"
    and "locked_inode ph = Some i"
  shows "flock_inv t"
proof -
  have "ls_flock t j = Some q \<longleftrightarrow> locked_inode (ls_phase t q) = Some j" for j q
  proof (cases "q = p")
    case True
    then have "ls_flock s j \<noteq> Some q" using assms(1,7) by (simp add: flock_inv_def)
    with True show ?thesis using assms(3,5,8) by auto
  next
    case False
    then show ?thesis using assms(3,5,6) flock_inv_locked [OF assms(1)] by auto
  qed
  with assms(1,2,4,5) show ?thesis by (auto simp: flock_inv_def)
qed

lemma flock_inv_drop:
  assumes "flock_inv s" and "ls_phase s p \<noteq> Idle" and "ls_flock t = (ls_flock s)(i := None)" and "ls_alive t = ls_alive s"
    and "ls_phase t = (ls_phase s)(p := ph)" and "locked_inode (ls_phase s p) = Some i" and "locked_inode ph = None"
  shows "flock_inv t"
proof -
  have i: "ls_flock s i = Some p" using assms(1,6) by (simp add: flock_inv_def)
  have "ls_flock t j = Some q \<longleftrightarrow> locked_inode (ls_phase t q) = Some j" for j q
  proof (cases "q = p")
    case True
    have "ls_flock s j = Some p \<longleftrightarrow> j = i" using assms(1,6) by (auto simp: flock_inv_def)
    with True show ?thesis using assms(3,5,7) by auto
  next
    case False
    then have "ls_flock s j = Some q \<longrightarrow> j \<noteq> i" using i by auto
    with False show ?thesis using assms(1,3,5) by (auto simp: flock_inv_def)
  qed
  with assms(1,2,4,5) show ?thesis by (auto simp: flock_inv_def)
qed

lemma set_phase_simps [simp]:
  "ls_flock (set_phase p ph s) = ls_flock s" "ls_alive (set_phase p ph s) = ls_alive s"
  "ls_phase (set_phase p ph s) = (ls_phase s)(p := ph)"
  by (simp_all add: set_phase_def)

lemma sys_open_simps [simp]:
  "ls_flock (snd (sys_open s)) = ls_flock s" "ls_alive (snd (sys_open s)) = ls_alive s"
  "ls_phase (snd (sys_open s)) = ls_phase s"
  by (simp_all add: sys_open_def split: option.splits)

lemma flock_inv_go:
  assumes inv: "flock_inv s"
  shows "flock_inv (go p (ls_phase s p) s)"
proof (cases "ls_phase s p")
  case (ToOpen r ow)
  then show ?thesis
    by (auto simp: case_prod_beta intro: flock_inv_keep [OF inv, of p])
next
  case (Opened r i ow)
  show ?thesis
  proof (cases "ls_flock s i")
    case None
    then show ?thesis using Opened
      by (auto simp: platform_lock_def intro: flock_inv_take [OF inv, of p _ i "Locked i ow"])
  next
    case (Some q)
    then show ?thesis using Opened
      by (auto simp: platform_lock_def intro: flock_inv_keep [OF inv, of p])
  qed
next
  case (ToUnlock i)
  then show ?thesis
    by (auto simp: platform_unlock_def intro: flock_inv_drop [OF inv, of p _ i Idle])
qed (use inv in \<open>auto simp: Let_def write_owner_info_def intro: flock_inv_keep [OF inv, of p]\<close>)

lemma flock_inv_dies:
  assumes inv: "flock_inv s"
  shows "flock_inv (lock_act (Dies p) s)"
proof -
  have "(if ls_flock s i = Some p then None else ls_flock s i) = Some q
      \<longleftrightarrow> locked_inode (((ls_phase s)(p := Idle)) q) = Some i" for i q
    using flock_inv_locked [OF inv] by auto
  moreover have "((ls_phase s)(p := Idle)) q \<noteq> Idle \<longrightarrow> q \<noteq> 0 \<and> ((ls_alive s)(p := False)) q" for q
    using inv by (auto simp: flock_inv_def)
  ultimately show ?thesis by (simp add: flock_inv_def)
qed

lemma flock_inv_act:
  assumes inv: "flock_inv s"
  shows "flock_inv (lock_act a s)"
proof (cases a)
  case (Begin p ow)
  have "locked_inode (ls_phase s p) = None" if "between_calls (ls_phase s p)"
    using that by (cases "ls_phase s p") auto
  then show ?thesis using Begin inv by (auto simp: flock_inv_def)
next
  case (Go p)
  then show ?thesis by (simp add: flock_inv_go inv)
next
  case (Leave p)
  then show ?thesis using inv
    by (cases "ls_phase s p") (auto intro: flock_inv_keep [OF inv, of p])
next
  case (Fails p)
  then show ?thesis using inv
  proof (cases "ls_phase s p")
    case (Locked i ow)
    then show ?thesis using Fails
      by (auto simp: platform_unlock_def intro: flock_inv_drop [OF inv, of p _ i Errored])
  qed (auto intro: flock_inv_keep [OF inv, of p])
next
  case (Dies p)
  then show ?thesis using flock_inv_dies [OF inv] by simp
qed

lemma flock_inv_run: "flock_inv (lock_run as first_start)"
proof (induction as rule: rev_induct)
  case Nil
  show ?case by (simp add: lock_run_def flock_inv_def first_start_def)
next
  case (snoc a as)
  then show ?case by (simp add: lock_run_def flock_inv_act)
qed

section \<open>Properties\<close>

text \<open>
  C5. One owner: after any sequence of uninterrupted \<open>Acquire\<close> and \<open>Release\<close> calls and deaths of processes,
  \<open>Acquire\<close> by a process that does not own the lock is refused with the owner's own record when some
  process owns it, who stays the only owner; otherwise, a stale side file or not, the caller becomes the
  only owner and \<open>ReadOwner\<close> returns its record.
\<close>

theorem acquire_respects_owner:
  assumes "s = do_calls cs first_start" and "p \<noteq> 0" and "\<not> owns p s" and "s' = acquire_call p mine s"
  shows "if \<exists>q. owns q s
    then \<exists>q ow. owns q s \<and> ow_pid ow = q \<and> read_owner s = ow \<and> ls_phase s' p = Refused ow \<and> (\<forall>r. owns r s' \<longleftrightarrow> r = q)
    else (\<forall>r. owns r s' \<longleftrightarrow> r = p) \<and> read_owner s' = mine\<lparr>ow_pid := p\<rparr>"
proof -
  have inv: "lock_inv s" using assms(1) do_calls_inv by simp
  then show ?thesis
  proof (cases rule: lock_inv_cases)
    case free
    note h = acquire_free_held [OF free assms(2), of mine, folded assms(4)]
    then have "read_owner s' = mine\<lparr>ow_pid := p\<rparr>" by (simp add: lock_held_def read_owner_def)
    then show ?thesis using lock_free_owns [OF free] lock_held_owns [OF h] by simp
  next
    case (held q i ow)
    have "p \<noteq> q" using assms(3) lock_held_owns [OF held] by simp
    then have "between_calls (ls_phase s p)" using held by (simp add: lock_held_def)
    from acquire_held_held [OF held this assms(2), of mine, folded assms(4)]
    have h: "lock_held q i ow s'" "ls_phase s' p = Refused ow" by simp_all
    moreover have "ow_pid ow = q" "read_owner s = ow" using held by (simp_all add: lock_held_def read_owner_def)
    moreover have "owns q s" using lock_held_owns [OF held] by simp
    ultimately show ?thesis using lock_held_owns [OF h(1)] by auto
  qed
qed

definition sample_owner :: "gtime \<Rightarrow> owner" where
  "sample_owner t = \<lparr>ow_pid = 0, ow_started = t, ow_version = ''1.0''\<rparr>"

lemma acquire_respects_owner_witness:
  "ls_phase (acquire_call 8 (sample_owner 2) (do_calls [Acquire 7 (sample_owner 1)] first_start)) 8
    = Refused ((sample_owner 1)\<lparr>ow_pid := 7\<rparr>)"
proof -
  let ?s = "do_calls [Acquire 7 (sample_owner 1)] first_start"
  have s: "ls_phase ?s 7 = Holding 0 ((sample_owner 1)\<lparr>ow_pid := 7\<rparr>)" "\<not> owns 8 ?s"
    "ls_info ?s = Some ((sample_owner 1)\<lparr>ow_pid := 7\<rparr>)"
    by code_simp+
  then have o7: "owns 7 ?s" and ro: "read_owner ?s = (sample_owner 1)\<lparr>ow_pid := 7\<rparr>"
    by (simp_all add: owns_def read_owner_def)
  from o7 have ex: "(\<exists>q. owns q ?s) = True" by blast
  have "(8 :: nat) \<noteq> 0" by simp
  from acquire_respects_owner [OF refl this s(2) refl, of "sample_owner 2", unfolded ex if_True] ro show ?thesis
    by (elim exE conjE) simp_all
qed

text \<open>
  Nobody the lock refuses is stale: whatever the interleaving of the system calls and the deaths of
  processes, a lock on an inode is held by a process that is alive and inside its own critical
  section. A refused caller that takes the lock over therefore always takes it from a live process.
\<close>

theorem refused_by_a_live_process:
  assumes "ls_phase (lock_run as first_start) p = Opened retry i ow"
    and "platform_lock p i (lock_run as first_start) = None"
  shows "\<exists>q. q \<noteq> p \<and> ls_flock (lock_run as first_start) i = Some q \<and> process_alive q (lock_run as first_start)
    \<and> locked_inode (ls_phase (lock_run as first_start) q) = Some i"
proof -
  let ?s = "lock_run as first_start"
  from assms(2) obtain q where q: "ls_flock ?s i = Some q" by (auto simp: platform_lock_def split: if_splits)
  with flock_inv_run [of as] have l: "locked_inode (ls_phase ?s q) = Some i" by (simp add: flock_inv_def)
  then have "ls_phase ?s q \<noteq> Idle" by auto
  with flock_inv_run [of as] have "ls_alive ?s q \<and> q \<noteq> 0" by (simp add: flock_inv_def)
  with q l assms(1) show ?thesis by (auto simp: process_alive_def)
qed

lemma refused_by_a_live_process_witness:
  "\<exists>q. q \<noteq> 8 \<and> ls_flock (lock_run [Begin 7 zero_owner, Go 7, Go 7, Begin 8 zero_owner, Go 8] first_start) 0 = Some q"
proof -
  let ?s = "lock_run [Begin 7 zero_owner, Go 7, Go 7, Begin 8 zero_owner, Go 8] first_start"
  have "ls_phase ?s 8 = Opened False 0 (zero_owner\<lparr>ow_pid := 8\<rparr>)" and "platform_lock 8 0 ?s = None"
    by (simp_all add: lock_run_def first_start_def set_phase_def sys_open_def platform_lock_def)
  from refused_by_a_live_process [OF this] show ?thesis by blast
qed


end
