(* ===== verification/Rpc.thy ===== *)
theory Rpc
  imports Hooks Secrets
begin

text \<open>
  The daemon's JSON-RPC server: the frames of \<^verbatim>\<open>internal/daemon/protocol.go\<close>, the dispatcher of \<^verbatim>\<open>server.go\<close>
  (profiles, MCP scope, hello, redaction) and the method handlers of \<^verbatim>\<open>methods.go\<close>. The site service is a
  parameter: the rows it lists, and one function that performs a \<open>service_call\<close> on the world \<open>'w\<close> and
  returns a payload, an error or a panic (\<open>sv_json_error\<close> is the decoder's message). A handler also returns the calls it made, in order. One
  request of a connection is in flight at a time, as in \<^verbatim>\<open>handleConn\<close>.
\<close>

section \<open>JSON values and decoding into structs\<close>

datatype jval = VNull | VBool bool | VInt int | VFloat | VStr string | VArr "jval list" | VObj "(string \<times> jval) list"

text \<open>
  \<^verbatim>\<open>encoding/json\<close> matches the keys of an object with the fields of a struct by name under Unicode simple
  folding, takes the last match, lets \<^verbatim>\<open>null\<close> keep what is there and reports a value of the wrong kind.
\<close>

definition fold_key :: "string \<Rightarrow> string" where
  "fold_key k =
     to_lower (replace_all [CHR 0xC5, CHR 0xBF] ''s'' (replace_all [CHR 0xE2, CHR 0x84, CHR 0xAA] ''k'' k))"

definition key_matches :: "string \<Rightarrow> string \<Rightarrow> bool" where
  "key_matches field k \<longleftrightarrow> k = field \<or> fold_key k = fold_key field"

fun decode_field :: "(jval \<Rightarrow> 'a option) \<Rightarrow> string \<Rightarrow> (string \<times> jval) list \<Rightarrow> 'a \<Rightarrow> 'a option" where
  "decode_field conv field [] cur = Some cur"
| "decode_field conv field ((k, v) # kvs) cur =
     (if \<not> key_matches field k \<or> v = VNull then decode_field conv field kvs cur
      else case conv v of None \<Rightarrow> None | Some x \<Rightarrow> decode_field conv field kvs x)"

fun as_string :: "jval \<Rightarrow> string option" where "as_string (VStr s) = Some s" | "as_string _ = None"
fun as_bool :: "jval \<Rightarrow> bool option" where "as_bool (VBool b) = Some b" | "as_bool _ = None"
fun as_int :: "jval \<Rightarrow> int option" where
  "as_int (VInt n) = (if - (2 ^ 63) \<le> n \<and> n < 2 ^ 63 then Some n else None)"
| "as_int _ = None"

fun all_strings :: "jval list \<Rightarrow> string list option" where
  "all_strings [] = Some []"
| "all_strings (v # vs) =
     (case (if v = VNull then Some [] else as_string v) of None \<Rightarrow> None
      | Some s \<Rightarrow> (case all_strings vs of None \<Rightarrow> None | Some ss \<Rightarrow> Some (s # ss)))"

fun as_strings :: "jval \<Rightarrow> string list option" where
  "as_strings (VArr vs) = all_strings vs"
| "as_strings _ = None"

text \<open>Every parameter struct of the handlers, as one record.\<close>

record params =
  pm_site_id :: string
  pm_slug :: string
  pm_limit :: int
  pm_service :: string
  pm_lines :: int
  pm_args :: "string list"
  pm_label :: string
  pm_path :: string
  pm_force :: bool
  pm_hook_id :: int
  pm_purge_volume :: bool
  pm_skip_snapshot :: bool
  pm_force_worktree :: bool
  pm_dry_run :: bool
  pm_include_activity :: bool
  pm_activity_limit :: int
  pm_include_snapshots :: bool
  pm_include_host_port :: bool
  pm_name :: string
  pm_git_remote :: string
  pm_branch :: string
  pm_parent_slug :: string
  pm_clone_db :: bool
  pm_php_version :: string
  pm_db_engine :: string
  pm_db_version :: string
  pm_redis_version :: string
  pm_worktree_root :: string

definition zero_params :: params where
  "zero_params = \<lparr>pm_site_id = [], pm_slug = [], pm_limit = 0, pm_service = [], pm_lines = 0, pm_args = [],
     pm_label = [], pm_path = [], pm_force = False, pm_hook_id = 0, pm_purge_volume = False,
     pm_skip_snapshot = False, pm_force_worktree = False, pm_dry_run = False, pm_include_activity = False,
     pm_activity_limit = 0, pm_include_snapshots = False, pm_include_host_port = False, pm_name = [], pm_git_remote = [], pm_branch = [],
     pm_parent_slug = [], pm_clone_db = False, pm_php_version = [], pm_db_engine = [], pm_db_version = [],
     pm_redis_version = [], pm_worktree_root = []\<rparr>"

text \<open>A field of one of the structs: its JSON name, and how a value of it is stored.\<close>

type_synonym field = "(string \<times> jval) list \<Rightarrow> params \<Rightarrow> params option"

definition string_field :: "string \<Rightarrow> (params \<Rightarrow> string) \<Rightarrow> (string \<Rightarrow> params \<Rightarrow> params) \<Rightarrow> field" where
  "string_field name get put kvs p = map_option (\<lambda>v. put v p) (decode_field as_string name kvs (get p))"

definition bool_field :: "string \<Rightarrow> (params \<Rightarrow> bool) \<Rightarrow> (bool \<Rightarrow> params \<Rightarrow> params) \<Rightarrow> field" where
  "bool_field name get put kvs p = map_option (\<lambda>v. put v p) (decode_field as_bool name kvs (get p))"

definition int_field :: "string \<Rightarrow> (params \<Rightarrow> int) \<Rightarrow> (int \<Rightarrow> params \<Rightarrow> params) \<Rightarrow> field" where
  "int_field name get put kvs p = map_option (\<lambda>v. put v p) (decode_field as_int name kvs (get p))"

definition strings_field :: "string \<Rightarrow> (params \<Rightarrow> string list) \<Rightarrow> (string list \<Rightarrow> params \<Rightarrow> params) \<Rightarrow> field" where
  "strings_field name get put kvs p = map_option (\<lambda>v. put v p) (decode_field as_strings name kvs (get p))"

fun decode_fields :: "field list \<Rightarrow> (string \<times> jval) list \<Rightarrow> params \<Rightarrow> params option" where
  "decode_fields [] kvs p = Some p"
| "decode_fields (f # fs) kvs p = (case f kvs p of None \<Rightarrow> None | Some p' \<Rightarrow> decode_fields fs kvs p')"

definition site_ref_fields :: "field list" where
  "site_ref_fields = [string_field ''siteId'' pm_site_id (\<lambda>v p. p\<lparr>pm_site_id := v\<rparr>),
                      string_field ''slug'' pm_slug (\<lambda>v p. p\<lparr>pm_slug := v\<rparr>)]"

definition list_option_fields :: "field list" where
  "list_option_fields =
     [bool_field ''includeActivity'' pm_include_activity (\<lambda>v p. p\<lparr>pm_include_activity := v\<rparr>),
      int_field ''activityLimit'' pm_activity_limit (\<lambda>v p. p\<lparr>pm_activity_limit := v\<rparr>),
      bool_field ''includeSnapshots'' pm_include_snapshots (\<lambda>v p. p\<lparr>pm_include_snapshots := v\<rparr>),
      bool_field ''includeHostPort'' pm_include_host_port (\<lambda>v p. p\<lparr>pm_include_host_port := v\<rparr>)]"

text \<open>\<^verbatim>\<open>json.Unmarshal\<close> of a value into a struct with these fields.\<close>

fun unmarshal :: "field list \<Rightarrow> jval \<Rightarrow> params option" where
  "unmarshal fs (VObj kvs) = decode_fields fs kvs zero_params"
| "unmarshal fs VNull = Some zero_params"
| "unmarshal fs v = None"

section \<open>Errors\<close>

definition code_parse_error :: int where "code_parse_error = - 32700"
definition code_invalid_request :: int where "code_invalid_request = - 32600"
definition code_method_not_found :: int where "code_method_not_found = - 32601"
definition code_invalid_params :: int where "code_invalid_params = - 32602"
definition code_internal_error :: int where "code_internal_error = - 32603"
definition code_not_found :: int where "code_not_found = - 32001"
definition code_forbidden :: int where "code_forbidden = - 32002"
definition code_conflict :: int where "code_conflict = - 32004"

record method_error =
  me_code :: int
  me_message :: string
  me_cause :: "string option"

definition method_error_text :: "method_error \<Rightarrow> string" where
  "method_error_text e = (case me_cause e of None \<Rightarrow> me_message e | Some c \<Rightarrow> me_message e @ '': '' @ c)"

definition new_method_error :: "int \<Rightarrow> string \<Rightarrow> string option \<Rightarrow> method_error" where
  "new_method_error code msg cause = \<lparr>me_code = code, me_message = msg, me_cause = cause\<rparr>"

definition not_found :: "string \<Rightarrow> method_error" where
  "not_found what = new_method_error code_not_found (what @ '' not found'') None"

text \<open>
  An error of the service: its text, the \<^verbatim>\<open>MethodError\<close> \<^verbatim>\<open>errors.As\<close> finds in it, and whether it is
  \<^verbatim>\<open>ErrWorktreeDirty\<close>. A handler fails with a typed error or with any other.
\<close>

record service_error =
  se_text :: string
  se_method :: "method_error option"
  se_dirty :: bool

datatype handler_error = Typed method_error | Untyped service_error

definition map_not_found_error :: "service_error \<Rightarrow> handler_error" where
  "map_not_found_error e =
     (case se_method e of Some me \<Rightarrow> Untyped e
      | None \<Rightarrow> if contains (se_text e) ''not found''
                then Typed (new_method_error code_not_found (se_text e) (Some (se_text e))) else Untyped e)"

section \<open>The site service\<close>

record describe_options =
  do_activity :: bool
  do_activity_limit :: int
  do_snapshots :: bool
  do_host_port :: bool

record delete_options =
  del_purge_volume :: bool
  del_skip_snapshot :: bool
  del_force_worktree :: bool
  del_dry_run :: bool

record worktree_options =
  wo_name :: string
  wo_git_remote :: string
  wo_branch :: string
  wo_parent_slug :: string
  wo_clone_db :: bool
  wo_php_version :: string
  wo_db_engine :: string
  wo_db_version :: string
  wo_redis_version :: string
  wo_worktree_root :: string
  wo_dry_run :: bool

datatype service_call =
    DescribeAll describe_options | Describe string describe_options
  | StartSite string | StopSite string
  | CreateWorktree worktree_options
  | DeleteSite string delete_options
  | RecentActivity string | GetActivity string int
  | ContainerLogs string string int | ExecWPCLI string "string list"
  | MakeSnapshot string string | ListSnapshots string | RestoreSnapshot string string bool
  | RunHookNow hook | ListSiteHooks string | GetSites

datatype reply = Reply jval | Fail service_error | Panics

record 'w service =
  sv_sites :: "'w \<Rightarrow> service_error + site list"
  sv_hooks :: "string \<Rightarrow> 'w \<Rightarrow> service_error + hook list"
  sv_do :: "service_call \<Rightarrow> 'w \<Rightarrow> reply \<times> 'w"
  sv_json_error :: "jval \<Rightarrow> string"

text \<open>What a handler did: its answer (or a panic), the calls it made, the world after them.\<close>

datatype answer = Answer jval | Refuses handler_error | Crashed

type_synonym 'w handled = "answer \<times> service_call list \<times> 'w"

definition stop :: "handler_error \<Rightarrow> 'w \<Rightarrow> 'w handled" where
  "stop e w = (Refuses e, [], w)"

definition invalid_params :: "string \<Rightarrow> 'w \<Rightarrow> 'w handled" where
  "invalid_params msg w = stop (Typed (new_method_error code_invalid_params msg None)) w"

definition call ::
  "'w service \<Rightarrow> service_call \<Rightarrow> (service_error \<Rightarrow> handler_error) \<Rightarrow> (jval \<Rightarrow> answer) \<Rightarrow> 'w \<Rightarrow> 'w handled" where
  "call sv c on_err on_ok w =
     (case sv_do sv c w of
        (Reply v, w') \<Rightarrow> (on_ok v, [c], w')
      | (Fail e, w') \<Rightarrow> (Refuses (on_err e), [c], w')
      | (Panics, w') \<Rightarrow> (Crashed, [c], w'))"

text \<open>Calls made before the rest of a handler.\<close>

definition after :: "service_call list \<Rightarrow> 'w handled \<Rightarrow> 'w handled" where
  "after cs h = (case h of (a, cs', w) \<Rightarrow> (a, cs @ cs', w))"

section \<open>Handlers\<close>

text \<open>\<^verbatim>\<open>unmarshalParams\<close>: absent parameters keep the zero values.\<close>

definition with_params ::
  "'w service \<Rightarrow> field list \<Rightarrow> jval option \<Rightarrow> (params \<Rightarrow> 'w \<Rightarrow> 'w handled) \<Rightarrow> 'w \<Rightarrow> 'w handled" where
  "with_params sv fs pv k w =
     (case pv of None \<Rightarrow> k zero_params w
      | Some v \<Rightarrow> (case unmarshal fs v of
                    None \<Rightarrow> invalid_params (''invalid params: '' @ sv_json_error sv v) w
                  | Some p \<Rightarrow> k p w))"

definition resolve_site ::
  "'w service \<Rightarrow> params \<Rightarrow> (string \<Rightarrow> 'w \<Rightarrow> 'w handled) \<Rightarrow> 'w \<Rightarrow> 'w handled" where
  "resolve_site sv p k w =
     (if pm_site_id p \<noteq> [] then k (pm_site_id p) w
      else if pm_slug p = [] then invalid_params ''params must include siteId or slug'' w
      else case sv_sites sv w of
             Inl e \<Rightarrow> after [GetSites] (stop (Untyped e) w)
           | Inr rows \<Rightarrow>
               after [GetSites]
                 (case List.find (\<lambda>s. site_slug s = pm_slug p) rows of
                    None \<Rightarrow> stop (Typed (not_found ''site'')) w
                  | Some s \<Rightarrow> k (site_id s) w))"

definition with_site ::
  "'w service \<Rightarrow> field list \<Rightarrow> jval option \<Rightarrow> (params \<Rightarrow> string \<Rightarrow> 'w \<Rightarrow> 'w handled) \<Rightarrow> 'w \<Rightarrow> 'w handled" where
  "with_site sv fs pv k w = with_params sv (site_ref_fields @ fs) pv (\<lambda>p. resolve_site sv p (k p)) w"

definition to_describe :: "params \<Rightarrow> describe_options" where
  "to_describe p = \<lparr>do_activity = pm_include_activity p, do_activity_limit = pm_activity_limit p,
     do_snapshots = pm_include_snapshots p, do_host_port = pm_include_host_port p\<rparr>"

definition make_site_list :: "'w service \<Rightarrow> jval option \<Rightarrow> 'w \<Rightarrow> 'w handled" where
  "make_site_list sv pv =
     with_params sv list_option_fields pv (\<lambda>p. call sv (DescribeAll (to_describe p)) Untyped Answer)"

definition make_site_describe :: "'w service \<Rightarrow> jval option \<Rightarrow> 'w \<Rightarrow> 'w handled" where
  "make_site_describe sv pv =
     with_site sv list_option_fields pv (\<lambda>p i. call sv (Describe i (to_describe p)) Untyped
       (\<lambda>v. if v = VNull then Refuses (Typed (not_found ''site'')) else Answer v))"

definition make_site_start :: "'w service \<Rightarrow> jval option \<Rightarrow> 'w \<Rightarrow> 'w handled" where
  "make_site_start sv pv =
     with_site sv [] pv (\<lambda>p i. call sv (StartSite i) map_not_found_error
       (\<lambda>_. Answer (VObj [(''siteId'', VStr i), (''started'', VBool True)])))"

definition make_site_stop :: "'w service \<Rightarrow> jval option \<Rightarrow> 'w \<Rightarrow> 'w handled" where
  "make_site_stop sv pv =
     with_site sv [] pv (\<lambda>p i. call sv (StopSite i) map_not_found_error
       (\<lambda>_. Answer (VObj [(''siteId'', VStr i), (''stopped'', VBool True)])))"

text \<open>The rows of the two activity methods are a payload here; \<^verbatim>\<open>activityToWire\<close> copies their fields.\<close>

definition make_recent_activity :: "'w service \<Rightarrow> jval option \<Rightarrow> 'w \<Rightarrow> 'w handled" where
  "make_recent_activity sv pv =
     with_site sv [] pv (\<lambda>p i. call sv (RecentActivity i) Untyped (\<lambda>v. Answer (VObj [(''events'', v)])))"

definition make_get_activity :: "'w service \<Rightarrow> jval option \<Rightarrow> 'w \<Rightarrow> 'w handled" where
  "make_get_activity sv pv =
     with_site sv [int_field ''limit'' pm_limit (\<lambda>v p. p\<lparr>pm_limit := v\<rparr>)] pv
       (\<lambda>p i. call sv (GetActivity i (if pm_limit p \<le> 0 then 50 else pm_limit p)) Untyped
          (\<lambda>v. Answer (VObj [(''events'', v)])))"

definition make_container_logs :: "'w service \<Rightarrow> jval option \<Rightarrow> 'w \<Rightarrow> 'w handled" where
  "make_container_logs sv pv =
     with_site sv [string_field ''service'' pm_service (\<lambda>v p. p\<lparr>pm_service := v\<rparr>),
                   int_field ''lines'' pm_lines (\<lambda>v p. p\<lparr>pm_lines := v\<rparr>)] pv
       (\<lambda>p i w.
          if pm_service p = [] then invalid_params ''service is required'' w
          else if pm_service p \<notin> {''web'', ''php'', ''database'', ''redis''}
          then invalid_params (''unknown service: '' @ pm_service p) w
          else let lines = (if pm_lines p \<le> 0 then 200 else pm_lines p)
               in call sv (ContainerLogs i (pm_service p) lines) map_not_found_error
                    (\<lambda>v. Answer (VObj [(''lines'', VInt lines), (''output'', v), (''service'', VStr (pm_service p))])) w)"

definition make_wp_cli :: "'w service \<Rightarrow> jval option \<Rightarrow> 'w \<Rightarrow> 'w handled" where
  "make_wp_cli sv pv =
     with_site sv [strings_field ''args'' pm_args (\<lambda>v p. p\<lparr>pm_args := v\<rparr>)] pv
       (\<lambda>p i w.
          if pm_args p = [] then invalid_params ''args must contain at least one wp-cli argument'' w
          else if \<exists>a\<in>set (pm_args p). CHR 0x00 \<in> set a
          then invalid_params ''wp-cli args must not contain NUL bytes'' w
          else call sv (ExecWPCLI i (pm_args p)) map_not_found_error (\<lambda>v. Answer (VObj [(''output'', v)])) w)"

definition make_snapshot_create :: "'w service \<Rightarrow> jval option \<Rightarrow> 'w \<Rightarrow> 'w handled" where
  "make_snapshot_create sv pv =
     with_site sv [string_field ''label'' pm_label (\<lambda>v p. p\<lparr>pm_label := v\<rparr>)] pv
       (\<lambda>p i. call sv (MakeSnapshot i (pm_label p)) map_not_found_error (\<lambda>v. Answer (VObj [(''path'', v)])))"

definition snapshot_row :: "params \<Rightarrow> site \<Rightarrow> bool" where
  "snapshot_row p s \<longleftrightarrow> pm_site_id p \<noteq> [] \<and> site_id s = pm_site_id p \<or> pm_slug p \<noteq> [] \<and> site_slug s = pm_slug p"

definition make_snapshot_list :: "'w service \<Rightarrow> jval option \<Rightarrow> 'w \<Rightarrow> 'w handled" where
  "make_snapshot_list sv pv =
     with_params sv site_ref_fields pv
       (\<lambda>p w.
          case sv_sites sv w of
            Inl e \<Rightarrow> after [GetSites] (stop (Untyped e) w)
          | Inr rows \<Rightarrow>
              after [GetSites]
                (let slug = (case List.find (snapshot_row p) rows of None \<Rightarrow> [] | Some s \<Rightarrow> site_slug s)
                 in if slug = [] then stop (Typed (not_found ''site'')) w
                    else call sv (ListSnapshots slug) Untyped (\<lambda>v. Answer (VObj [(''snapshots'', v)])) w))"

definition make_snapshot_restore :: "'w service \<Rightarrow> jval option \<Rightarrow> 'w \<Rightarrow> 'w handled" where
  "make_snapshot_restore sv pv =
     with_params sv (site_ref_fields @ [string_field ''path'' pm_path (\<lambda>v p. p\<lparr>pm_path := v\<rparr>),
                     bool_field ''force'' pm_force (\<lambda>v p. p\<lparr>pm_force := v\<rparr>), bool_field ''skipHook'' (\<lambda>_. False) (\<lambda>_ p. p)]) pv
       (\<lambda>p w.
          if pm_path p = [] then invalid_params ''snapshot path is required'' w
          else resolve_site sv p (\<lambda>i. call sv (RestoreSnapshot i (pm_path p) (pm_force p)) map_not_found_error
                 (\<lambda>_. Answer (VObj [(''restored'', VBool True)]))) w)"

text \<open>Listing the hooks of a site is a call of the service too; its rows are typed.\<close>

definition with_hooks :: "'w service \<Rightarrow> string \<Rightarrow> (hook list \<Rightarrow> 'w \<Rightarrow> 'w handled) \<Rightarrow> 'w \<Rightarrow> 'w handled" where
  "with_hooks sv i k w =
     (case sv_hooks sv i w of
        Inl e \<Rightarrow> after [ListSiteHooks i] (stop (Untyped e) w)
      | Inr hs \<Rightarrow> after [ListSiteHooks i] (k hs w))"

definition make_hook_list :: "'w service \<Rightarrow> (hook list \<Rightarrow> jval) \<Rightarrow> jval option \<Rightarrow> 'w \<Rightarrow> 'w handled" where
  "make_hook_list sv wire pv =
     with_site sv [] pv (\<lambda>p i. with_hooks sv i (\<lambda>hs w. (Answer (VObj [(''hooks'', wire hs)]), [], w)))"

definition make_hook_run :: "'w service \<Rightarrow> jval option \<Rightarrow> 'w \<Rightarrow> 'w handled" where
  "make_hook_run sv pv =
     with_site sv [int_field ''hookId'' pm_hook_id (\<lambda>v p. p\<lparr>pm_hook_id := v\<rparr>)] pv
       (\<lambda>p i. with_hooks sv i
          (\<lambda>hs w. case List.find (\<lambda>h. hook_id h = pm_hook_id p) hs of
             None \<Rightarrow> stop (Typed (not_found ''hook'')) w
           | Some h \<Rightarrow> call sv (RunHookNow h) Untyped (\<lambda>v. Answer (VObj [(''result'', v)])) w))"

definition make_site_delete :: "'w service \<Rightarrow> jval option \<Rightarrow> 'w \<Rightarrow> 'w handled" where
  "make_site_delete sv pv =
     with_site sv [bool_field ''purgeVolume'' pm_purge_volume (\<lambda>v p. p\<lparr>pm_purge_volume := v\<rparr>),
                   bool_field ''skipSnapshot'' pm_skip_snapshot (\<lambda>v p. p\<lparr>pm_skip_snapshot := v\<rparr>),
                   bool_field ''forceWorktree'' pm_force_worktree (\<lambda>v p. p\<lparr>pm_force_worktree := v\<rparr>),
                   bool_field ''dryRun'' pm_dry_run (\<lambda>v p. p\<lparr>pm_dry_run := v\<rparr>)] pv
       (\<lambda>p i. call sv (DeleteSite i \<lparr>del_purge_volume = pm_purge_volume p, del_skip_snapshot = pm_skip_snapshot p,
                  del_force_worktree = pm_force_worktree p, del_dry_run = pm_dry_run p\<rparr>)
          (\<lambda>e. if se_dirty e then Typed (new_method_error code_conflict (se_text e) (Some (se_text e)))
               else map_not_found_error e)
          (\<lambda>_. Answer (VObj [(''deleted'', VBool (\<not> pm_dry_run p)), (''dryRun'', VBool (pm_dry_run p)), (''siteId'', VStr i)])))"

definition worktree_fields :: "field list" where
  "worktree_fields =
     [string_field ''name'' pm_name (\<lambda>v p. p\<lparr>pm_name := v\<rparr>),
      string_field ''gitRemote'' pm_git_remote (\<lambda>v p. p\<lparr>pm_git_remote := v\<rparr>),
      string_field ''branch'' pm_branch (\<lambda>v p. p\<lparr>pm_branch := v\<rparr>),
      string_field ''parentSlug'' pm_parent_slug (\<lambda>v p. p\<lparr>pm_parent_slug := v\<rparr>),
      bool_field ''cloneDb'' pm_clone_db (\<lambda>v p. p\<lparr>pm_clone_db := v\<rparr>),
      string_field ''phpVersion'' pm_php_version (\<lambda>v p. p\<lparr>pm_php_version := v\<rparr>),
      string_field ''dbEngine'' pm_db_engine (\<lambda>v p. p\<lparr>pm_db_engine := v\<rparr>),
      string_field ''dbVersion'' pm_db_version (\<lambda>v p. p\<lparr>pm_db_version := v\<rparr>),
      string_field ''redisVersion'' pm_redis_version (\<lambda>v p. p\<lparr>pm_redis_version := v\<rparr>),
      string_field ''worktreeRoot'' pm_worktree_root (\<lambda>v p. p\<lparr>pm_worktree_root := v\<rparr>),
      bool_field ''dryRun'' pm_dry_run (\<lambda>v p. p\<lparr>pm_dry_run := v\<rparr>)]"

definition make_worktree_create :: "'w service \<Rightarrow> jval option \<Rightarrow> 'w \<Rightarrow> 'w handled" where
  "make_worktree_create sv pv =
     with_params sv worktree_fields pv (\<lambda>p. call sv
       (CreateWorktree \<lparr>wo_name = pm_name p, wo_git_remote = pm_git_remote p, wo_branch = pm_branch p,
          wo_parent_slug = pm_parent_slug p, wo_clone_db = pm_clone_db p, wo_php_version = pm_php_version p,
          wo_db_engine = pm_db_engine p, wo_db_version = pm_db_version p, wo_redis_version = pm_redis_version p,
          wo_worktree_root = pm_worktree_root p, wo_dry_run = pm_dry_run p\<rparr>) Untyped Answer)"

section \<open>The method table\<close>

record 'w method_entry =
  mt_handler :: "jval option \<Rightarrow> 'w \<Rightarrow> 'w handled"
  mt_read_only :: bool
  mt_site_scoped :: bool

definition read_only_scoped :: "(jval option \<Rightarrow> 'w \<Rightarrow> 'w handled) \<Rightarrow> 'w method_entry" where
  "read_only_scoped h = \<lparr>mt_handler = h, mt_read_only = True, mt_site_scoped = True\<rparr>"

definition mutating_scoped :: "(jval option \<Rightarrow> 'w \<Rightarrow> 'w handled) \<Rightarrow> 'w method_entry" where
  "mutating_scoped h = \<lparr>mt_handler = h, mt_read_only = False, mt_site_scoped = True\<rparr>"

definition method_table :: "'w service \<Rightarrow> (hook list \<Rightarrow> jval) \<Rightarrow> (string \<times> 'w method_entry) list" where
  "method_table sv wire =
     [(''site.list'', \<lparr>mt_handler = make_site_list sv, mt_read_only = True, mt_site_scoped = False\<rparr>),
      (''site.describe'', read_only_scoped (make_site_describe sv)),
      (''site.recentActivity'', read_only_scoped (make_recent_activity sv)),
      (''site.activity'', read_only_scoped (make_get_activity sv)),
      (''site.logs'', read_only_scoped (make_container_logs sv)),
      (''snapshot.list'', read_only_scoped (make_snapshot_list sv)),
      (''hook.list'', read_only_scoped (make_hook_list sv wire)),
      (''site.start'', mutating_scoped (make_site_start sv)),
      (''site.stop'', mutating_scoped (make_site_stop sv)),
      (''site.wp'', mutating_scoped (make_wp_cli sv)),
      (''site.delete'', mutating_scoped (make_site_delete sv)),
      (''site.create_worktree'', \<lparr>mt_handler = make_worktree_create sv, mt_read_only = False, mt_site_scoped = False\<rparr>),
      (''snapshot.create'', mutating_scoped (make_snapshot_create sv)),
      (''snapshot.restore'', mutating_scoped (make_snapshot_restore sv)),
      (''hook.run'', mutating_scoped (make_hook_run sv))]"

section \<open>The dispatcher\<close>

record conn =
  cn_peer_kind :: string
  cn_mcp_scope :: string
  cn_profile :: string

definition profile_full :: string where "profile_full = ''full''"
definition profile_read_only :: string where "profile_read_only = ''readonly''"
definition json_rpc_version :: string where "json_rpc_version = ''2.0''"

definition new_conn :: conn where
  "new_conn = \<lparr>cn_peer_kind = [], cn_mcp_scope = [], cn_profile = profile_full\<rparr>"

record request =
  rq_version :: string
  rq_id :: "jval option"
  rq_method :: string
  rq_params :: "jval option"

record response =
  rs_id :: "jval option"
  rs_result :: "jval option"
  rs_error :: "(int \<times> string) option"

definition failed :: "jval option \<Rightarrow> int \<Rightarrow> string \<Rightarrow> response" where
  "failed i code msg = \<lparr>rs_id = i, rs_result = None, rs_error = Some (code, msg)\<rparr>"

definition succeeded :: "jval option \<Rightarrow> jval \<Rightarrow> response" where
  "succeeded i v = \<lparr>rs_id = i, rs_result = Some v, rs_error = None\<rparr>"

text \<open>The gate of site-scoped methods; \<open>quote\<close> is the \<^verbatim>\<open>%q\<close> verb of the message.\<close>

definition enforce_scope :: "(string \<Rightarrow> string) \<Rightarrow> string \<Rightarrow> jval option \<Rightarrow> string option" where
  "enforce_scope quote scope pv =
     (case pv of None \<Rightarrow> Some ''mcp scope: method requires site id but params are empty''
      | Some v \<Rightarrow>
          (case unmarshal site_ref_fields v of
             None \<Rightarrow> Some ''mcp scope: params must include siteId or slug''
           | Some p \<Rightarrow>
               if pm_site_id p \<noteq> [] \<and> pm_site_id p = scope then None
               else if pm_slug p \<noteq> [] \<and> pm_slug p = scope then None
               else Some (''mcp scope: requested '' @ quote (first_non_empty [pm_site_id p, pm_slug p])
                          @ '' does not match conn scope '' @ quote scope)))"

definition server_info :: "conn \<Rightarrow> jval" where
  "server_info c = VObj [(''version'', VStr json_rpc_version), (''profile'', VStr (cn_profile c))]"

text \<open>The hello parameters, decoded; the reply and the connection after it.\<close>

definition decode_hello :: "jval \<Rightarrow> (string \<times> string \<times> string) option" where
  "decode_hello v =
     (case v of VNull \<Rightarrow> Some ([], [], [])
      | VObj kvs \<Rightarrow>
          (case (decode_field as_string ''peerKind'' kvs [], decode_field as_string ''profile'' kvs [],
                 decode_field as_string ''mcpScope'' kvs []) of
             (Some k, Some p, Some s) \<Rightarrow> Some (k, p, s) | _ \<Rightarrow> None)
      | _ \<Rightarrow> None)"

definition handle_hello :: "(jval \<Rightarrow> string) \<Rightarrow> conn \<Rightarrow> request \<Rightarrow> response \<times> conn" where
  "handle_hello json_error c rq =
     (case (case rq_params rq of None \<Rightarrow> Some ([], [], []) | Some v \<Rightarrow> decode_hello v) of
        None \<Rightarrow> (failed (rq_id rq) code_invalid_params (''hello: '' @ json_error (the (rq_params rq))), c)
      | Some (kind, profile, scope) \<Rightarrow>
          (let c = c\<lparr>cn_peer_kind := kind\<rparr>
           in if profile \<noteq> [] \<and> profile \<noteq> profile_full \<and> profile \<noteq> profile_read_only
              then (failed (rq_id rq) code_invalid_params (''unknown profile: '' @ profile), c)
              else let c = (if profile \<noteq> [] then c\<lparr>cn_profile := profile\<rparr> else c)\<lparr>cn_mcp_scope := scope\<rparr>
                   in (succeeded (rq_id rq) (server_info c), c)))"

definition handler_error_response :: "(string \<Rightarrow> string) \<Rightarrow> jval option \<Rightarrow> handler_error \<Rightarrow> response" where
  "handler_error_response redact i e =
     (case e of Typed me \<Rightarrow> failed i (me_code me) (redact (method_error_text me))
      | Untyped se \<Rightarrow>
          (case se_method se of Some me \<Rightarrow> failed i (me_code me) (redact (method_error_text me))
           | None \<Rightarrow> failed i code_internal_error (redact (se_text se))))"

definition run_handler ::
  "(string \<Rightarrow> string) \<Rightarrow> 'w method_entry \<Rightarrow> request \<Rightarrow> 'w \<Rightarrow> response \<times> service_call list \<times> 'w" where
  "run_handler redact m rq w =
     (case mt_handler m (rq_params rq) w of
        (Answer v, cs, w') \<Rightarrow> (succeeded (rq_id rq) v, cs, w')
      | (Refuses e, cs, w') \<Rightarrow> (handler_error_response redact (rq_id rq) e, cs, w')
      | (Crashed, cs, w') \<Rightarrow>
          (handler_error_response redact (rq_id rq) (Typed (new_method_error code_internal_error ''internal error'' None)),
           cs, w'))"

record 'w server =
  sr_service :: "'w service"
  sr_wire :: "hook list \<Rightarrow> jval"
  sr_quote :: "string \<Rightarrow> string"
  sr_redact :: "string \<Rightarrow> string"

definition dispatch ::
  "'w server \<Rightarrow> conn \<Rightarrow> request \<Rightarrow> 'w \<Rightarrow> response \<times> conn \<times> service_call list \<times> 'w" where
  "dispatch s c rq w =
     (if rq_version rq \<noteq> [] \<and> rq_version rq \<noteq> json_rpc_version
      then (failed (rq_id rq) code_invalid_request ''unsupported jsonrpc version'', c, [], w)
      else if rq_method rq = ''client.hello''
      then (case handle_hello (sv_json_error (sr_service s)) c rq of (r, c') \<Rightarrow> (r, c', [], w))
      else if rq_method rq = ''server.info'' then (succeeded (rq_id rq) (server_info c), c, [], w)
      else case map_of (method_table (sr_service s) (sr_wire s)) (rq_method rq) of
             None \<Rightarrow> (failed (rq_id rq) code_method_not_found (''method not found: '' @ rq_method rq), c, [], w)
           | Some m \<Rightarrow>
               if cn_profile c = profile_read_only \<and> \<not> mt_read_only m
               then (failed (rq_id rq) code_forbidden (''method not permitted in readonly profile: '' @ rq_method rq), c, [], w)
               else case (if mt_site_scoped m \<and> cn_mcp_scope c \<noteq> []
                          then enforce_scope (sr_quote s) (cn_mcp_scope c) (rq_params rq) else None) of
                      Some msg \<Rightarrow> (failed (rq_id rq) code_forbidden msg, c, [], w)
                    | None \<Rightarrow> (case run_handler (sr_redact s) m rq w of (r, cs, w') \<Rightarrow> (r, c, cs, w')))"

text \<open>
  \<^verbatim>\<open>handleConn\<close>: the lines of a connection in turn, empty ones skipped. \<open>parse\<close> reads a frame, or gives the
  decoder's message.
\<close>

fun handle_conn ::
  "'w server \<Rightarrow> (string \<Rightarrow> string + request) \<Rightarrow> string list \<Rightarrow> conn \<Rightarrow> 'w
    \<Rightarrow> response list \<times> service_call list \<times> 'w" where
  "handle_conn s parse [] c w = ([], [], w)"
| "handle_conn s parse (l # ls) c w =
     (if l = [] then handle_conn s parse ls c w
      else case parse l of
             Inl e \<Rightarrow>
               (case handle_conn s parse ls c w of
                  (rs, cs, w') \<Rightarrow> (failed None code_parse_error (''parse error: '' @ e) # rs, cs, w'))
           | Inr rq \<Rightarrow>
               (case dispatch s c rq w of
                  (r, c', cs1, w1) \<Rightarrow>
                    (case handle_conn s parse ls c' w1 of (rs, cs, w') \<Rightarrow> (r # rs, cs1 @ cs, w'))))"

section \<open>The calls of a handler\<close>

definition makes_only :: "(service_call \<Rightarrow> bool) \<Rightarrow> 'w handled \<Rightarrow> bool" where
  "makes_only P h \<longleftrightarrow> list_all P (fst (snd h))"

lemma makes_only_call [simp]: "makes_only P (call sv c f g w) \<longleftrightarrow> P c"
  by (auto simp: makes_only_def call_def split: reply.splits prod.splits)

lemma makes_only_after [simp]: "makes_only P (after cs h) \<longleftrightarrow> list_all P cs \<and> makes_only P h"
  by (cases h) (simp add: makes_only_def after_def)

lemma makes_only_stop [simp]: "makes_only P (stop e w)" "makes_only P (invalid_params msg w)" "makes_only P (a, [], w)"
  by (simp_all add: makes_only_def stop_def invalid_params_def)

lemma makes_only_with_params:
  "(\<And>p. (case pv of None \<Rightarrow> p = zero_params | Some v \<Rightarrow> unmarshal fs v = Some p) \<Longrightarrow> makes_only P (k p w)) \<Longrightarrow>
     makes_only P (with_params sv fs pv k w)"
  by (auto simp: with_params_def split: option.splits)

text \<open>The sites a reference can resolve to.\<close>

definition names_site :: "'w service \<Rightarrow> params \<Rightarrow> 'w \<Rightarrow> string \<Rightarrow> bool" where
  "names_site sv p w i \<longleftrightarrow>
     (if pm_site_id p \<noteq> [] then i = pm_site_id p
      else pm_slug p \<noteq> [] \<and> (\<exists>rows s. sv_sites sv w = Inr rows \<and> s \<in> set rows \<and> site_slug s = pm_slug p \<and> site_id s = i))"

lemma makes_only_resolve_site:
  assumes "P GetSites" and "\<And>i. names_site sv p w i \<Longrightarrow> makes_only P (k i w)"
  shows "makes_only P (resolve_site sv p k w)"
proof -
  have "names_site sv p w (site_id s)"
    if "pm_site_id p = []" "pm_slug p \<noteq> []" "sv_sites sv w = Inr rows" "List.find (\<lambda>s. site_slug s = pm_slug p) rows = Some s"
    for rows s
    using that by (auto simp: names_site_def find_Some_iff) (metis nth_mem)
  then show ?thesis using assms
    by (auto simp: resolve_site_def names_site_def split: sum.splits option.splits)
qed

lemma makes_only_with_hooks:
  "P (ListSiteHooks i) \<Longrightarrow> (\<And>hs. sv_hooks sv i w = Inr hs \<Longrightarrow> makes_only P (k hs w)) \<Longrightarrow>
     makes_only P (with_hooks sv i k w)"
  by (auto simp: with_hooks_def split: sum.splits)

text \<open>Decoding the other parameters of a method does not change the site reference.\<close>

definition keeps_ref :: "field \<Rightarrow> bool" where
  "keeps_ref f \<longleftrightarrow> (\<forall>kvs p p'. f kvs p = Some p' \<longrightarrow> pm_site_id p' = pm_site_id p \<and> pm_slug p' = pm_slug p)"

lemma keeps_ref_fields:
  "(\<And>v p. pm_site_id (put v p) = pm_site_id p \<and> pm_slug (put v p) = pm_slug p) \<Longrightarrow> keeps_ref (string_field n g put)"
  "(\<And>v p. pm_site_id (put2 v p) = pm_site_id p \<and> pm_slug (put2 v p) = pm_slug p) \<Longrightarrow> keeps_ref (bool_field n g2 put2)"
  "(\<And>v p. pm_site_id (put3 v p) = pm_site_id p \<and> pm_slug (put3 v p) = pm_slug p) \<Longrightarrow> keeps_ref (int_field n g3 put3)"
  "(\<And>v p. pm_site_id (put4 v p) = pm_site_id p \<and> pm_slug (put4 v p) = pm_slug p) \<Longrightarrow> keeps_ref (strings_field n g4 put4)"
  by (auto simp: keeps_ref_def string_field_def bool_field_def int_field_def strings_field_def)

lemma decode_fields_append:
  "decode_fields (fs @ gs) kvs p =
     (case decode_fields fs kvs p of None \<Rightarrow> None | Some p' \<Rightarrow> decode_fields gs kvs p')"
  by (induction fs arbitrary: p) (auto split: option.splits)

lemma decode_keeps_ref:
  "list_all keeps_ref fs \<Longrightarrow> decode_fields fs kvs p = Some p' \<Longrightarrow> pm_site_id p' = pm_site_id p \<and> pm_slug p' = pm_slug p"
  by (induction fs arbitrary: p) (auto simp: keeps_ref_def split: option.splits)

lemma unmarshal_ref:
  assumes "unmarshal (site_ref_fields @ fs) v = Some p" and "list_all keeps_ref fs"
  obtains q where "unmarshal site_ref_fields v = Some q" "pm_site_id q = pm_site_id p" "pm_slug q = pm_slug p"
  using assms
  by (cases v) (auto simp: decode_fields_append dest: decode_keeps_ref split: option.splits)

text \<open>The sites the parameters of a request can resolve to.\<close>

definition reaches :: "'w service \<Rightarrow> jval option \<Rightarrow> 'w \<Rightarrow> string \<Rightarrow> bool" where
  "reaches sv pv w i \<longleftrightarrow> (\<exists>v q. pv = Some v \<and> unmarshal site_ref_fields v = Some q \<and> names_site sv q w i)"

lemma reaches_intro:
  assumes "case pv of None \<Rightarrow> p = zero_params | Some v \<Rightarrow> unmarshal (site_ref_fields @ fs) v = Some p"
    and "list_all keeps_ref fs" and "names_site sv p w i"
  shows "reaches sv pv w i"
proof (cases pv)
  case None
  with assms(1,3) show ?thesis by (simp add: names_site_def zero_params_def)
next
  case (Some v)
  with assms(1) have "unmarshal (site_ref_fields @ fs) v = Some p" by simp
  then obtain q where "unmarshal site_ref_fields v = Some q" "pm_site_id q = pm_site_id p" "pm_slug q = pm_slug p"
    using assms(2) by (rule unmarshal_ref)
  with assms(3) Some show ?thesis by (auto simp: reaches_def names_site_def)
qed

lemma makes_only_with_site:
  assumes "list_all keeps_ref fs" and "P GetSites" and "\<And>p i. reaches sv pv w i \<Longrightarrow> makes_only P (k p i w)"
  shows "makes_only P (with_site sv fs pv k w)"
  unfolding with_site_def using assms
  by (intro makes_only_with_params makes_only_resolve_site) (auto intro: reaches_intro)

section \<open>What each handler calls\<close>

lemma makes_site_list: "(\<And>opts. P (DescribeAll opts)) \<Longrightarrow> makes_only P (make_site_list sv pv w)"
  unfolding make_site_list_def by (rule makes_only_with_params) simp

lemma makes_worktree_create: "(\<And>opts. P (CreateWorktree opts)) \<Longrightarrow> makes_only P (make_worktree_create sv pv w)"
  unfolding make_worktree_create_def by (rule makes_only_with_params) simp

lemma makes_describe:
  "P GetSites \<Longrightarrow> (\<And>i opts. reaches sv pv w i \<Longrightarrow> P (Describe i opts)) \<Longrightarrow> makes_only P (make_site_describe sv pv w)"
  unfolding make_site_describe_def
  by (rule makes_only_with_site) (simp_all add: list_option_fields_def keeps_ref_fields)

lemma makes_start:
  "P GetSites \<Longrightarrow> (\<And>i. reaches sv pv w i \<Longrightarrow> P (StartSite i)) \<Longrightarrow> makes_only P (make_site_start sv pv w)"
  unfolding make_site_start_def by (rule makes_only_with_site) simp_all

lemma makes_stop:
  "P GetSites \<Longrightarrow> (\<And>i. reaches sv pv w i \<Longrightarrow> P (StopSite i)) \<Longrightarrow> makes_only P (make_site_stop sv pv w)"
  unfolding make_site_stop_def by (rule makes_only_with_site) simp_all

lemma makes_recent_activity:
  "P GetSites \<Longrightarrow> (\<And>i. reaches sv pv w i \<Longrightarrow> P (RecentActivity i)) \<Longrightarrow> makes_only P (make_recent_activity sv pv w)"
  unfolding make_recent_activity_def by (rule makes_only_with_site) simp_all

lemma makes_get_activity:
  "P GetSites \<Longrightarrow> (\<And>i n. reaches sv pv w i \<Longrightarrow> P (GetActivity i n)) \<Longrightarrow> makes_only P (make_get_activity sv pv w)"
  unfolding make_get_activity_def by (rule makes_only_with_site) (simp_all add: keeps_ref_fields)

lemma makes_container_logs:
  "P GetSites \<Longrightarrow> (\<And>i svc n. reaches sv pv w i \<Longrightarrow> P (ContainerLogs i svc n)) \<Longrightarrow> makes_only P (make_container_logs sv pv w)"
  unfolding make_container_logs_def by (rule makes_only_with_site) (simp_all add: keeps_ref_fields Let_def)

lemma makes_wp_cli:
  "P GetSites \<Longrightarrow> (\<And>i args. reaches sv pv w i \<Longrightarrow> P (ExecWPCLI i args)) \<Longrightarrow> makes_only P (make_wp_cli sv pv w)"
  unfolding make_wp_cli_def by (rule makes_only_with_site) (simp_all add: keeps_ref_fields)

lemma makes_snapshot_create:
  "P GetSites \<Longrightarrow> (\<And>i l. reaches sv pv w i \<Longrightarrow> P (MakeSnapshot i l)) \<Longrightarrow> makes_only P (make_snapshot_create sv pv w)"
  unfolding make_snapshot_create_def by (rule makes_only_with_site) (simp_all add: keeps_ref_fields)

lemma makes_hook_list:
  "P GetSites \<Longrightarrow> (\<And>i. reaches sv pv w i \<Longrightarrow> P (ListSiteHooks i)) \<Longrightarrow> makes_only P (make_hook_list sv wire pv w)"
  unfolding make_hook_list_def
  by (rule makes_only_with_site) (simp_all add: makes_only_with_hooks)

lemma makes_delete:
  "P GetSites \<Longrightarrow> (\<And>i opts. reaches sv pv w i \<Longrightarrow> P (DeleteSite i opts)) \<Longrightarrow> makes_only P (make_site_delete sv pv w)"
  unfolding make_site_delete_def by (rule makes_only_with_site) (simp_all add: keeps_ref_fields)

lemma makes_restore:
  assumes "P GetSites" and "\<And>i path force. reaches sv pv w i \<Longrightarrow> P (RestoreSnapshot i path force)"
  shows "makes_only P (make_snapshot_restore sv pv w)"
proof -
  have kept: "list_all keeps_ref [string_field ''path'' pm_path (\<lambda>v p. p\<lparr>pm_path := v\<rparr>),
      bool_field ''force'' pm_force (\<lambda>v p. p\<lparr>pm_force := v\<rparr>), bool_field ''skipHook'' (\<lambda>_. False) (\<lambda>_ p. p)]"
    by (simp add: keeps_ref_fields)
  show ?thesis unfolding make_snapshot_restore_def
    by (rule makes_only_with_params)
      (simp add: assms makes_only_resolve_site reaches_intro [OF _ kept])
qed

lemma makes_hook_run:
  assumes "P GetSites" and "\<And>i. reaches sv pv w i \<Longrightarrow> P (ListSiteHooks i)"
    and "\<And>i hs h. reaches sv pv w i \<Longrightarrow> sv_hooks sv i w = Inr hs \<Longrightarrow> h \<in> set hs \<Longrightarrow> P (RunHookNow h)"
  shows "makes_only P (make_hook_run sv pv w)"
proof -
  have found: "h \<in> set hs" if "List.find Q hs = Some h" for Q h and hs :: "hook list"
    using that by (auto simp: find_Some_iff)
  show ?thesis unfolding make_hook_run_def
    by (rule makes_only_with_site)
      (auto simp: keeps_ref_fields assms(1) intro!: makes_only_with_hooks assms(2) split: option.split
        intro: assms(3) [OF _ _ found])
qed

section \<open>Reading only\<close>

fun reads_only :: "service_call \<Rightarrow> bool" where
  "reads_only (DescribeAll opts) = True"
| "reads_only (Describe i opts) = True"
| "reads_only (RecentActivity i) = True"
| "reads_only (GetActivity i n) = True"
| "reads_only (ContainerLogs i svc n) = True"
| "reads_only (ListSnapshots slug) = True"
| "reads_only (ListSiteHooks i) = True"
| "reads_only GetSites = True"
| "reads_only c = False"

lemma snapshot_list_calls:
  assumes "P GetSites"
    and "\<And>p rows s. (case pv of None \<Rightarrow> p = zero_params | Some v \<Rightarrow> unmarshal site_ref_fields v = Some p) \<Longrightarrow>
      sv_sites sv w = Inr rows \<Longrightarrow> s \<in> set rows \<Longrightarrow> snapshot_row p s \<Longrightarrow> P (ListSnapshots (site_slug s))"
  shows "makes_only P (make_snapshot_list sv pv w)"
  unfolding make_snapshot_list_def
proof (rule makes_only_with_params)
  fix p assume p: "case pv of None \<Rightarrow> p = zero_params | Some v \<Rightarrow> unmarshal site_ref_fields v = Some p"
  show "makes_only P (case sv_sites sv w of Inl e \<Rightarrow> after [GetSites] (stop (Untyped e) w)
      | Inr rows \<Rightarrow> after [GetSites]
          (let slug = (case List.find (snapshot_row p) rows of None \<Rightarrow> [] | Some s \<Rightarrow> site_slug s)
           in if slug = [] then stop (Typed (not_found ''site'')) w
              else call sv (ListSnapshots slug) Untyped (\<lambda>v. Answer (VObj [(''snapshots'', v)])) w))"
  proof (cases "sv_sites sv w")
    case (Inr rows)
    show ?thesis
    proof (cases "List.find (snapshot_row p) rows")
      case (Some s)
      then have "s \<in> set rows" "snapshot_row p s" by (auto simp: find_Some_iff)
      with assms(1) assms(2) [OF p Inr] Inr Some show ?thesis by (simp add: Let_def)
    qed (use assms(1) Inr in simp)
  qed (use assms(1) in simp)
qed

lemmas scoped_calls = makes_describe makes_start makes_stop makes_recent_activity makes_get_activity
  makes_container_logs makes_wp_cli makes_snapshot_create makes_hook_list makes_delete makes_restore

lemmas table_simps = method_table_def list.map snd_conv list.pred_inject read_only_scoped_def mutating_scoped_def
  method_entry.simps simp_thms

lemma table_entry:
  "list_all Q (map snd (method_table sv wire)) \<Longrightarrow> map_of (method_table sv wire) name = Some m \<Longrightarrow> Q m"
  by (auto dest!: map_of_SomeD simp: list_all_iff)

lemma read_only_methods_read:
  assumes "map_of (method_table sv wire) name = Some m" and "mt_read_only m"
  shows "makes_only reads_only (mt_handler m pv w)"
proof -
  have "makes_only reads_only (make_snapshot_list sv pv w)" by (rule snapshot_list_calls) simp_all
  then have "list_all (\<lambda>m. mt_read_only m \<longrightarrow> makes_only reads_only (mt_handler m pv w)) (map snd (method_table sv wire))"
    by (simp only: table_simps) (intro conjI makes_site_list scoped_calls; simp)
  from table_entry [OF this assms(1)] assms(2) show ?thesis by simp
qed

lemma run_handler_calls:
  "run_handler redact m rq w = (r, cs, w') \<Longrightarrow> makes_only P (mt_handler m (rq_params rq) w) \<Longrightarrow> list_all P cs"
  by (auto simp: run_handler_def makes_only_def split: prod.splits answer.splits)

lemma dispatch_routed:
  assumes "\<not> (rq_version rq \<noteq> [] \<and> rq_version rq \<noteq> json_rpc_version)"
    and "rq_method rq \<noteq> ''client.hello''" and "rq_method rq \<noteq> ''server.info''"
  shows "map_of (method_table (sr_service s) (sr_wire s)) (rq_method rq) = None \<Longrightarrow>
      dispatch s c rq w = (failed (rq_id rq) code_method_not_found (''method not found: '' @ rq_method rq), c, [], w)"
    and "map_of (method_table (sr_service s) (sr_wire s)) (rq_method rq) = Some m \<Longrightarrow>
      dispatch s c rq w =
        (if cn_profile c = profile_read_only \<and> \<not> mt_read_only m
         then (failed (rq_id rq) code_forbidden (''method not permitted in readonly profile: '' @ rq_method rq), c, [], w)
         else case (if mt_site_scoped m \<and> cn_mcp_scope c \<noteq> []
                    then enforce_scope (sr_quote s) (cn_mcp_scope c) (rq_params rq) else None) of
                Some msg \<Rightarrow> (failed (rq_id rq) code_forbidden msg, c, [], w)
              | None \<Rightarrow> (case run_handler (sr_redact s) m rq w of (r, cs, w') \<Rightarrow> (r, c, cs, w')))"
  using assms unfolding dispatch_def by (simp_all only: if_False option.case)

lemma dispatch_calls:
  assumes "dispatch s c rq w = (r, c', cs, w')"
  obtains (unhandled) "cs = []" "w' = w"
    | (handled) m where "map_of (method_table (sr_service s) (sr_wire s)) (rq_method rq) = Some m"
        "\<not> (cn_profile c = profile_read_only \<and> \<not> mt_read_only m)"
        "mt_site_scoped m \<and> cn_mcp_scope c \<noteq> [] \<Longrightarrow> enforce_scope (sr_quote s) (cn_mcp_scope c) (rq_params rq) = None"
        "run_handler (sr_redact s) m rq w = (r, cs, w')"
proof (cases "(rq_version rq \<noteq> [] \<and> rq_version rq \<noteq> json_rpc_version) \<or> rq_method rq = ''client.hello'' \<or> rq_method rq = ''server.info''")
  case True
  with assms have "cs = [] \<and> w' = w"
    unfolding dispatch_def by (simp split: if_split_asm prod.split_asm)
  then show thesis by (simp add: unhandled)
next
  case False
  then have tail: "\<not> (rq_version rq \<noteq> [] \<and> rq_version rq \<noteq> json_rpc_version)"
    "rq_method rq \<noteq> ''client.hello''" "rq_method rq \<noteq> ''server.info''" by blast+
  show thesis
  proof (cases "map_of (method_table (sr_service s) (sr_wire s)) (rq_method rq)")
    case None
    with assms show thesis by (intro unhandled) (simp_all add: dispatch_routed tail)
  next
    case m: (Some m)
    show thesis
    proof (cases "cn_profile c = profile_read_only \<and> \<not> mt_read_only m")
      case True
      with assms m show thesis by (intro unhandled) (simp_all add: dispatch_routed tail)
    next
      case allowed: False
      let ?gate = "if mt_site_scoped m \<and> cn_mcp_scope c \<noteq> []
        then enforce_scope (sr_quote s) (cn_mcp_scope c) (rq_params rq) else None"
      show thesis
      proof (cases ?gate)
        case None
        with assms m allowed have "run_handler (sr_redact s) m rq w = (r, cs, w')"
          by (simp only: dispatch_routed [OF tail] if_False option.case) (simp split: prod.split_asm)
        with m allowed None show thesis by (intro handled) (simp_all split: if_split_asm)
      next
        case (Some msg)
        with assms m allowed have "cs = [] \<and> w' = w"
          by (simp only: dispatch_routed [OF tail] if_False option.case) simp
        then show thesis by (simp add: unhandled)
      qed
    qed
  qed
qed

lemma dispatch_keeps_conn:
  assumes "rq_method rq \<noteq> ''client.hello''"
  shows "fst (snd (dispatch s c rq w)) = c"
  unfolding dispatch_def using assms
  by (simp only: if_False split: if_split option.split prod.split) simp

section \<open>Scope\<close>

definition in_scope :: "'w service \<Rightarrow> 'w \<Rightarrow> string \<Rightarrow> string \<Rightarrow> bool" where
  "in_scope sv w scope i \<longleftrightarrow>
     i = scope \<or> (\<exists>rows s. sv_sites sv w = Inr rows \<and> s \<in> set rows \<and> site_id s = i \<and> site_slug s = scope)"

text \<open>The site a call works on; snapshots are listed by slug.\<close>

fun call_in_scope :: "'w service \<Rightarrow> 'w \<Rightarrow> string \<Rightarrow> service_call \<Rightarrow> bool" where
  "call_in_scope sv w scope (Describe i opts) = in_scope sv w scope i"
| "call_in_scope sv w scope (StartSite i) = in_scope sv w scope i"
| "call_in_scope sv w scope (StopSite i) = in_scope sv w scope i"
| "call_in_scope sv w scope (DeleteSite i opts) = in_scope sv w scope i"
| "call_in_scope sv w scope (RecentActivity i) = in_scope sv w scope i"
| "call_in_scope sv w scope (GetActivity i n) = in_scope sv w scope i"
| "call_in_scope sv w scope (ContainerLogs i svc n) = in_scope sv w scope i"
| "call_in_scope sv w scope (ExecWPCLI i args) = in_scope sv w scope i"
| "call_in_scope sv w scope (MakeSnapshot i label) = in_scope sv w scope i"
| "call_in_scope sv w scope (RestoreSnapshot i path force) = in_scope sv w scope i"
| "call_in_scope sv w scope (ListSiteHooks i) = in_scope sv w scope i"
| "call_in_scope sv w scope (RunHookNow h) = in_scope sv w scope (hook_site_id h)"
| "call_in_scope sv w scope (ListSnapshots slug) =
     (\<exists>rows s. sv_sites sv w = Inr rows \<and> s \<in> set rows \<and> site_slug s = slug \<and> in_scope sv w scope (site_id s))"
| "call_in_scope sv w scope c = True"

text \<open>A request that carries one form of the reference, and a lister that returns the site's own hooks.\<close>

definition one_reference :: "jval option \<Rightarrow> bool" where
  "one_reference pv \<longleftrightarrow>
     (\<forall>v q. pv = Some v \<longrightarrow> unmarshal site_ref_fields v = Some q \<longrightarrow> pm_site_id q = [] \<or> pm_slug q = [])"

definition lists_own_hooks :: "'w service \<Rightarrow> bool" where
  "lists_own_hooks sv \<longleftrightarrow> (\<forall>i w hs. sv_hooks sv i w = Inr hs \<longrightarrow> (\<forall>h\<in>set hs. hook_site_id h = i))"

lemma enforced_reference:
  assumes "enforce_scope quote scope pv = None"
  obtains v q where "pv = Some v" "unmarshal site_ref_fields v = Some q"
    "pm_site_id q \<noteq> [] \<and> pm_site_id q = scope \<or> pm_slug q \<noteq> [] \<and> pm_slug q = scope"
  using assms by (auto simp: enforce_scope_def split: option.splits if_splits)

lemma reaches_in_scope:
  assumes "enforce_scope quote scope pv = None" and "one_reference pv" and "reaches sv pv w i"
  shows "in_scope sv w scope i"
proof -
  from assms(1) obtain v q where "pv = Some v" "unmarshal site_ref_fields v = Some q"
    "pm_site_id q \<noteq> [] \<and> pm_site_id q = scope \<or> pm_slug q \<noteq> [] \<and> pm_slug q = scope" by (rule enforced_reference)
  with assms(2,3) show ?thesis
    by (auto simp: reaches_def one_reference_def names_site_def in_scope_def split: if_splits)
qed

lemma scoped_methods_stay:
  assumes "map_of (method_table sv wire) name = Some m" and "mt_site_scoped m"
    and enf: "enforce_scope quote scope pv = None" and one: "one_reference pv" and hooks: "lists_own_hooks sv"
  shows "makes_only (call_in_scope sv w scope) (mt_handler m pv w)"
proof -
  note site = reaches_in_scope [OF enf one]
  have "makes_only (call_in_scope sv w scope) (make_snapshot_list sv pv w)"
  proof (rule snapshot_list_calls)
    fix p rows s
    assume a: "case pv of None \<Rightarrow> p = zero_params | Some v \<Rightarrow> unmarshal site_ref_fields v = Some p"
      "sv_sites sv w = Inr rows" "s \<in> set rows" "snapshot_row p s"
    from enf obtain v q where "pv = Some v" "unmarshal site_ref_fields v = Some q"
      "pm_site_id q \<noteq> [] \<and> pm_site_id q = scope \<or> pm_slug q \<noteq> [] \<and> pm_slug q = scope" by (rule enforced_reference)
    with a one have "in_scope sv w scope (site_id s)"
      by (auto simp: snapshot_row_def in_scope_def one_reference_def)
    with a show "call_in_scope sv w scope (ListSnapshots (site_slug s))" by auto
  qed simp
  moreover have "makes_only (call_in_scope sv w scope) (make_hook_run sv pv w)"
    using hooks by (auto intro!: makes_hook_run site simp: lists_own_hooks_def)
  ultimately have "list_all (\<lambda>m. mt_site_scoped m \<longrightarrow> makes_only (call_in_scope sv w scope) (mt_handler m pv w))
      (map snd (method_table sv wire))"
    by (simp only: table_simps) (intro conjI scoped_calls; simp add: site)
  from table_entry [OF this assms(1)] assms(2) show ?thesis by simp
qed

section \<open>Answers\<close>

definition well_formed_response :: "response \<Rightarrow> bool" where
  "well_formed_response r \<longleftrightarrow> (rs_result r = None) \<noteq> (rs_error r = None)"

lemma failed_simps [simp]:
  "rs_id (failed i code msg) = i" "rs_error (failed i code msg) = Some (code, msg)" "well_formed_response (failed i code msg)"
  "rs_id (succeeded i v) = i" "rs_error (succeeded i v) = None" "well_formed_response (succeeded i v)"
  by (simp_all add: failed_def succeeded_def well_formed_response_def)

lemma handler_error_response_simps [simp]:
  "rs_id (handler_error_response redact i e) = i" "well_formed_response (handler_error_response redact i e)"
  by (simp_all add: handler_error_response_def split: handler_error.split option.split)

lemma run_handler_answers [simp]:
  "rs_id (fst (run_handler redact m rq w)) = rq_id rq \<and> well_formed_response (fst (run_handler redact m rq w))"
  by (simp add: run_handler_def split: prod.split answer.split)

lemma handle_hello_answers [simp]:
  "rs_id (fst (handle_hello je c rq)) = rq_id rq \<and> well_formed_response (fst (handle_hello je c rq))"
  by (simp add: handle_hello_def Let_def split: option.split prod.split)



lemma handled_error_redacted:
  assumes "run_handler redact m rq w = (r, cs, w')" and "rs_error r = Some (code, msg)"
  obtains s where "msg = redact s"
  using assms
  by (auto simp: run_handler_def handler_error_response_def succeeded_def failed_def
      split: prod.splits answer.splits handler_error.splits option.splits)

text \<open>A service with two sites, one hook and operations that succeed.\<close>

definition demo_service :: "nat service" where
  "demo_service =
     \<lparr>sv_sites = (\<lambda>w. Inr [empty_site\<lparr>site_id := ''u1'', site_slug := ''blog''\<rparr>,
                              empty_site\<lparr>site_id := ''u2'', site_slug := ''shop''\<rparr>]),
      sv_hooks = (\<lambda>i w. Inr [sample_hook\<lparr>hook_site_id := i\<rparr>]),
      sv_do = (\<lambda>c w. (case c of StopSite i \<Rightarrow> Fail \<lparr>se_text = ''db hunter2hunter2 down'', se_method = None, se_dirty = False\<rparr>
                      | _ \<Rightarrow> Reply VNull, Suc w)),
      sv_json_error = (\<lambda>_. ''bad json'')\<rparr>"

definition demo_server :: "nat server" where
  "demo_server = \<lparr>sr_service = demo_service, sr_wire = (\<lambda>_. VNull), sr_quote = (\<lambda>s. s),
     sr_redact = redact_string sorted_list_of_set \<lparr>reg_values = {''hunter2hunter2''}\<rparr>\<rparr>"

definition demo_request :: "string \<Rightarrow> (string \<times> jval) list \<Rightarrow> request" where
  "demo_request name kvs = \<lparr>rq_version = ''2.0'', rq_id = Some (VInt 7), rq_method = name, rq_params = Some (VObj kvs)\<rparr>"

section \<open>Properties\<close>

text \<open>
  C19. A connection whose profile is \<^verbatim>\<open>readonly\<close> changes nothing: unless it says hello again, every call that any sequence
  of its frames makes on the site service is a reading one.
\<close>

theorem readonly_connection_reads_only:
  assumes "cn_profile c = profile_read_only"
    and "\<And>l rq. l \<in> set ls \<Longrightarrow> parse l = Inr rq \<Longrightarrow> rq_method rq \<noteq> ''client.hello''"
  shows "list_all reads_only (fst (snd (handle_conn s parse ls c w)))"
  using assms(2)
proof (induction ls arbitrary: w)
  case (Cons l ls)
  have IH: "list_all reads_only (fst (snd (handle_conn s parse ls c v)))" for v
    by (rule Cons.IH) (use Cons.prems in auto)
  show ?case
  proof (cases "parse l")
    case (Inl e)
    with IH [of w] show ?thesis by (simp add: split_beta)
  next
    case (Inr rq)
    obtain r c' cs w' where d: "dispatch s c rq w = (r, c', cs, w')" by (cases "dispatch s c rq w") auto
    have "rq_method rq \<noteq> ''client.hello''" using Inr by (intro Cons.prems [of l]) simp_all
    then have c': "c' = c" using dispatch_keeps_conn [of rq s c w] by (simp add: d)
    have "list_all reads_only cs"
      using d
    proof (cases rule: dispatch_calls)
      case (handled m)
      with assms(1) show ?thesis by (blast intro: run_handler_calls read_only_methods_read)
    qed simp
    with IH [of w] IH [of w'] d c' Inr show ?thesis by (simp add: split_beta)
  qed
qed simp

lemma readonly_connection_reads_only_witness:
  "list_all reads_only (fst (snd (handle_conn demo_server (\<lambda>l. Inr (demo_request l [(''siteId'', VStr ''u1'')]))
     [''site.start'', ''site.logs'', ''hook.list''] (new_conn\<lparr>cn_profile := profile_read_only\<rparr>) 0)))"
  by (rule readonly_connection_reads_only) (auto simp: demo_request_def)

text \<open>
  C20. A request with one form of the site reference stays in the scope of its connection: every call a site-scoped method
  makes is about a site whose id or slug is the scope (given a lister that returns a site's own hooks).
\<close>

theorem scoped_connection_stays_in_scope:
  assumes "dispatch s c rq w = (r, c', cs, w')"
    and "cn_mcp_scope c \<noteq> []" and "one_reference (rq_params rq)" and "lists_own_hooks (sr_service s)"
    and "rq_method rq \<notin> {''site.list'', ''site.create_worktree''}"
  shows "list_all (call_in_scope (sr_service s) w (cn_mcp_scope c)) cs"
  using assms(1)
proof (cases rule: dispatch_calls)
  case (handled m)
  have "mt_site_scoped m"
    using handled(1) assms(5) by (auto simp: table_simps split: if_splits)
  with handled assms show ?thesis by (blast intro: run_handler_calls scoped_methods_stay)
qed simp

lemma scoped_connection_stays_in_scope_witness:
  "list_all (call_in_scope demo_service 0 ''blog'')
     (fst (snd (snd (dispatch demo_server (new_conn\<lparr>cn_mcp_scope := ''blog''\<rparr>) (demo_request ''site.start'' [(''slug'', VStr ''blog'')]) 0))))"
proof -
  let ?c = "new_conn\<lparr>cn_mcp_scope := ''blog''\<rparr>" and ?rq = "demo_request ''site.start'' [(''slug'', VStr ''blog'')]"
  have keys: "\<not> key_matches ''siteId'' ''slug''" by code_simp
  have "list_all (call_in_scope (sr_service demo_server) 0 (cn_mcp_scope ?c)) (fst (snd (snd (dispatch demo_server ?c ?rq 0))))"
  proof (rule scoped_connection_stays_in_scope)
    show "dispatch demo_server ?c ?rq 0 = (fst (dispatch demo_server ?c ?rq 0), fst (snd (dispatch demo_server ?c ?rq 0)),
        fst (snd (snd (dispatch demo_server ?c ?rq 0))), snd (snd (snd (dispatch demo_server ?c ?rq 0))))" by simp
  qed (auto simp: demo_server_def demo_service_def lists_own_hooks_def one_reference_def demo_request_def site_ref_fields_def
      string_field_def keys zero_params_def)
  then show ?thesis by (simp add: demo_server_def)
qed

text \<open>
  C39. With both forms in one request the gate checks the slug and the handler takes the id: a connection scoped to one
  site deletes another.
\<close>

theorem scope_bypass:
  assumes "cn_mcp_scope c = slug" and "slug \<noteq> []" and "i \<noteq> []" and "cn_profile c = profile_full"
  shows "fst (snd (snd (dispatch s c (demo_request ''site.delete'' [(''siteId'', VStr i), (''slug'', VStr slug)]) w)))
    = [DeleteSite i \<lparr>del_purge_volume = False, del_skip_snapshot = False, del_force_worktree = False, del_dry_run = False\<rparr>]"
proof -
  have key: "unmarshal fs (VObj [(''siteId'', VStr i), (''slug'', VStr slug)]) =
      decode_fields fs [(''siteId'', VStr i), (''slug'', VStr slug)] zero_params" for fs by simp
  have same: "key_matches ''siteId'' ''siteId''" "\<not> key_matches ''siteId'' ''slug''" "\<not> key_matches ''slug'' ''siteId''"
    "key_matches ''slug'' ''slug''" "\<not> key_matches ''purgeVolume'' ''siteId''" "\<not> key_matches ''purgeVolume'' ''slug''"
    "\<not> key_matches ''skipSnapshot'' ''siteId''" "\<not> key_matches ''skipSnapshot'' ''slug''"
    "\<not> key_matches ''forceWorktree'' ''siteId''" "\<not> key_matches ''forceWorktree'' ''slug''"
    "\<not> key_matches ''dryRun'' ''siteId''" "\<not> key_matches ''dryRun'' ''slug''"
    by code_simp+
  have entry: "map_of (method_table (sr_service s) (sr_wire s)) ''site.delete'' = Some (mutating_scoped (make_site_delete (sr_service s)))"
    by (simp add: method_table_def)
  show ?thesis
    using assms
    by (simp add: dispatch_routed entry demo_request_def json_rpc_version_def mutating_scoped_def profile_full_def
        profile_read_only_def enforce_scope_def site_ref_fields_def string_field_def bool_field_def key same
        zero_params_def run_handler_def make_site_delete_def with_site_def with_params_def resolve_site_def call_def
        split_beta split: reply.split answer.split)
qed

lemma scope_bypass_witness:
  "fst (snd (snd (dispatch demo_server (new_conn\<lparr>cn_mcp_scope := ''blog''\<rparr>)
      (demo_request ''site.delete'' [(''siteId'', VStr ''u2''), (''slug'', VStr ''blog'')]) 0)))
    = [DeleteSite ''u2'' \<lparr>del_purge_volume = False, del_skip_snapshot = False, del_force_worktree = False, del_dry_run = False\<rparr>]"
  by (rule scope_bypass) (simp_all add: new_conn_def)


text \<open>
  C29. No registered secret leaves the daemon in an error: once a request reached the service, whatever text the failure
  carried, the message of the answer contains no registered secret.
\<close>

theorem service_errors_are_redacted:
  assumes "sr_redact s = redact_string iter reg" and "reg_ready iter reg" and "v \<in> reg_values reg"
    and "dispatch s c rq w = (r, c', cs, w')" and "cs \<noteq> []" and "rs_error r = Some (code, msg)"
  shows "\<not> contains msg v"
  using assms(4)
proof (cases rule: dispatch_calls)
  case (handled m)
  then obtain t where "msg = sr_redact s t" using assms(6) by (rule_tac handled_error_redacted)
  with assms(1-3) show ?thesis by (simp add: reg.scrub_clean)
qed (use assms(5) in simp)

lemma service_errors_are_redacted_witness:
  "\<not> contains (snd (the (rs_error (fst (dispatch demo_server new_conn (demo_request ''site.stop'' [(''siteId'', VStr ''u1'')]) 0)))))
     ''hunter2hunter2''"
proof -
  let ?d = "dispatch demo_server new_conn (demo_request ''site.stop'' [(''siteId'', VStr ''u1'')]) 0"
  have parts: "?d = (fst ?d, fst (snd ?d), fst (snd (snd ?d)), snd (snd (snd ?d)))" by simp
  have "fst (snd (snd ?d)) = [StopSite ''u1'']" by code_simp
  then have cs: "fst (snd (snd ?d)) \<noteq> []" by simp
  have "rs_error (fst ?d) \<noteq> None" by code_simp
  then obtain code msg where err: "rs_error (fst ?d) = Some (code, msg)" by auto
  have "\<not> contains msg ''hunter2hunter2''"
    by (rule service_errors_are_redacted [where s = demo_server and iter = sorted_list_of_set and
          reg = "\<lparr>reg_values = {''hunter2hunter2''}\<rparr>", OF _ _ _ parts cs err])
      (simp_all add: demo_server_def reg_ready_def iterates_sorted plain_secret_def min_secret_len_def)
  then show ?thesis by (simp add: err)
qed

end
