(* ===== verification/Docker_Specs.thy ===== *)
theory Docker_Specs
  imports Site_Types Platform "HOL-Library.Multiset"
begin

text \<open>
  The declarative container specs of \<^verbatim>\<open>internal/docker\<close>: the types and \<open>ConfigHash\<close> of \<^verbatim>\<open>specs.go\<close>, the
  labels, the builders of \<^verbatim>\<open>specs_builders.go\<close>, and from \<^verbatim>\<open>engine_container.go\<close> the validation of a spec,
  its translation into the three configurations of the Docker SDK, and the redaction of errors. A Go slice is a list
  whose nil and empty values coincide, except \<open>CapDrop\<close>, where the code tells them apart; a Go map is an association
  list with distinct keys. The digest of the canonical form (SHA-256 of its JSON) is a parameter.
\<close>

section \<open>Types\<close>

record env_secret =
  es_key :: string
  es_value :: string

record healthcheck =
  hc_test :: "string list"
  hc_interval :: duration
  hc_timeout :: duration
  hc_retries :: int
  hc_start_period :: duration

record ulimit =
  ul_name :: string
  ul_soft :: int
  ul_hard :: int

record resources =
  rc_memory_limit :: int
  rc_cpu_shares :: int
  rc_log_max_size :: string
  rc_log_max_files :: int
  rc_pids_limit :: int
  rc_ulimits :: "ulimit list"

record security_options =
  so_cap_drop :: "string list option"
  so_cap_add :: "string list"
  so_no_new_privileges :: bool
  so_read_only_root_fs :: bool
  so_security_opt :: "string list"

datatype restart_policy = RestartNo | RestartOnFailure | RestartUnlessStopped

record port_map =
  po_host_ip :: string
  po_host_port :: string
  po_container_port :: string
  po_proto :: string

record bind_mount =
  bm_source :: string
  bm_target :: string
  bm_read_only :: bool

record volume_mount =
  vm_name :: string
  vm_target :: string
  vm_read_only :: bool

record tmpfs_mount =
  tm_target :: string
  tm_options :: string

record mount =
  mo_bind :: "bind_mount option"
  mo_volume :: "volume_mount option"
  mo_tmpfs :: "tmpfs_mount option"

record network_attachment =
  na_network :: string
  na_aliases :: "string list"

type_synonym labels = "(string \<times> string) list"

record container_spec =
  cs_name :: string
  cs_image :: string
  cs_cmd :: "string list"
  cs_entrypoint :: "string list"
  cs_env :: "string list"
  cs_env_secrets :: "env_secret list"
  cs_user :: string
  cs_working_dir :: string
  cs_tty :: bool
  cs_labels :: labels
  cs_ports :: "port_map list"
  cs_mounts :: "mount list"
  cs_networks :: "network_attachment list"
  cs_extra_hosts :: "string list"
  cs_healthcheck :: "healthcheck option"
  cs_resources :: resources
  cs_security :: security_options
  cs_init :: bool
  cs_restart :: restart_policy

record network_spec =
  ns_name :: string
  ns_internal :: bool
  ns_driver :: string
  ns_labels :: labels

record volume_spec =
  vs_name :: string
  vs_labels :: labels

section \<open>The configuration hash\<close>

definition label_platform :: string where "label_platform = ''io.locorum.platform''"
definition label_site :: string where "label_site = ''io.locorum.site''"
definition label_role :: string where "label_role = ''io.locorum.role''"
definition label_version :: string where "label_version = ''io.locorum.version''"
definition label_config_hash :: string where "label_config_hash = ''io.locorum.confighash''"
definition platform_value :: string where "platform_value = ''locorum''"

lemmas label_defs = label_platform_def label_site_def label_role_def label_version_def label_config_hash_def
  platform_value_def

text \<open>\<^verbatim>\<open>canonicalSpec\<close>; the capabilities lose the difference between nil and empty in \<^verbatim>\<open>sortedCopy\<close>.\<close>

record canonical_spec =
  ca_image :: string
  ca_cmd :: "string list"
  ca_entrypoint :: "string list"
  ca_env :: "string list"
  ca_env_secrets :: "string list"
  ca_user :: string
  ca_working_dir :: string
  ca_tty :: bool
  ca_labels :: labels
  ca_ports :: "port_map list"
  ca_mounts :: "mount list"
  ca_networks :: "network_attachment list"
  ca_extra_hosts :: "string list"
  ca_healthcheck :: "healthcheck option"
  ca_resources :: resources
  ca_cap_drop :: "string list"
  ca_cap_add :: "string list"
  ca_no_new_privileges :: bool
  ca_read_only_root_fs :: bool
  ca_security_opt :: "string list"
  ca_init :: bool
  ca_restart :: restart_policy

definition hashed_labels :: "labels \<Rightarrow> labels" where
  "hashed_labels ls = filter (\<lambda>(k, v). k \<noteq> label_version \<and> k \<noteq> label_config_hash) ls"

definition canonical :: "container_spec \<Rightarrow> canonical_spec" where
  "canonical s =
     \<lparr>ca_image = cs_image s, ca_cmd = cs_cmd s, ca_entrypoint = cs_entrypoint s, ca_env = sort (cs_env s),
      ca_env_secrets = sort (map es_key (cs_env_secrets s)), ca_user = cs_user s, ca_working_dir = cs_working_dir s,
      ca_tty = cs_tty s, ca_labels = sort_key fst (hashed_labels (cs_labels s)), ca_ports = cs_ports s,
      ca_mounts = cs_mounts s, ca_networks = cs_networks s, ca_extra_hosts = sort (cs_extra_hosts s),
      ca_healthcheck = cs_healthcheck s, ca_resources = cs_resources s,
      ca_cap_drop = sort (case so_cap_drop (cs_security s) of None \<Rightarrow> [] | Some cs \<Rightarrow> cs),
      ca_cap_add = sort (so_cap_add (cs_security s)), ca_no_new_privileges = so_no_new_privileges (cs_security s),
      ca_read_only_root_fs = so_read_only_root_fs (cs_security s),
      ca_security_opt = sort (so_security_opt (cs_security s)), ca_init = cs_init s, ca_restart = cs_restart s\<rparr>"

definition config_hash :: "(canonical_spec \<Rightarrow> string) \<Rightarrow> container_spec \<Rightarrow> string" where
  "config_hash digest s = digest (canonical s)"

section \<open>Validation and translation for the SDK\<close>

definition mount_kinds :: "mount \<Rightarrow> nat" where
  "mount_kinds m = (if mo_bind m \<noteq> None then 1 else 0) + (if mo_volume m \<noteq> None then 1 else 0)
     + (if mo_tmpfs m \<noteq> None then 1 else 0)"

fun ambiguous_mount :: "nat \<Rightarrow> mount list \<Rightarrow> nat option" where
  "ambiguous_mount i [] = None"
| "ambiguous_mount i (m # ms) = (if mount_kinds m \<noteq> 1 then Some i else ambiguous_mount (Suc i) ms)"

definition validate_spec :: "container_spec \<Rightarrow> string option" where
  "validate_spec s =
     (if cs_name s = [] then Some ''container spec: name required''
      else if cs_image s = [] then Some ''container spec: image required''
      else case ambiguous_mount 0 (cs_mounts s) of
             None \<Rightarrow> None
           | Some i \<Rightarrow> Some (''mount['' @ itoa (int i) @ '']: mount spec must have exactly one of bind/volume/tmpfs''))"

record host_config =
  ho_binds :: "string list"
  ho_mounts :: "mount list"
  ho_port_bindings :: "(string \<times> string \<times> string) list"
  ho_network_mode :: string
  ho_extra_hosts :: "string list"
  ho_cap_add :: "string list"
  ho_cap_drop :: "string list"
  ho_security_opt :: "string list"
  ho_read_only_root_fs :: bool
  ho_log_size :: string
  ho_log_files :: string
  ho_memory :: int
  ho_cpu_shares :: int
  ho_pids_limit :: "int option"
  ho_ulimits :: "ulimit list"
  ho_init :: bool
  ho_restart :: string

record docker_config =
  do_image :: string
  do_cmd :: "string list"
  do_entrypoint :: "string list"
  do_env :: "string list"
  do_user :: string
  do_working_dir :: string
  do_tty :: bool
  do_labels :: labels
  do_exposed :: "string list"
  do_healthcheck :: "healthcheck option"
  do_host :: host_config
  do_endpoints :: "(string \<times> string list) list"

text \<open>Setting a key of a map.\<close>

definition put_label :: "string \<Rightarrow> string \<Rightarrow> labels \<Rightarrow> labels" where
  "put_label k v ls = filter (\<lambda>(k', _). k' \<noteq> k) ls @ [(k, v)]"

definition port_proto :: "port_map \<Rightarrow> string" where
  "port_proto p = (if po_proto p = [] then ''tcp'' else po_proto p)"

definition port_key :: "port_map \<Rightarrow> string" where
  "port_key p = po_container_port p @ ''/'' @ port_proto p"

text \<open>\<^verbatim>\<open>nat.NewPort\<close> of the SDK, as far as the code uses it: whether it accepts a port and a protocol.\<close>

type_synonym port_check = "string \<Rightarrow> string \<Rightarrow> bool"

definition port_bindings :: "port_map list \<Rightarrow> (string \<times> string \<times> string) list" where
  "port_bindings ps =
     map (\<lambda>p. (port_key p, if po_host_ip p = [] then ''0.0.0.0'' else po_host_ip p, po_host_port p))
       (filter (\<lambda>p. po_host_port p \<noteq> []) ps)"

definition build_healthcheck :: "healthcheck option \<Rightarrow> healthcheck option" where
  "build_healthcheck ho = (case ho of None \<Rightarrow> None | Some hc \<Rightarrow> if hc_test hc = [] then None else Some hc)"

definition build_binds :: "string \<Rightarrow> mount list \<Rightarrow> string list" where
  "build_binds goos ms =
     List.map_filter (\<lambda>m. map_option (\<lambda>b. docker_path goos (bm_source b) @ '':'' @ bm_target b @
       (if bm_read_only b then '':ro'' else [])) (mo_bind m)) ms"

text \<open>Volumes and tmpfs mounts; the options of a tmpfs mount are not passed on.\<close>

definition build_mounts :: "mount list \<Rightarrow> mount list" where
  "build_mounts ms =
     List.map_filter (\<lambda>m. case mo_bind m of Some _ \<Rightarrow> None
       | None \<Rightarrow>
           (case mo_volume m of Some v \<Rightarrow> Some \<lparr>mo_bind = None, mo_volume = Some v, mo_tmpfs = None\<rparr>
            | None \<Rightarrow> map_option (\<lambda>t. \<lparr>mo_bind = None, mo_volume = None, mo_tmpfs = Some (t\<lparr>tm_options := []\<rparr>)\<rparr>)
                        (mo_tmpfs m))) ms"

definition build_cap_drop :: "security_options \<Rightarrow> string list" where
  "build_cap_drop so = (case so_cap_drop so of None \<Rightarrow> [''ALL''] | Some cs \<Rightarrow> cs)"

definition build_security_opt :: "security_options \<Rightarrow> string list" where
  "build_security_opt so = so_security_opt so @ (if so_no_new_privileges so then [''no-new-privileges=true''] else [])"

definition build_log_config :: "resources \<Rightarrow> string \<times> string" where
  "build_log_config r =
     (if rc_log_max_size r = [] then ''10m'' else rc_log_max_size r,
      itoa (if rc_log_max_files r = 0 then 3 else rc_log_max_files r))"

definition build_pids_limit :: "resources \<Rightarrow> int option" where
  "build_pids_limit r =
     (let n = (if rc_pids_limit r = 0 then 1024 else rc_pids_limit r) in if 0 < n then Some n else None)"

definition build_restart :: "restart_policy \<Rightarrow> string" where
  "build_restart p = (case p of RestartOnFailure \<Rightarrow> ''on-failure'' | RestartUnlessStopped \<Rightarrow> ''unless-stopped''
     | RestartNo \<Rightarrow> ''no'')"

definition build_endpoints :: "network_attachment list \<Rightarrow> (string \<times> string list) list" where
  "build_endpoints ns = fold (\<lambda>n es. filter (\<lambda>(k, _). k \<noteq> na_network n) es @ [(na_network n, na_aliases n)]) ns []"

definition build_docker_config ::
  "string \<Rightarrow> port_check \<Rightarrow> container_spec \<Rightarrow> string \<Rightarrow> string + docker_config" where
  "build_docker_config goos port_ok s hash =
     (case find (\<lambda>p. \<not> port_ok (port_proto p) (po_container_port p)) (cs_ports s) of
        Some p \<Rightarrow> Inl (''invalid port '' @ po_container_port p @ ''/'' @ port_proto p)
      | None \<Rightarrow>
          Inr \<lparr>do_image = cs_image s, do_cmd = cs_cmd s, do_entrypoint = cs_entrypoint s,
               do_env = cs_env s @ map (\<lambda>e. es_key e @ ''='' @ es_value e) (cs_env_secrets s),
               do_user = cs_user s, do_working_dir = cs_working_dir s, do_tty = cs_tty s,
               do_labels = put_label label_config_hash hash (cs_labels s),
               do_exposed = remdups (map port_key (cs_ports s)),
               do_healthcheck = build_healthcheck (cs_healthcheck s),
               do_host =
                 \<lparr>ho_binds = build_binds goos (cs_mounts s), ho_mounts = build_mounts (cs_mounts s),
                  ho_port_bindings = port_bindings (cs_ports s),
                  ho_network_mode = (case cs_networks s of [] \<Rightarrow> [] | n # _ \<Rightarrow> na_network n),
                  ho_extra_hosts = cs_extra_hosts s, ho_cap_add = so_cap_add (cs_security s),
                  ho_cap_drop = build_cap_drop (cs_security s),
                  ho_security_opt = build_security_opt (cs_security s),
                  ho_read_only_root_fs = so_read_only_root_fs (cs_security s),
                  ho_log_size = fst (build_log_config (cs_resources s)),
                  ho_log_files = snd (build_log_config (cs_resources s)),
                  ho_memory = rc_memory_limit (cs_resources s), ho_cpu_shares = rc_cpu_shares (cs_resources s),
                  ho_pids_limit = build_pids_limit (cs_resources s), ho_ulimits = rc_ulimits (cs_resources s),
                  ho_init = cs_init s, ho_restart = build_restart (cs_restart s)\<rparr>,
               do_endpoints = build_endpoints (cs_networks s)\<rparr>)"

text \<open>\<^verbatim>\<open>redactErrSpec\<close>, on the text of an error.\<close>

definition redact_secret :: "env_secret \<Rightarrow> string \<Rightarrow> string" where
  "redact_secret e msg =
     (if es_value e = [] then msg
      else if contains msg (es_value e) then replace_all (es_value e) ''***'' msg else msg)"

definition redact_err_spec :: "container_spec \<Rightarrow> string \<Rightarrow> string" where
  "redact_err_spec s msg = fold redact_secret (cs_env_secrets s) msg"

section \<open>Builders\<close>

text \<open>What the builders ask the host: joining a path, the user and group ids, and Locorum's own version.\<close>

record spec_env =
  se_join :: "string list \<Rightarrow> string"
  se_uid :: int
  se_gid :: int
  se_version :: string

definition global_network :: string where "global_network = ''locorum-global''"

definition site_network_name :: "string \<Rightarrow> string" where "site_network_name slug = ''locorum-'' @ slug"
definition site_volume_name :: "string \<Rightarrow> string" where "site_volume_name slug = ''locorum-'' @ slug @ ''-dbdata''"

definition php_user_group :: "spec_env \<Rightarrow> int \<times> int" where
  "php_user_group env = (if se_uid env < 0 \<or> se_gid env < 0 then (1000, 1000) else (se_uid env, se_gid env))"

definition int_pair :: "int \<times> int \<Rightarrow> string" where "int_pair = (\<lambda>(a, b). itoa a @ '':'' @ itoa b)"

definition normalise_docroot :: "string \<Rightarrow> string" where
  "normalise_docroot d = (if d = [] \<or> d = ''/'' \<or> d = ''.'' then [] else dropWhile (\<lambda>c. c = CHR ''/'') d)"

definition platform_labels :: "spec_env \<Rightarrow> string \<Rightarrow> string \<Rightarrow> labels" where
  "platform_labels env role slug =
     [(label_platform, platform_value), (label_role, role), (label_version, se_version env)]
       @ (if slug \<noteq> [] then [(label_site, slug)] else [])"

definition hardened_security :: "string list \<Rightarrow> security_options" where
  "hardened_security caps = \<lparr>so_cap_drop = Some [''ALL''], so_cap_add = caps, so_no_new_privileges = True,
     so_read_only_root_fs = False, so_security_opt = []\<rparr>"

definition permissive_security :: security_options where
  "permissive_security = \<lparr>so_cap_drop = Some [], so_cap_add = [], so_no_new_privileges = False,
     so_read_only_root_fs = False, so_security_opt = []\<rparr>"

definition mib :: int where "mib = 1048576"

definition role_resources :: "string \<Rightarrow> resources" where
  "role_resources role =
     \<lparr>rc_memory_limit =
        (if role = ''php'' then 512 * mib else if role = ''database'' then 1024 * mib
         else if role = ''redis'' then 256 * mib
         else if role \<in> {''web'', ''mail'', ''adminer'', ''router''} then 128 * mib else 0),
      rc_cpu_shares = 0, rc_log_max_size = ''10m'', rc_log_max_files = 3, rc_pids_limit = 1024, rc_ulimits = []\<rparr>"

definition bind :: "string \<Rightarrow> string \<Rightarrow> bool \<Rightarrow> mount" where
  "bind src target ro = \<lparr>mo_bind = Some \<lparr>bm_source = src, bm_target = target, bm_read_only = ro\<rparr>, mo_volume = None,
     mo_tmpfs = None\<rparr>"

definition attach :: "string \<Rightarrow> string list \<Rightarrow> network_attachment" where
  "attach net aliases = \<lparr>na_network = net, na_aliases = aliases\<rparr>"

definition expose :: "string \<Rightarrow> port_map" where
  "expose port = \<lparr>po_host_ip = [], po_host_port = [], po_container_port = port, po_proto = ''tcp''\<rparr>"

definition check :: "string list \<Rightarrow> duration \<Rightarrow> duration \<Rightarrow> int \<Rightarrow> duration \<Rightarrow> healthcheck option" where
  "check test interval timeout retries start = Some \<lparr>hc_test = test, hc_interval = interval, hc_timeout = timeout,
     hc_retries = retries, hc_start_period = start\<rparr>"

text \<open>The fields every builder sets the same way.\<close>

definition base_spec :: "string \<Rightarrow> string \<Rightarrow> labels \<Rightarrow> container_spec" where
  "base_spec name img ls =
     \<lparr>cs_name = name, cs_image = img, cs_cmd = [], cs_entrypoint = [], cs_env = [], cs_env_secrets = [], cs_user = [],
      cs_working_dir = [], cs_tty = True, cs_labels = ls, cs_ports = [], cs_mounts = [], cs_networks = [],
      cs_extra_hosts = [], cs_healthcheck = None, cs_resources = role_resources [],
      cs_security = hardened_security [], cs_init = True, cs_restart = RestartNo\<rparr>"

definition web_caps :: "string list" where
  "web_caps = [''CHOWN'', ''SETGID'', ''SETUID'', ''NET_BIND_SERVICE'', ''DAC_OVERRIDE'']"

text \<open>Nginx and Apache differ in the image, the configuration file and the health check.\<close>

definition web_server_spec ::
  "spec_env \<Rightarrow> string \<Rightarrow> site \<Rightarrow> string \<Rightarrow> string \<Rightarrow> string \<Rightarrow> string list \<Rightarrow> container_spec" where
  "web_server_spec env home s img server target test =
     (let name = site_container_name (site_slug s) ''web''
      in (base_spec name img (platform_labels env ''web'' (site_slug s)))
           \<lparr>cs_ports := [expose ''80''],
            cs_mounts := [bind (se_join env [home, ''.locorum'', ''config'', server, ''sites'', site_slug s @ ''.conf'']) target True,
                          bind (site_files_dir s) ''/var/www/html'' False],
            cs_networks := [attach (site_network_name (site_slug s)) [''web''], attach global_network [name]],
            cs_healthcheck := check test second (5 * second) 30 second,
            cs_security := hardened_security web_caps, cs_resources := role_resources ''web''\<rparr>)"

definition nginx_web_spec :: "spec_env \<Rightarrow> site \<Rightarrow> string \<Rightarrow> container_spec" where
  "nginx_web_spec env s home = web_server_spec env home s ''nginx:1.28-alpine'' ''nginx'' ''/etc/nginx/nginx.conf''
     [''CMD-SHELL'', ''wget -qO- http://127.0.0.1/ >/dev/null 2>&1 || nginx -t'']"

definition apache_web_spec :: "spec_env \<Rightarrow> site \<Rightarrow> string \<Rightarrow> container_spec" where
  "apache_web_spec env s home = web_server_spec env home s ''httpd:2.4-alpine'' ''apache'' ''/usr/local/apache2/conf/httpd.conf''
     [''CMD'', ''httpd'', ''-t'']"

definition web_spec :: "spec_env \<Rightarrow> site \<Rightarrow> string \<Rightarrow> container_spec" where
  "web_spec env s home = (if site_web_server s = ''apache'' then apache_web_spec env s home else nginx_web_spec env s home)"

definition spx_key_ini_path :: "spec_env \<Rightarrow> string \<Rightarrow> string \<Rightarrow> string" where
  "spx_key_ini_path env home slug = se_join env [home, ''.locorum'', ''config'', ''php'', ''spx-keys'', slug @ ''.ini'']"

definition php_env :: "site \<Rightarrow> string list" where
  "php_env s =
     [''MYSQL_HOST=database'', ''MYSQL_DATABASE=wordpress'', ''MYSQL_USER=wordpress'', ''WP_CLI_ALLOW_ROOT=true'',
      ''LOCORUM_PRIMARY_URL=https://'' @ site_domain s, ''LOCORUM_DOCROOT='' @ normalise_docroot (site_public_dir s),
      ''LOCORUM_APPROOT=/var/www/html'', ''LOCORUM_SITE_SLUG='' @ site_slug s, ''LOCORUM_MULTISITE='' @ site_multisite s,
      ''PHP_FPM_USER=wodby'', ''PHP_FPM_GROUP=wodby'']
       @ (if site_spx_enabled s then [''PHP_EXTENSIONS_ENABLE=spx'', ''PHP_EXTENSIONS_DISABLE=xdebug,xhprof''] else [])"

definition php_mounts :: "spec_env \<Rightarrow> site \<Rightarrow> string \<Rightarrow> mount list" where
  "php_mounts env s home =
     [bind (se_join env [home, ''.locorum'', ''config'', ''php'', ''php.ini'']) ''/usr/local/etc/php/conf.d/zzz-php.ini'' False,
      bind (se_join env [home, ''.locorum'', ''config'', ''php'', ''spx.ini'']) ''/usr/local/etc/php/conf.d/zzz-spx.ini'' False,
      bind (site_files_dir s) ''/var/www/html'' False,
      bind (se_join env [home, ''.locorum'', ''bin'', ''wp'']) ''/usr/local/bin/wp'' True]
       @ (if site_spx_enabled s
          then [bind (spx_key_ini_path env home (site_slug s)) ''/usr/local/etc/php/conf.d/zzzz-spx-key.ini'' True,
                bind (se_join env [site_files_dir s, ''.locorum'', ''spx'']) ''/var/spx/data'' False]
          else [])"

definition php_spec :: "spec_env \<Rightarrow> site \<Rightarrow> string \<Rightarrow> container_spec" where
  "php_spec env s home =
     (base_spec (site_container_name (site_slug s) ''php'') (''wodby/php:'' @ site_php_version s)
        (platform_labels env ''php'' (site_slug s)))
       \<lparr>cs_user := int_pair (php_user_group env), cs_working_dir := ''/var/www/html'', cs_env := php_env s,
        cs_env_secrets := [\<lparr>es_key = ''MYSQL_PASSWORD'', es_value = site_db_password s\<rparr>],
        cs_mounts := php_mounts env s home,
        cs_networks := [attach (site_network_name (site_slug s)) [''php''], attach global_network []],
        cs_extra_hosts := [site_domain s @ '':host-gateway''],
        cs_healthcheck := check [''CMD-SHELL'', ''pgrep php-fpm >/dev/null 2>&1 || pgrep -f php-fpm >/dev/null 2>&1'']
          second (3 * second) 60 (2 * second),
        cs_security := permissive_security, cs_resources := role_resources ''php''\<rparr>"

definition redis_spec :: "spec_env \<Rightarrow> site \<Rightarrow> container_spec" where
  "redis_spec env s =
     (base_spec (site_container_name (site_slug s) ''redis'') (''redis:'' @ site_redis_version s @ ''-alpine'')
        (platform_labels env ''redis'' (site_slug s)))
       \<lparr>cs_cmd := [''redis-server'', ''--appendonly'', ''yes''],
        cs_networks := [attach (site_network_name (site_slug s)) [''redis'']],
        cs_healthcheck := check [''CMD-SHELL'', ''redis-cli ping | grep -q PONG''] second (3 * second) 20 second,
        cs_security := hardened_security [''CHOWN'', ''SETGID'', ''SETUID'', ''DAC_OVERRIDE''],
        cs_resources := role_resources ''redis''\<rparr>"

definition mail_spec :: "spec_env \<Rightarrow> container_spec" where
  "mail_spec env =
     (base_spec ''locorum-global-mail'' ''mailhog/mailhog'' (platform_labels env ''mail'' []))
       \<lparr>cs_ports := [expose ''1025'', expose ''8025''], cs_networks := [attach global_network [''mail'']],
        cs_healthcheck := check [''CMD-SHELL'', ''wget -qO- http://127.0.0.1:8025/ >/dev/null 2>&1''] second (3 * second) 20 second,
        cs_resources := role_resources ''mail''\<rparr>"

definition adminer_spec :: "spec_env \<Rightarrow> container_spec" where
  "adminer_spec env =
     (base_spec ''locorum-global-adminer'' ''adminer:5.4.2-standalone'' (platform_labels env ''adminer'' []))
       \<lparr>cs_env := [''ADMINER_DEFAULT_SERVER=database''], cs_ports := [expose ''8080''],
        cs_networks := [attach global_network [''adminer'']],
        cs_healthcheck := check [''CMD-SHELL'', ''wget -qO- http://127.0.0.1:8080/ >/dev/null 2>&1''] second (3 * second) 20 second,
        cs_resources := role_resources ''adminer''\<rparr>"

definition site_network_spec :: "spec_env \<Rightarrow> site \<Rightarrow> network_spec" where
  "site_network_spec env s = \<lparr>ns_name = site_network_name (site_slug s), ns_internal = True, ns_driver = ''bridge'',
     ns_labels = platform_labels env ''site-network'' (site_slug s)\<rparr>"

definition global_network_spec :: "spec_env \<Rightarrow> network_spec" where
  "global_network_spec env = \<lparr>ns_name = global_network, ns_internal = False, ns_driver = ''bridge'',
     ns_labels = platform_labels env ''global-network'' []\<rparr>"

definition site_volume_spec :: "spec_env \<Rightarrow> site \<Rightarrow> volume_spec" where
  "site_volume_spec env s = \<lparr>vs_name = site_volume_name (site_slug s),
     vs_labels = platform_labels env ''database-data'' (site_slug s)\<rparr>"

section \<open>What the hash depends on\<close>






text \<open>
  One difference escapes it: a spec that leaves the capabilities to the default, which drops them all, and one that
  drops none have the same hash, although the containers built from them differ.
\<close>

theorem config_hash_misses_cap_drop:
  "let s = base_spec ''c'' ''img'' []; none = s\<lparr>cs_security := (cs_security s)\<lparr>so_cap_drop := Some []\<rparr>\<rparr>;
       dflt = s\<lparr>cs_security := (cs_security s)\<lparr>so_cap_drop := None\<rparr>\<rparr>
   in config_hash digest none = config_hash digest dflt \<and>
      build_cap_drop (cs_security none) = [] \<and> build_cap_drop (cs_security dflt) = [''ALL'']"
  by (simp add: Let_def config_hash_def canonical_def build_cap_drop_def)

lemma star_skips:
  assumes "CHR ''*'' \<notin> set w" and "w \<noteq> []"
  shows "marker_skips ''***'' w"
proof -
  have "\<not> prefix w (CHR ''*'' # t)" for t using assms by (cases w) auto
  then show ?thesis using assms by (simp add: marker_skips_def)
qed

lemma redact_secret_no_new:
  "CHR ''*'' \<notin> set w \<Longrightarrow> w \<noteq> [] \<Longrightarrow> contains (redact_secret e msg) w \<Longrightarrow> contains msg w"
  by (simp add: redact_secret_def split: if_splits) (erule replace_all_no_new [OF star_skips], assumption+)

lemma redact_secrets_no_new:
  "CHR ''*'' \<notin> set w \<Longrightarrow> w \<noteq> [] \<Longrightarrow> contains (fold redact_secret es msg) w \<Longrightarrow> contains msg w"
  by (induction es arbitrary: msg) (auto dest: redact_secret_no_new)

text \<open>
  An error of the daemon that is passed on holds no secret of the spec, for secrets without an asterisk; the generated
  passwords and keys are hexadecimal.
\<close>

theorem spec_errors_hold_no_secret:
  assumes "e \<in> set (cs_env_secrets s)" and "es_value e \<noteq> []" and "CHR ''*'' \<notin> set (es_value e)"
  shows "\<not> contains (redact_err_spec s msg) (es_value e)"
proof -
  from assms(1) obtain us vs where us: "cs_env_secrets s = us @ e # vs" by (meson split_list)
  let ?m = "fold redact_secret us msg"
  have "\<not> contains (redact_secret e ?m) (es_value e)"
    using assms(2,3) by (simp add: redact_secret_def replace_all_removes star_skips)
  then show ?thesis using redact_secrets_no_new [OF assms(3,2)] by (auto simp: redact_err_spec_def us)
qed

definition sample_spec_env :: spec_env where
  "sample_spec_env = \<lparr>se_join = concat, se_uid = 1000, se_gid = 1000, se_version = ''1.0''\<rparr>"

lemma spec_errors_hold_no_secret_witness:
  "\<not> contains (redact_err_spec (php_spec sample_spec_env (empty_site\<lparr>site_db_password := ''0f1e2d3c''\<rparr>) ''home'') ''bad env 0f1e2d3c'') ''0f1e2d3c''"
  using spec_errors_hold_no_secret [of "\<lparr>es_key = ''MYSQL_PASSWORD'', es_value = ''0f1e2d3c''\<rparr>"
      "php_spec sample_spec_env (empty_site\<lparr>site_db_password := ''0f1e2d3c''\<rparr>) ''home''" "''bad env 0f1e2d3c''"]
  by (simp add: php_spec_def)


end
