(* ===== verification/Db_Engine.thy ===== *)
theory Db_Engine
  imports Docker_Specs "HOL-Library.Word"
begin

text \<open>
  The database engines of \<^verbatim>\<open>internal/dbengine\<close>: the two implementations as functions of the kind (\<^verbatim>\<open>mysql.go\<close>,
  \<^verbatim>\<open>mariadb.go\<close>), the comparison of versions, the volume marker of \<^verbatim>\<open>marker.go\<close>, the line filter of
  \<^verbatim>\<open>filter.go\<close>, and the four container specs of a site (\<^verbatim>\<open>sites.go\<close>). The regular expressions of the import
  filters are matched by hand-written functions; the dump and load commands are in \<open>Snapshots\<close>.
\<close>

section \<open>Engines\<close>

datatype engine = MySQL | MariaDB

definition engine_kind :: "engine \<Rightarrow> string" where
  "engine_kind e = (case e of MySQL \<Rightarrow> ''mysql'' | MariaDB \<Rightarrow> ''mariadb'')"

definition default_kind :: string where "default_kind = ''mysql''"

definition all_kinds :: "string list" where "all_kinds = [''mysql'', ''mariadb'']"

definition kind_valid :: "string \<Rightarrow> bool" where "kind_valid k \<longleftrightarrow> k \<in> set all_kinds"

definition engine_for :: "string \<Rightarrow> engine option" where
  "engine_for k = (if k = ''mysql'' then Some MySQL else if k = ''mariadb'' then Some MariaDB else None)"

definition resolve_engine :: "site \<Rightarrow> engine" where
  "resolve_engine s = the (engine_for (if kind_valid (site_db_engine s) then site_db_engine s else default_kind))"

definition default_port :: "engine \<Rightarrow> int" where "default_port e = 3306"
definition data_dir :: "engine \<Rightarrow> string" where "data_dir e = ''/var/lib/mysql''"

definition default_version :: "engine \<Rightarrow> string" where
  "default_version e = (case e of MySQL \<Rightarrow> ''8.4'' | MariaDB \<Rightarrow> ''11.4'')"

definition known_versions :: "engine \<Rightarrow> string list" where
  "known_versions e = (case e of MySQL \<Rightarrow> [''8.4'', ''8.0''] | MariaDB \<Rightarrow> [''11.4'', ''11.0'', ''10.11''])"

definition engine_image :: "engine \<Rightarrow> string \<Rightarrow> string" where
  "engine_image e v = (case e of MySQL \<Rightarrow> ''mysql:'' | MariaDB \<Rightarrow> ''mariadb:'') @ v"

definition conf_mount_target :: "engine \<Rightarrow> string" where
  "conf_mount_target e =
     (case e of MySQL \<Rightarrow> ''/etc/mysql/conf.d/locorum.cnf'' | MariaDB \<Rightarrow> ''/etc/mysql/mariadb.conf.d/locorum.cnf'')"

definition connection_url :: "engine \<Rightarrow> string \<Rightarrow> string \<Rightarrow> site \<Rightarrow> string" where
  "connection_url e host port s =
     ''mysql://wordpress:'' @ site_db_password s @ ''@'' @ host @ '':''
       @ (if port = [] then itoa (default_port e) else port) @ ''/wordpress''"

definition db_version_for :: "site \<Rightarrow> string" where
  "db_version_for s = (if trim_space (site_db_version s) \<noteq> [] then trim_space (site_db_version s) else site_mysql_version s)"

definition published_ports :: "site \<Rightarrow> int \<Rightarrow> port_map list" where
  "published_ports s port =
     (if site_publish_db_port s
      then [\<lparr>po_host_ip = ''127.0.0.1'', po_host_port = ''0'', po_container_port = itoa port, po_proto = ''tcp''\<rparr>]
      else [])"

definition database_env :: "engine \<Rightarrow> string list" where
  "database_env e =
     (case e of MySQL \<Rightarrow> [] | MariaDB \<Rightarrow> [''MARIADB_DATABASE=wordpress'', ''MARIADB_USER=wordpress''])
       @ [''MYSQL_DATABASE=wordpress'', ''MYSQL_USER=wordpress'']"

definition database_secret_keys :: "engine \<Rightarrow> string list" where
  "database_secret_keys e =
     (case e of MySQL \<Rightarrow> [] | MariaDB \<Rightarrow> [''MARIADB_ROOT_PASSWORD'', ''MARIADB_PASSWORD''])
       @ [''MYSQL_ROOT_PASSWORD'', ''MYSQL_PASSWORD'']"

definition database_spec :: "spec_env \<Rightarrow> engine \<Rightarrow> site \<Rightarrow> string \<Rightarrow> container_spec" where
  "database_spec env e s home =
     (base_spec (site_container_name (site_slug s) ''database'') (engine_image e (db_version_for s))
        (platform_labels env ''database'' (site_slug s)))
       \<lparr>cs_cmd := [case e of MySQL \<Rightarrow> ''mysqld'' | MariaDB \<Rightarrow> ''mariadbd'', ''--innodb-flush-method=fsync''],
        cs_env := database_env e,
        cs_env_secrets := map (\<lambda>k. \<lparr>es_key = k, es_value = site_db_password s\<rparr>) (database_secret_keys e),
        cs_mounts :=
          [\<lparr>mo_bind = None, mo_volume = Some \<lparr>vm_name = site_volume_name (site_slug s), vm_target = data_dir e,
             vm_read_only = False\<rparr>, mo_tmpfs = None\<rparr>,
           bind (se_join env [home, ''.locorum'', ''config'', ''dbengine'', engine_kind e, ''locorum.cnf''])
             (conf_mount_target e) True],
        cs_networks := [attach (site_network_name (site_slug s)) [''database''], attach global_network []],
        cs_ports := published_ports s (default_port e),
        cs_healthcheck :=
          check [''CMD-SHELL'', case e of
               MySQL \<Rightarrow> ''MYSQL_PWD=\"$MYSQL_ROOT_PASSWORD\" mysqladmin ping -h 127.0.0.1 -uroot --silent''
             | MariaDB \<Rightarrow> ''MYSQL_PWD=\"$MARIADB_ROOT_PASSWORD\" mariadb-admin ping -h 127.0.0.1 -uroot --silent'']
            (2 * second) (5 * second) 60 (5 * second),
        cs_security := hardened_security [''CHOWN'', ''SETGID'', ''SETUID'', ''DAC_OVERRIDE'', ''FOWNER'', ''FSETID''],
        cs_resources := role_resources ''database''\<rparr>"

text \<open>\<^verbatim>\<open>serviceSpecs\<close>: the containers of a site.\<close>

definition service_specs :: "spec_env \<Rightarrow> string \<Rightarrow> site \<Rightarrow> container_spec list" where
  "service_specs env home s =
     [web_spec env s home, php_spec env s home, database_spec env (resolve_engine s) s home, redis_spec env s]"

definition spec_names :: "container_spec list \<Rightarrow> string list" where "spec_names ss = map cs_name ss"

section \<open>Versions\<close>

definition same_major :: "string \<Rightarrow> string \<Rightarrow> bool" where
  "same_major a b \<longleftrightarrow>
     a = [] \<or> b = [] \<or> takeWhile (\<lambda>c. c \<noteq> CHR ''.'') a = takeWhile (\<lambda>c. c \<noteq> CHR ''.'') b"

text \<open>
  \<^verbatim>\<open>splitVersion\<close>: the components read so far, the value of the current one if it has a digit. A component is
  a 64-bit \<^verbatim>\<open>int\<close> that wraps around.
\<close>

definition push_component :: "64 word option \<Rightarrow> int list \<Rightarrow> int list" where
  "push_component cur out = (case cur of None \<Rightarrow> out | Some v \<Rightarrow> out @ [sint v])"

fun split_version_from :: "64 word option \<Rightarrow> int list \<Rightarrow> string \<Rightarrow> int list" where
  "split_version_from cur out [] = push_component cur out"
| "split_version_from cur out (c # s) =
     (if c = CHR ''.'' then split_version_from None (push_component cur out) s
      else if \<not> is_digit c then push_component cur out
      else split_version_from (Some ((case cur of None \<Rightarrow> 0 | Some v \<Rightarrow> v) * 10 + of_nat (byte c - 48))) out s)"

definition split_version :: "string \<Rightarrow> int list" where "split_version s = split_version_from None [] s"

text \<open>The loop of \<^verbatim>\<open>isVersionAtLeast\<close>: a missing component counts as 0.\<close>

fun version_at_least :: "int list \<Rightarrow> int list \<Rightarrow> bool" where
  "version_at_least [] [] = True"
| "version_at_least (c # cs) [] = (if c \<noteq> 0 then c \<ge> 0 else version_at_least cs [])"
| "version_at_least [] (m # ms) = (if 0 \<noteq> m then 0 \<ge> m else version_at_least [] ms)"
| "version_at_least (c # cs) (m # ms) = (if c \<noteq> m then c \<ge> m else version_at_least cs ms)"

definition is_version_at_least :: "string \<Rightarrow> string \<Rightarrow> bool" where
  "is_version_at_least cand minimum = version_at_least (split_version cand) (split_version minimum)"

definition upgrade_allowed :: "engine \<Rightarrow> string \<Rightarrow> string \<Rightarrow> bool" where
  "upgrade_allowed e from to =
     (case e of
        MySQL \<Rightarrow> same_major from to
      | MariaDB \<Rightarrow> if from = to \<or> from = [] then True else if is_version_at_least to from then True else False)"

section \<open>The volume marker\<close>

record volume_marker =
  vk_engine :: string
  vk_version :: string
  vk_created :: gtime
  vk_locorum_version :: string

definition marker_filename :: string where "marker_filename = ''.locorum-marker.json''"

text \<open>\<open>enc\<close> and \<open>dec\<close> are \<^verbatim>\<open>json.Marshal\<close> and \<^verbatim>\<open>json.Unmarshal\<close> of the struct.\<close>

definition encode_marker :: "(volume_marker \<Rightarrow> string) \<Rightarrow> volume_marker \<Rightarrow> go_error + string" where
  "encode_marker enc m = (if vk_engine m = [] then Inl ''marker: empty engine'' else Inr (enc m))"

definition decode_marker :: "(string \<Rightarrow> go_error + volume_marker) \<Rightarrow> string \<Rightarrow> go_error + volume_marker" where
  "decode_marker dec data =
     (if trim_space data = [] then Inl ''marker: empty payload''
      else case dec (trim_space data) of
             Inl e \<Rightarrow> Inl (''marker: decode: '' @ e)
           | Inr m \<Rightarrow> if vk_engine m = [] then Inl ''marker: missing engine'' else Inr m)"

definition compare_marker :: "volume_marker \<Rightarrow> volume_marker \<Rightarrow> engine \<Rightarrow> go_error option" where
  "compare_marker have want e =
     (if vk_engine have \<noteq> vk_engine want
      then Some (''database volume was last used by '' @ vk_engine have @ '' but the site is configured for '' @ vk_engine want
        @ '' '' @ map char_of [226, 128, 148 :: nat] @ '' take a snapshot, then use the migrate flow to switch engines'')
      else if vk_version have \<noteq> vk_version want \<and> \<not> upgrade_allowed e (vk_version have) (vk_version want)
      then Some (''unsafe '' @ vk_engine have @ '' version transition '' @ vk_version have @ '' ''
        @ map char_of [226, 134, 146 :: nat] @ '' '' @ vk_version want @ '' '' @ map char_of [226, 128, 148 :: nat]
        @ '' take a snapshot and use the migrate flow'')
      else None)"

definition marker_in_volume_path :: "engine \<Rightarrow> string" where
  "marker_in_volume_path e =
     (let dir = data_dir e in (if \<not> suffix ''/'' dir then dir @ ''/'' else dir) @ marker_filename)"

section \<open>Import filters\<close>

definition is_space_re :: "char \<Rightarrow> bool" where
  "is_space_re c \<longleftrightarrow> c \<in> {CHR 0x09, CHR 0x0A, CHR 0x0C, CHR 0x0D, CHR '' ''}"

definition is_word_char :: "char \<Rightarrow> bool" where
  "is_word_char c \<longleftrightarrow> is_digit c \<or> is_lower c \<or> is_upper c \<or> c = CHR ''_''"

text \<open>
  A literal under \<^verbatim>\<open>(?i)\<close>, given in lower case: the rest of the line behind it. The letters \<^verbatim>\<open>k\<close> and
  \<^verbatim>\<open>s\<close> also match the Kelvin sign and the long s.
\<close>

fun match_fold :: "string \<Rightarrow> string \<Rightarrow> string option" where
  "match_fold [] s = Some s"
| "match_fold (c # p) s =
     (if s \<noteq> [] \<and> lower_char (hd s) = c then match_fold p (tl s)
      else if c = CHR ''s'' \<and> prefix [CHR 0xC5, CHR 0xBF] s then match_fold p (drop 2 s)
      else if c = CHR ''k'' \<and> prefix [CHR 0xE2, CHR 0x84, CHR 0xAA] s then match_fold p (drop 3 s)
      else None)"

text \<open>\<open>match_spaced ws s\<close>: the words of \<open>ws\<close> with at least one space between them; the rest behind the last.\<close>

fun match_words :: "string list \<Rightarrow> string \<Rightarrow> string option" where
  "match_words [] s = Some s"
| "match_words [w] s = match_fold w s"
| "match_words (w # v # ws) s =
     (case match_fold w s of None \<Rightarrow> None
      | Some r \<Rightarrow> if r \<noteq> [] \<and> is_space_re (hd r) then match_words (v # ws) (dropWhile is_space_re r) else None)"

text \<open>\<^verbatim>\<open>(?i)^\s*CREATE\s+DATABASE\b\<close>, \<^verbatim>\<open>(?i)^\s*USE\s+\<close> and \<^verbatim>\<open>(?i)^\s*SET\s+@@SESSION\.SQL_LOG_BIN\<close>.\<close>

definition matches_create_database :: "string \<Rightarrow> bool" where
  "matches_create_database l =
     (case match_words [''create'', ''database''] (dropWhile is_space_re l) of None \<Rightarrow> False
      | Some r \<Rightarrow> r = [] \<or> \<not> is_word_char (hd r))"

definition matches_use :: "string \<Rightarrow> bool" where
  "matches_use l =
     (case match_words [''use''] (dropWhile is_space_re l) of None \<Rightarrow> False | Some r \<Rightarrow> r \<noteq> [] \<and> is_space_re (hd r))"

definition matches_log_bin :: "string \<Rightarrow> bool" where
  "matches_log_bin l =
     (match_words [''set'', ''@@session.sql_log_bin''] (dropWhile is_space_re l) \<noteq> None)"

definition matches_sandbox :: "string \<Rightarrow> bool" where
  "matches_sandbox l \<longleftrightarrow> contains l ''/*!999999- enable the sandbox mode */''
     \<or> contains l (''/*!999999'' @ [CHR 0x5C] @ ''- enable the sandbox mode */'')"

text \<open>A regular expression of the rewriting filters: the length of its longest match at the start of a text.\<close>

definition uca_prefix :: string where "uca_prefix = ''utf8mb4_uca1400_''"

definition uca_match :: "string \<Rightarrow> nat option" where
  "uca_match s =
     (if prefix uca_prefix s
      then let n = length (takeWhile is_word_char (drop (length uca_prefix) s))
           in if n = 0 then None else Some (length uca_prefix + n)
      else None)"

text \<open>
  \<^verbatim>\<open>DEFINER=[^ ]+@[^ ]+ \<close>: one blank-free word behind the equals sign, closed by a blank, with an at sign that has a character
  on either side.
\<close>

definition definer_match :: "string \<Rightarrow> nat option" where
  "definer_match s =
     (if prefix ''DEFINER='' s
      then let w = takeWhile (\<lambda>c. c \<noteq> CHR '' '') (drop 8 s)
           in if length w < length (drop 8 s) \<and> CHR ''@'' \<in> set (butlast (tl w)) then Some (8 + length w + 1) else None
      else None)"

function replace_matches :: "(string \<Rightarrow> nat option) \<Rightarrow> string \<Rightarrow> string \<Rightarrow> string" where
  "replace_matches m new [] = []"
| "replace_matches m new (c # s) =
     (case m (c # s) of
        Some (Suc n) \<Rightarrow> new @ replace_matches m new (drop n s)
      | _ \<Rightarrow> c # replace_matches m new s)"
  by pat_completeness auto
termination by (relation "measure (\<lambda>(_, _, s). length s)") auto

declare replace_matches.simps(2) [simp del]

fun has_match :: "(string \<Rightarrow> nat option) \<Rightarrow> string \<Rightarrow> bool" where
  "has_match m [] = False"
| "has_match m (c # s) = (m (c # s) \<noteq> None \<or> has_match m s)"

text \<open>\<^verbatim>\<open>ReplaceAll\<close> returns a nil slice when nothing is left of the line, and nil drops the line.\<close>

definition or_nil :: "string \<Rightarrow> string option" where "or_nil l = (if l = [] then None else Some l)"

text \<open>A filter: its name, whether it matches, and what it makes of a line (\<open>None\<close>: the line is dropped).\<close>

record import_filter =
  if_name :: string
  if_pat :: "string \<Rightarrow> bool"
  if_fn :: "string \<Rightarrow> string option"

definition mysql_base_filters :: "import_filter list" where
  "mysql_base_filters =
     [\<lparr>if_name = ''drop CREATE DATABASE'', if_pat = matches_create_database, if_fn = (\<lambda>_. None)\<rparr>,
      \<lparr>if_name = ''drop USE database'', if_pat = matches_use, if_fn = (\<lambda>_. None)\<rparr>,
      \<lparr>if_name = ''rewrite uca1400 collations'', if_pat = has_match uca_match,
       if_fn = (\<lambda>l. or_nil (replace_matches uca_match ''utf8mb4_unicode_ci'' l))\<rparr>,
      \<lparr>if_name = ''strip DEFINER clause'', if_pat = has_match definer_match,
       if_fn = (\<lambda>l. or_nil (replace_matches definer_match [] l))\<rparr>,
      \<lparr>if_name = ''drop SQL_LOG_BIN session toggles'', if_pat = matches_log_bin, if_fn = (\<lambda>_. None)\<rparr>]"

definition engine_filters :: "engine \<Rightarrow> import_filter list" where
  "engine_filters e =
     mysql_base_filters @
       (case e of MySQL \<Rightarrow> []
        | MariaDB \<Rightarrow> [\<lparr>if_name = ''drop MariaDB sandbox comment'', if_pat = matches_sandbox, if_fn = (\<lambda>_. None)\<rparr>])"

fun filter_line :: "import_filter list \<Rightarrow> string \<Rightarrow> string option" where
  "filter_line [] l = Some l"
| "filter_line (f # fs) l =
     (if \<not> if_pat f l then filter_line fs l
      else case if_fn f l of None \<Rightarrow> None | Some l' \<Rightarrow> filter_line fs l')"

definition filter_names :: "import_filter list \<Rightarrow> string list" where "filter_names fs = map if_name fs"

text \<open>
  \<^verbatim>\<open>bufio.Scanner\<close> with \<^verbatim>\<open>ScanLines\<close>: the lines without their end, a carriage return before it dropped; a line that
  fills the buffer of \<open>limit\<close> bytes stops the scan.
\<close>

definition max_line_bytes :: nat where "max_line_bytes = 16777216"

definition drop_cr :: "string \<Rightarrow> string" where
  "drop_cr l = (if l \<noteq> [] \<and> last l = CHR 0x0D then butlast l else l)"

function scan_lines :: "string \<Rightarrow> string list" where
  "scan_lines [] = []"
| "scan_lines (c # s) =
     (let l = takeWhile (\<lambda>d. d \<noteq> CHR 0x0A) (c # s) in l # scan_lines (drop (Suc (length l)) (c # s)))"
  by pat_completeness auto
termination by (relation "measure length") auto

text \<open>The bytes written, the error, and the text the output holds when there is none.\<close>

fun filter_scanned :: "nat \<Rightarrow> import_filter list \<Rightarrow> string list \<Rightarrow> nat \<times> go_error option \<times> string" where
  "filter_scanned limit fs [] = (0, None, [])"
| "filter_scanned limit fs (l # ls) =
     (if limit \<le> length l then (0, Some ''import dump contains a line longer than the limit'', [])
      else case filter_scanned limit fs ls of
             (n, e, out) \<Rightarrow>
               (case filter_line fs (drop_cr l) of None \<Rightarrow> (n, e, out)
                | Some l' \<Rightarrow> (length l' + 1 + n, e, l' @ [CHR 0x0A] @ out)))"

definition filter_import_stream :: "import_filter list \<Rightarrow> string \<Rightarrow> nat \<times> go_error option \<times> string" where
  "filter_import_stream fs inp = filter_scanned max_line_bytes fs (scan_lines inp)"

section \<open>Versions in dotted form\<close>

definition dotted :: "nat list \<Rightarrow> string" where "dotted xs = join ''.'' (map nat_digits xs)"

text \<open>Version order: compare component by component, a missing one counting as 0.\<close>

definition version_le :: "nat list \<Rightarrow> nat list \<Rightarrow> bool" where
  "version_le xs ys \<longleftrightarrow> xs @ replicate (length ys - length xs) 0 \<le> ys @ replicate (length xs - length ys) 0"

lemma is_digit_not_dot: "is_digit c \<Longrightarrow> c \<noteq> CHR ''.''"
  by (auto simp: is_digit_def)

lemma digits_from:
  "list_all is_digit ds \<Longrightarrow> split_version_from (Some (of_nat a)) out (ds @ rest) =
     split_version_from (Some (of_nat (foldl (\<lambda>a c. a * 10 + (byte c - 48)) a ds))) out rest"
proof (induction ds arbitrary: a)
  case (Cons c ds)
  have "(of_nat a * 10 + of_nat (byte c - 48) :: 64 word) = of_nat (a * 10 + (byte c - 48))" by simp
  with Cons show ?case by (simp add: is_digit_not_dot del: of_nat_add of_nat_mult)
qed simp

lemma number_from:
  "split_version_from None out (nat_digits n @ rest) = split_version_from (Some (of_nat n)) out rest"
proof -
  obtain c ds where c: "nat_digits n = c # ds" using nat_digits_props [of n] by (cases "nat_digits n") auto
  with nat_digits_props [of n] have d: "is_digit c" "list_all is_digit ds"
    "foldl (\<lambda>a c. a * 10 + (byte c - 48)) (byte c - 48) ds = n"
    by (simp_all add: digits_val_def)
  show ?thesis
    using digits_from [OF d(2), of "byte c - 48" out rest] by (simp add: c d(1,3) is_digit_not_dot)
qed

lemma sint_of_small: "n < 2 ^ 63 \<Longrightarrow> sint (of_nat n :: 64 word) = int n"
  by (simp add: signed_of_nat signed_take_bit_int_eq_self)

lemma split_dotted_from:
  "list_all (\<lambda>x. x < 2 ^ 63) xs \<Longrightarrow> split_version_from None out (dotted xs) = out @ map int xs"
proof (induction xs arbitrary: out)
  case (Cons x xs)
  show ?case
  proof (cases xs)
    case Nil
    with Cons.prems show ?thesis
      using number_from [of out x "[]"] by (simp add: dotted_def push_component_def sint_of_small)
  next
    case (Cons y ys)
    have "split_version_from None out (dotted (x # xs)) = split_version_from None (out @ [int x]) (dotted xs)"
      using number_from [of out x "CHR ''.'' # dotted xs"] Cons.prems
      by (simp add: dotted_def Cons push_component_def sint_of_small)
    with Cons.IH [of "out @ [int x]"] Cons.prems show ?thesis by simp
  qed
qed (simp add: dotted_def push_component_def)

lemma split_dotted: "list_all (\<lambda>x. x < 2 ^ 63) xs \<Longrightarrow> split_version (dotted xs) = map int xs"
  by (simp add: split_version_def split_dotted_from)

lemma version_le_Cons: "version_le (x # xs) (y # ys) \<longleftrightarrow> x < y \<or> x = y \<and> version_le xs ys"
  by (simp add: version_le_def)

lemma version_le_Nil:
  "version_le [] ys" "version_le (x # xs) [] \<longleftrightarrow> x = 0 \<and> version_le xs []"
proof -
  have "replicate (length ys) 0 \<le> ys" for ys :: "nat list"
    by (induction ys) auto
  then show "version_le [] ys" by (simp add: version_le_def)
  show "version_le (x # xs) [] \<longleftrightarrow> x = 0 \<and> version_le xs []" by (simp add: version_le_def)
qed

lemma version_at_least_le: "version_at_least (map int ys) (map int xs) \<longleftrightarrow> version_le xs ys"
proof (induction "map int ys" "map int xs" arbitrary: xs ys rule: version_at_least.induct)
  case (2 c cs)
  then obtain y ys' where "ys = y # ys'" by (cases ys) auto
  with 2 show ?case by (auto simp: version_le_Nil)
next
  case (3 m ms)
  then obtain x xs' where x: "xs = x # xs'" "ms = map int xs'" by (cases xs) auto
  with 3 show ?case by (cases ys) (auto simp: version_le_Nil)
next
  case (4 c cs m ms)
  then obtain x xs' y ys' where "xs = x # xs'" "ys = y # ys'" by (cases xs; cases ys) auto
  with 4 show ?case by (auto simp: version_le_Cons)
qed (auto simp: version_le_Nil)

lemma built:
  assumes "build_docker_config goos port_ok s h = Inr c"
  shows "ho_port_bindings (do_host c) = port_bindings (cs_ports s)" "ho_cap_drop (do_host c) = build_cap_drop (cs_security s)"
    "ho_security_opt (do_host c) = build_security_opt (cs_security s)"
    "ho_pids_limit (do_host c) = build_pids_limit (cs_resources s)" "ho_memory (do_host c) = rc_memory_limit (cs_resources s)"
    "ho_restart (do_host c) = build_restart (cs_restart s)"
  using assms by (auto simp: build_docker_config_def split: option.splits)

lemmas spec_defs = nginx_web_spec_def apache_web_spec_def web_server_spec_def web_spec_def php_spec_def php_env_def
  php_mounts_def database_spec_def published_ports_def redis_spec_def base_spec_def Let_def

lemmas validation_defs = validate_spec_def mount_kinds_def bind_def expose_def port_bindings_def port_key_def port_proto_def
  build_cap_drop_def build_security_opt_def build_pids_limit_def build_restart_def hardened_security_def
  permissive_security_def role_resources_def mib_def engine_image_def default_port_def site_container_name_def

lemma database_port_text: "itoa 3306 = ''3306''"
  by code_simp

text \<open>A spec with the values of its secrets blanked.\<close>

definition without_secrets :: "container_spec \<Rightarrow> container_spec" where
  "without_secrets sp = sp\<lparr>cs_env_secrets := map (\<lambda>e. e\<lparr>es_value := []\<rparr>) (cs_env_secrets sp)\<rparr>"

section \<open>Properties\<close>

text \<open>
  MariaDB only moves forward: between versions in dotted form whose components fit an \<^verbatim>\<open>int\<close>, the change is allowed
  exactly when the new version is not lower in the component-wise order.
\<close>

theorem mariadb_upgrades_forward:
  assumes "list_all (\<lambda>x. x < 2 ^ 63) xs" and "list_all (\<lambda>x. x < 2 ^ 63) ys" and "xs \<noteq> []"
  shows "upgrade_allowed MariaDB (dotted xs) (dotted ys) \<longleftrightarrow> version_le xs ys"
proof -
  have "dotted xs \<noteq> []"
    using assms(3) nat_digits_props by (cases xs rule: list.exhaust; cases "tl xs") (auto simp: dotted_def)
  moreover have "is_version_at_least (dotted ys) (dotted xs) \<longleftrightarrow> version_le xs ys"
    by (simp only: is_version_at_least_def split_dotted [OF assms(1)] split_dotted [OF assms(2)] version_at_least_le)
  moreover have "version_le xs ys" if "dotted xs = dotted ys"
  proof -
    have "map int xs = map int ys" using arg_cong [OF that, of split_version] by (simp only: split_dotted [OF assms(1)] split_dotted [OF assms(2)])
    then show ?thesis by (simp add: version_le_def)
  qed
  ultimately show ?thesis by (auto simp: upgrade_allowed_def)
qed

lemma mariadb_upgrades_forward_witness:
  "upgrade_allowed MariaDB (dotted [10, 11]) (dotted [11]) \<and> \<not> upgrade_allowed MariaDB (dotted [11, 4]) (dotted [11])"
proof -
  have "upgrade_allowed MariaDB (dotted [10, 11]) (dotted [11]) \<longleftrightarrow> version_le [10, 11] [11]"
    "upgrade_allowed MariaDB (dotted [11, 4]) (dotted [11]) \<longleftrightarrow> version_le [11, 4] [11]"
    by (rule mariadb_upgrades_forward; simp)+
  then show ?thesis by (simp add: version_le_def)
qed

text \<open>
  MySQL compares the major version only, so it moves backwards too: a site on 8.4 may be set to 8.0 in place, and the
  marker of the volume does not stop it.
\<close>

theorem mysql_downgrade_allowed:
  "upgrade_allowed MySQL ''8.4'' ''8.0'' \<and>
   compare_marker \<lparr>vk_engine = ''mysql'', vk_version = ''8.4'', vk_created = t, vk_locorum_version = v\<rparr>
     \<lparr>vk_engine = ''mysql'', vk_version = ''8.0'', vk_created = t', vk_locorum_version = v'\<rparr> MySQL = None"
  by (simp add: upgrade_allowed_def same_major_def compare_marker_def)

text \<open>
  C25. The containers of a site are closed boxes: whatever the site row holds, the only host port the four containers bind is
  the database's, on the loopback interface and only when the site asks for it; all but PHP drop every
  capability and forbid new privileges; and all of them have a memory and a process limit and no restart policy.
\<close>

theorem site_containers_contained:
  assumes "sp \<in> set (service_specs env home s)" and "build_docker_config goos port_ok sp h = Inr c"
  shows "validate_spec sp = None \<and>
    ho_port_bindings (do_host c) =
      (if site_publish_db_port s \<and> cs_name sp = site_container_name (site_slug s) ''database''
       then [(''3306/tcp'', ''127.0.0.1'', ''0'')] else []) \<and>
    (cs_name sp = site_container_name (site_slug s) ''php'' \<or>
       ho_cap_drop (do_host c) = [''ALL''] \<and> ''no-new-privileges=true'' \<in> set (ho_security_opt (do_host c))) \<and>
    ho_pids_limit (do_host c) = Some 1024 \<and> 0 < ho_memory (do_host c) \<and> ho_restart (do_host c) = ''no''"
proof -
  consider "sp = nginx_web_spec env s home" | "sp = apache_web_spec env s home" | "sp = php_spec env s home"
    | "sp = database_spec env (resolve_engine s) s home" | "sp = redis_spec env s"
    using assms(1) by (auto simp: service_specs_def web_spec_def split: if_splits)
  then show ?thesis
    by cases (use built [OF assms(2)] in \<open>simp_all add: spec_defs validation_defs database_port_text split: engine.split\<close>)
qed

lemma site_containers_contained_witness:
  "\<exists>c. build_docker_config ''linux'' (\<lambda>_ _. True) (database_spec sample_spec_env MySQL (empty_site\<lparr>site_publish_db_port := True\<rparr>) ''home'') ''h'' = Inr c
     \<and> ho_port_bindings (do_host c) = [(''3306/tcp'', ''127.0.0.1'', ''0'')] \<and> ho_cap_drop (do_host c) = [''ALL'']"
proof -
  let ?s = "empty_site\<lparr>site_publish_db_port := True\<rparr>" and ?sp = "database_spec sample_spec_env MySQL (empty_site\<lparr>site_publish_db_port := True\<rparr>) ''home''"
  have none: "find (\<lambda>p :: port_map. False) ps = None" for ps by (simp add: find_None_iff)
  obtain c where c: "build_docker_config ''linux'' (\<lambda>_ _. True) ?sp ''h'' = Inr c"
    by (simp add: build_docker_config_def none)
  have e: "resolve_engine ?s = MySQL" by code_simp
  have n: "cs_name ?sp = site_container_name (site_slug ?s) ''database''" by (simp add: database_spec_def base_spec_def)
  have "?sp \<in> set (service_specs sample_spec_env ''home'' ?s)" by (simp add: service_specs_def e)
  from site_containers_contained [OF this c] c n show ?thesis by (auto simp: site_container_name_inj)
qed

text \<open>
  The database password is only ever a value of a secret: another password changes nothing else in the specs of a site,
  their hashes included.
\<close>

theorem password_only_in_secrets:
  "map without_secrets (service_specs env home (s\<lparr>site_db_password := p\<rparr>)) = map without_secrets (service_specs env home s) \<and>
   map (config_hash digest) (service_specs env home (s\<lparr>site_db_password := p\<rparr>)) =
     map (config_hash digest) (service_specs env home s)"
proof -
  have e: "resolve_engine (s\<lparr>site_db_password := p\<rparr>) = resolve_engine s" by (simp add: resolve_engine_def)
  have v: "db_version_for (s\<lparr>site_db_password := p\<rparr>) = db_version_for s" by (simp add: db_version_for_def)
  have "map without_secrets (service_specs env home (s\<lparr>site_db_password := p\<rparr>)) = map without_secrets (service_specs env home s)"
    by (simp add: service_specs_def without_secrets_def spec_defs e v comp_def)
  moreover have "config_hash digest (without_secrets sp) = config_hash digest sp" for sp
    by (simp add: config_hash_def canonical_def without_secrets_def comp_def)
  ultimately show ?thesis by (metis (no_types, lifting) list.map_comp comp_apply map_eq_conv map_map)
qed

text \<open>The text with these lines, each ended by a newline.\<close>

definition unlines :: "string list \<Rightarrow> string" where "unlines ls = concat (map (\<lambda>l. l @ [CHR 0x0A]) ls)"

lemma scan_unlines: "\<forall>l\<in>set ls. CHR 0x0A \<notin> set l \<Longrightarrow> scan_lines (unlines ls) = ls"
proof (induction ls)
  case (Cons l ls)
  have tw: "takeWhile (\<lambda>d. d \<noteq> CHR 0x0A) (l @ CHR 0x0A # unlines ls) = l"
    using Cons.prems by (auto simp: takeWhile_tail intro!: takeWhile_append2 [THEN trans])
  obtain c s where cs: "l @ CHR 0x0A # unlines ls = c # s" by (cases "l @ CHR 0x0A # unlines ls") auto
  have "scan_lines (unlines (l # ls)) = scan_lines (l @ CHR 0x0A # unlines ls)" by (simp add: unlines_def)
  also have "\<dots> = l # scan_lines (drop (Suc (length l)) (l @ CHR 0x0A # unlines ls))"
    by (simp only: cs scan_lines.simps Let_def tw [unfolded cs])
  finally show ?case using Cons by simp
qed (simp add: unlines_def)

text \<open>A line no filter has a match in.\<close>

definition untouched :: "import_filter list \<Rightarrow> string \<Rightarrow> bool" where
  "untouched fs l \<longleftrightarrow> list_all (\<lambda>f. \<not> if_pat f l) fs \<and> drop_cr l = l \<and> CHR 0x0A \<notin> set l \<and> length l < max_line_bytes"

lemma filter_line_untouched: "list_all (\<lambda>f. \<not> if_pat f l) fs \<Longrightarrow> filter_line fs l = Some l"
  by (induction fs) auto

text \<open>
  The filter is transparent: lines in which no filter finds a match come out byte for byte, in order, and the count
  returned is the size of the output.
\<close>

theorem import_leaves_other_lines:
  assumes "list_all (untouched fs) ls"
  shows "filter_import_stream fs (unlines ls) = (length (unlines ls), None, unlines ls)"
proof -
  have "filter_scanned max_line_bytes fs ls = (length (unlines ls), None, unlines ls)"
    using assms by (induction ls) (auto simp: untouched_def unlines_def filter_line_untouched not_le)
  moreover have "scan_lines (unlines ls) = ls"
    using assms by (intro scan_unlines) (auto simp: list_all_iff untouched_def)
  ultimately show ?thesis by (simp add: filter_import_stream_def)
qed

lemma import_leaves_other_lines_witness:
  "filter_import_stream (engine_filters MariaDB) (unlines [''INSERT INTO t VALUES (1);'', ''-- done''])
     = (34, None, unlines [''INSERT INTO t VALUES (1);'', ''-- done''])"
proof -
  have "list_all (untouched (engine_filters MariaDB)) [''INSERT INTO t VALUES (1);'', ''-- done'']"
    by (simp add: untouched_def max_line_bytes_def drop_cr_def) code_simp
  from import_leaves_other_lines [OF this] show ?thesis by (simp add: unlines_def)
qed

text \<open>
  The order of the chain leaves a gap: the filter that drops \<^verbatim>\<open>USE\<close> runs before the one that strips a
  \<^verbatim>\<open>DEFINER\<close> clause, so a line that only begins with \<^verbatim>\<open>USE\<close> once the clause is gone is written.
\<close>

theorem import_lets_use_through:
  "filter_import_stream (engine_filters e) (unlines [''DEFINER=a@b USE mysql;'']) = (11, None, unlines [''USE mysql;''])"
proof -
  have "filter_line (engine_filters e) ''DEFINER=a@b USE mysql;'' = Some ''USE mysql;''"
    by (cases e; simp only:; code_simp)
  moreover have "scan_lines (unlines [''DEFINER=a@b USE mysql;'']) = [''DEFINER=a@b USE mysql;'']"
    by (rule scan_unlines) simp
  ultimately show ?thesis
    by (simp add: filter_import_stream_def max_line_bytes_def drop_cr_def unlines_def)
qed

end
