(* ===== verification/Docker_Engine.thy ===== *)
theory Docker_Engine
  imports Docker_Specs Retry
begin

text \<open>
  The engine of \<^verbatim>\<open>internal/docker\<close> above the Docker SDK: ensuring, starting, stopping and removing containers
  (\<^verbatim>\<open>engine_container.go\<close>, \<^verbatim>\<open>container.go\<close>), networks (\<^verbatim>\<open>engine_network.go\<close>, \<^verbatim>\<open>network.go\<close>), volumes
  (\<^verbatim>\<open>volume.go\<close>) and the readiness poll (\<^verbatim>\<open>engine_health.go\<close>). The SDK is a parameter: functions of the world that
  answer or fail. \<open>daemon_ok\<close> collects what its documentation promises about the containers, networks and volumes a world
  holds. The in-memory engine of \<^verbatim>\<open>docker/fake\<close> is modelled beside it; both keep the contract \<open>container_runtime\<close>
  the site steps rely on.
\<close>

section \<open>The SDK\<close>

record container_state =
  ks_status :: string
  ks_running :: bool
  ks_exit_code :: int
  ks_health :: "string option"

text \<open>What an inspection returns: the labels, when there is a configuration, whether it has a health check, the state.\<close>

record container_info =
  ci_id :: string
  ci_labels :: "labels option"
  ci_has_healthcheck :: bool
  ci_state :: "container_state option"

record network_info =
  ni_id :: string
  ni_name :: string

record 'w daemon =
  dm_inspect :: "string \<Rightarrow> 'w \<Rightarrow> (api_error + container_info) \<times> 'w"
  dm_create :: "string \<Rightarrow> docker_config \<Rightarrow> 'w \<Rightarrow> (api_error + string) \<times> 'w"
  dm_start :: "string \<Rightarrow> 'w \<Rightarrow> (api_error + unit) \<times> 'w"
  dm_stop :: "string \<Rightarrow> int \<Rightarrow> 'w \<Rightarrow> (api_error + unit) \<times> 'w"
  dm_remove :: "string \<Rightarrow> 'w \<Rightarrow> (api_error + unit) \<times> 'w"
  dm_network_inspect :: "string \<Rightarrow> 'w \<Rightarrow> (api_error + string) \<times> 'w"
  dm_network_create :: "network_spec \<Rightarrow> 'w \<Rightarrow> (api_error + string) \<times> 'w"
  dm_network_list :: "labels \<Rightarrow> 'w \<Rightarrow> (api_error + network_info list) \<times> 'w"
  dm_network_remove :: "string \<Rightarrow> 'w \<Rightarrow> (api_error + unit) \<times> 'w"
  dm_volume_inspect :: "string \<Rightarrow> 'w \<Rightarrow> (api_error + unit) \<times> 'w"
  dm_volume_create :: "volume_spec \<Rightarrow> 'w \<Rightarrow> (api_error + unit) \<times> 'w"
  dm_volume_list :: "labels \<Rightarrow> 'w \<Rightarrow> (api_error + string list) \<times> 'w"
  dm_volume_remove :: "string \<Rightarrow> 'w \<Rightarrow> (api_error + unit) \<times> 'w"
  dm_logs :: "string \<Rightarrow> 'w \<Rightarrow> string \<times> 'w"
  dm_done :: "'w \<Rightarrow> go_error option"
  dm_wait :: "duration \<Rightarrow> 'w \<Rightarrow> go_error option \<times> 'w"
  dm_now :: "'w \<Rightarrow> gtime"
  dm_deadline :: "gtime option"
  dm_goos :: string
  dm_port_ok :: port_check
  dm_digest :: "canonical_spec \<Rightarrow> string"

text \<open>A retried call of the SDK, as \<^verbatim>\<open>withRetry\<close> sees it.\<close>

definition retrying ::
  "'w daemon \<Rightarrow> ('w \<Rightarrow> (api_error + 'a) \<times> 'w) \<Rightarrow> (retry_class \<Rightarrow> 'w \<Rightarrow> go_error option \<times> 'w) option \<Rightarrow> ('a, 'w) retry_env" where
  "retrying dm op rec = \<lparr>re_op = op, re_recover = rec, re_done = dm_done dm, re_wait = dm_wait dm, re_now = dm_now dm,
     re_deadline = dm_deadline dm\<rparr>"

section \<open>Containers\<close>

definition remove_container :: "'w daemon \<Rightarrow> string \<Rightarrow> 'w \<Rightarrow> go_error option \<times> 'w" where
  "remove_container dm name w =
     (case dm_remove dm name w of
        (Inr _, w') \<Rightarrow> (None, w')
      | (Inl e, w') \<Rightarrow> (if ae_not_found e then None else Some (''remove container '' @ quoted name @ '': '' @ ae_text e), w'))"

definition redacted_create :: "'w daemon \<Rightarrow> container_spec \<Rightarrow> docker_config \<Rightarrow> 'w \<Rightarrow> (api_error + string) \<times> 'w" where
  "redacted_create dm sp cfg w =
     (case dm_create dm (cs_name sp) cfg w of
        (Inr i, w') \<Rightarrow> (Inr i, w')
      | (Inl e, w') \<Rightarrow>
          (let msg = redact_err_spec sp (ae_text e)
           in (Inl (if msg = ae_text e then e
                    else \<lparr>ae_text = msg, ae_conflict = False, ae_not_found = False, ae_refused = False,
                          ae_net_refused = False\<rparr>), w')))"

definition recover_name :: "'w daemon \<Rightarrow> string \<Rightarrow> retry_class \<Rightarrow> 'w \<Rightarrow> go_error option \<times> 'w" where
  "recover_name dm name class w = (None, if class = RetryNameInUse then snd (dm_remove dm name w) else w)"

definition create_container_from_spec ::
  "'w daemon \<Rightarrow> container_spec \<Rightarrow> string \<Rightarrow> 'w \<Rightarrow> (go_error + string) \<times> 'w" where
  "create_container_from_spec dm sp hash w =
     (case build_docker_config (dm_goos dm) (dm_port_ok dm) sp hash of
        Inl e \<Rightarrow> (Inl e, w)
      | Inr cfg \<Rightarrow>
          (case with_retry (retrying dm (redacted_create dm sp cfg) (Some (recover_name dm (cs_name sp)))) w of
             (Inr i, _, w') \<Rightarrow> (Inr i, w')
           | (Inl e, _, w') \<Rightarrow> (Inl (retry_error_text (''create container '' @ cs_name sp) e), w')))"

definition ensure_container :: "'w daemon \<Rightarrow> container_spec \<Rightarrow> 'w \<Rightarrow> (go_error + string) \<times> 'w" where
  "ensure_container dm sp w =
     (case validate_spec sp of
        Some e \<Rightarrow> (Inl e, w)
      | None \<Rightarrow>
          (let want = config_hash (dm_digest dm) sp
           in case dm_inspect dm (cs_name sp) w of
                (Inl e, w) \<Rightarrow>
                  (if \<not> is_not_found_like (Some e) then (Inl (''inspect container '' @ quoted (cs_name sp) @ '': '' @ ae_text e), w)
                   else create_container_from_spec dm sp want w)
              | (Inr info, w) \<Rightarrow>
                  (if (case ci_labels info of None \<Rightarrow> False | Some ls \<Rightarrow> map_of ls label_config_hash = Some want)
                   then (Inr (ci_id info), w)
                   else case remove_container dm (cs_name sp) w of
                          (Some e, w) \<Rightarrow> (Inl (''remove drifted container '' @ quoted (cs_name sp) @ '': '' @ e), w)
                        | (None, w) \<Rightarrow> create_container_from_spec dm sp want w)))"

definition container_exists :: "'w daemon \<Rightarrow> string \<Rightarrow> 'w \<Rightarrow> (go_error + bool) \<times> 'w" where
  "container_exists dm name w =
     (case dm_inspect dm name w of
        (Inl e, w) \<Rightarrow> (if ae_not_found e then Inr False else Inl (ae_text e), w)
      | (Inr _, w) \<Rightarrow> (Inr True, w))"

definition container_is_running :: "'w daemon \<Rightarrow> string \<Rightarrow> 'w \<Rightarrow> (go_error + bool) \<times> 'w" where
  "container_is_running dm name w =
     (case dm_inspect dm name w of
        (Inl e, w) \<Rightarrow> (if ae_not_found e then Inr False else Inl (ae_text e), w)
      | (Inr info, w) \<Rightarrow> (Inr (case ci_state info of None \<Rightarrow> False | Some k \<Rightarrow> ks_running k), w))"

definition start_container :: "'w daemon \<Rightarrow> string \<Rightarrow> 'w \<Rightarrow> go_error option \<times> 'w" where
  "start_container dm name w =
     (case container_is_running dm name w of
        (Inl e, w) \<Rightarrow> (Some e, w)
      | (Inr True, w) \<Rightarrow> (None, w)
      | (Inr False, w) \<Rightarrow>
          (case with_retry_err (retrying dm (dm_start dm name) None) w of
             (e, _, w) \<Rightarrow> (map_option (retry_error_text (''start container '' @ name)) e, w)))"

definition stop_container :: "'w daemon \<Rightarrow> string \<Rightarrow> duration \<Rightarrow> 'w \<Rightarrow> go_error option \<times> 'w" where
  "stop_container dm name grace w =
     (case container_exists dm name w of
        (Inl e, w) \<Rightarrow> (Some e, w)
      | (Inr False, w) \<Rightarrow> (None, w)
      | (Inr True, w) \<Rightarrow>
          (case dm_stop dm name (max 0 (grace div second)) w of
             (Inr _, w) \<Rightarrow> (None, w)
           | (Inl e, w) \<Rightarrow> (if ae_not_found e then None else Some (''stop container '' @ quoted name @ '': '' @ ae_text e), w)))"

section \<open>Networks and volumes\<close>

definition wrapped_network_create :: "'w daemon \<Rightarrow> network_spec \<Rightarrow> 'w \<Rightarrow> (api_error + string) \<times> 'w" where
  "wrapped_network_create dm sp w =
     (case dm_network_create dm sp w of
        (Inr i, w') \<Rightarrow> (Inr i, w')
      | (Inl e, w') \<Rightarrow> (Inl (e\<lparr>ae_text := ''creating network '' @ quoted (ns_name sp) @ '': '' @ ae_text e\<rparr>), w'))"

definition ensure_network :: "'w daemon \<Rightarrow> network_spec \<Rightarrow> 'w \<Rightarrow> (go_error + string) \<times> 'w" where
  "ensure_network dm sp w =
     (if ns_name sp = [] then (Inl ''network name required'', w)
      else case dm_network_inspect dm (ns_name sp) w of
             (Inr i, w) \<Rightarrow> (Inr i, w)
           | (Inl e, w) \<Rightarrow>
               (if \<not> is_not_found_like (Some e) then (Inl (''inspecting network '' @ quoted (ns_name sp) @ '': '' @ ae_text e), w)
                else let sp = (if ns_driver sp = [] then sp\<lparr>ns_driver := ''bridge''\<rparr> else sp)
                     in case with_retry (retrying dm (wrapped_network_create dm sp)
                               (Some (\<lambda>class w. (None, if class = RetryNetworkExists
                                  then snd (dm_network_inspect dm (ns_name sp) w) else w)))) w of
                          (Inr i, _, w) \<Rightarrow> (Inr i, w)
                        | (Inl e, _, w) \<Rightarrow> (Inl (retry_error_text (''ensure network '' @ ns_name sp) e), w)))"

fun remove_networks :: "'w daemon \<Rightarrow> network_info list \<Rightarrow> 'w \<Rightarrow> go_error option \<times> 'w" where
  "remove_networks dm [] w = (None, w)"
| "remove_networks dm (n # ns) w =
     (case dm_network_remove dm (ni_id n) w of
        (Inl e, w) \<Rightarrow> (if ae_not_found e then remove_networks dm ns w
                        else (Some (''removing network '' @ quoted (ni_name n) @ '': '' @ ae_text e), w))
      | (Inr _, w) \<Rightarrow> remove_networks dm ns w)"

definition remove_networks_by_label :: "'w daemon \<Rightarrow> labels \<Rightarrow> 'w \<Rightarrow> go_error option \<times> 'w" where
  "remove_networks_by_label dm match w =
     (case dm_network_list dm match w of
        (Inl e, w) \<Rightarrow> (Some (''listing networks: '' @ ae_text e), w)
      | (Inr ns, w) \<Rightarrow> remove_networks dm ns w)"

definition ensure_volume :: "'w daemon \<Rightarrow> volume_spec \<Rightarrow> 'w \<Rightarrow> (go_error + string) \<times> 'w" where
  "ensure_volume dm sp w =
     (if vs_name sp = [] then (Inl ''volume name required'', w)
      else case dm_volume_inspect dm (vs_name sp) w of
             (Inr _, w) \<Rightarrow> (Inr (vs_name sp), w)
           | (Inl e, w) \<Rightarrow>
               (if \<not> is_not_found_like (Some e) then (Inl (''inspecting volume '' @ quoted (vs_name sp) @ '': '' @ ae_text e), w)
                else case dm_volume_create dm sp w of
                       (Inr _, w) \<Rightarrow> (Inr (vs_name sp), w)
                     | (Inl e, w) \<Rightarrow> (Inl (''creating volume '' @ quoted (vs_name sp) @ '': '' @ ae_text e), w)))"

fun remove_volumes :: "'w daemon \<Rightarrow> string list \<Rightarrow> 'w \<Rightarrow> go_error option \<times> 'w" where
  "remove_volumes dm [] w = (None, w)"
| "remove_volumes dm (v # vs) w =
     (case dm_volume_remove dm v w of
        (Inl e, w) \<Rightarrow> (if ae_not_found e \<or> is_not_found_like (Some e) then remove_volumes dm vs w
                        else (Some (''removing volume '' @ quoted v @ '': '' @ ae_text e), w))
      | (Inr _, w) \<Rightarrow> remove_volumes dm vs w)"

definition remove_volumes_by_label :: "'w daemon \<Rightarrow> labels \<Rightarrow> 'w \<Rightarrow> go_error option \<times> 'w" where
  "remove_volumes_by_label dm match w =
     (case dm_volume_list dm match w of
        (Inl e, w) \<Rightarrow> (Some (''listing volumes: '' @ ae_text e), w)
      | (Inr vs, w) \<Rightarrow> remove_volumes dm vs w)"

section \<open>Readiness\<close>

definition health_poll_interval :: duration where "health_poll_interval = 250 * millisecond"
definition initial_settle_period :: duration where "initial_settle_period = second"

definition not_ready :: "'w daemon \<Rightarrow> string \<Rightarrow> string \<Rightarrow> 'w \<Rightarrow> go_error option \<times> 'w" where
  "not_ready dm name cause w =
     (case dm_logs dm name w of
        (logs, w) \<Rightarrow>
          (Some (if logs = [] then ''container not ready: '' @ cause
                 else ''container not ready: '' @ cause @ [CHR 0x0A] @ ''--- last 50 log lines ---'' @ [CHR 0x0A] @ logs), w))"

text \<open>
  What one inspection decides: \<open>None\<close> to go on polling. The text of a timeout leaves out the duration and the two flags.
\<close>

datatype verdict = Ready | Failed string

definition judge :: "string \<Rightarrow> bool \<Rightarrow> duration \<Rightarrow> bool \<Rightarrow> container_state \<Rightarrow> verdict option" where
  "judge name has_check since late k =
     (if ks_status k \<in> {''exited'', ''dead'', ''removing''} then 
        Some (Failed (''container '' @ quoted name @ '' in state '' @ quoted (ks_status k) @ '' (exit='' @ itoa (ks_exit_code k) @ '')''))
      else if ks_running k \<and> has_check \<and> ks_health k = Some ''healthy'' then Some Ready
      else if ks_running k \<and> has_check \<and> ks_health k = Some ''unhealthy'' then 
        Some (Failed (''container '' @ quoted name @ '' is unhealthy''))
      else if ks_running k \<and> \<not> has_check \<and> initial_settle_period \<le> since then Some Ready
      else if late then Some (Failed ''timeout'') else None)"

text \<open>The loop of \<^verbatim>\<open>WaitReady\<close>, \<open>fuel\<close> inspections long; \<open>None\<close> when they did not decide.\<close>

fun wait_ready_loop ::
  "nat \<Rightarrow> 'w daemon \<Rightarrow> string \<Rightarrow> gtime \<Rightarrow> gtime \<Rightarrow> bool \<Rightarrow> 'w \<Rightarrow> (go_error option \<times> 'w) option" where
  "wait_ready_loop 0 dm name deadline started has_check w = None"
| "wait_ready_loop (Suc fuel) dm name deadline started has_check w =
     (case dm_done dm w of
        Some e \<Rightarrow> Some (Some e, w)
      | None \<Rightarrow>
          (case dm_inspect dm name w of
             (Inl e, w) \<Rightarrow>
               Some (Some (if is_not_found_like (Some e) then ''docker resource not found: '' @ name
                           else ''inspect '' @ quoted name @ '': '' @ ae_text e), w)
           | (Inr info, w) \<Rightarrow>
               (let has_check = has_check \<or> ci_labels info \<noteq> None \<and> ci_has_healthcheck info
                in case ci_state info of
                     None \<Rightarrow> wait_ready_loop fuel dm name deadline started has_check (snd (dm_wait dm health_poll_interval w))
                   | Some k \<Rightarrow>
                       (case judge name has_check (time_sub (dm_now dm w) started) (deadline < dm_now dm w) k of
                          Some Ready \<Rightarrow> Some (None, w)
                        | Some (Failed cause) \<Rightarrow> Some (not_ready dm name cause w)
                        | None \<Rightarrow>
                            (case dm_wait dm health_poll_interval w of
                               (Some e, w) \<Rightarrow> Some (Some e, w)
                             | (None, w) \<Rightarrow> wait_ready_loop fuel dm name deadline started has_check w)))))"

text \<open>\<open>scale\<close> is the factor of \<^verbatim>\<open>LOCORUM_HEALTH_TIMEOUT_MULT\<close>.\<close>

definition wait_ready ::
  "nat \<Rightarrow> 'w daemon \<Rightarrow> (duration \<Rightarrow> duration) \<Rightarrow> string \<Rightarrow> duration \<Rightarrow> 'w \<Rightarrow> (go_error option \<times> 'w) option" where
  "wait_ready fuel dm scale name timeout w =
     (let d = dm_now dm w + scale timeout;
          deadline = (case dm_deadline dm of None \<Rightarrow> d | Some d2 \<Rightarrow> if d2 < d then d2 else d)
      in wait_ready_loop fuel dm name deadline (dm_now dm w) False w)"

section \<open>What the SDK documents\<close>

text \<open>A container as the daemon holds it.\<close>

record docker_container =
  dk_id :: string
  dk_labels :: labels
  dk_running :: bool

definition same_containers :: "('w \<Rightarrow> string \<rightharpoonup> docker_container) \<Rightarrow> ('w \<Rightarrow> 'a \<times> 'w) \<Rightarrow> bool" where
  "same_containers cont f \<longleftrightarrow> (\<forall>w. cont (snd (f w)) = cont w)"

definition inspect_ok :: "('w \<Rightarrow> string \<rightharpoonup> docker_container) \<Rightarrow> 'w daemon \<Rightarrow> bool" where
  "inspect_ok cont dm \<longleftrightarrow>
     (\<forall>n. same_containers cont (dm_inspect dm n)) \<and>
     (\<forall>n w. case fst (dm_inspect dm n w) of
        Inl e \<Rightarrow> is_not_found_like (Some e) \<longrightarrow> cont w n = None
      | Inr info \<Rightarrow>
          (case cont w n of None \<Rightarrow> False
           | Some c \<Rightarrow> ci_id info = dk_id c \<and> (case ci_labels info of None \<Rightarrow> True | Some ls \<Rightarrow> ls = dk_labels c) \<and>
               (case ci_state info of None \<Rightarrow> True | Some k \<Rightarrow> ks_running k = dk_running c)))"

definition create_ok :: "('w \<Rightarrow> string \<rightharpoonup> docker_container) \<Rightarrow> 'w daemon \<Rightarrow> bool" where
  "create_ok cont dm \<longleftrightarrow>
     (\<forall>n cfg w e w'. dm_create dm n cfg w = (Inl e, w') \<longrightarrow> cont w' = cont w) \<and>
     (\<forall>n cfg w i w'. dm_create dm n cfg w = (Inr i, w') \<longrightarrow> cont w' = (cont w)(n \<mapsto> \<lparr>dk_id = i, dk_labels = do_labels cfg, dk_running = False\<rparr>))"

definition start_ok :: "('w \<Rightarrow> string \<rightharpoonup> docker_container) \<Rightarrow> 'w daemon \<Rightarrow> bool" where
  "start_ok cont dm \<longleftrightarrow>
     (\<forall>n w e w'. dm_start dm n w = (Inl e, w') \<longrightarrow> cont w' = cont w) \<and>
     (\<forall>n w u w'. dm_start dm n w = (Inr u, w') \<longrightarrow> (\<exists>c. cont w n = Some c \<and> cont w' = (cont w)(n \<mapsto> c\<lparr>dk_running := True\<rparr>)))"

definition stop_ok :: "('w \<Rightarrow> string \<rightharpoonup> docker_container) \<Rightarrow> 'w daemon \<Rightarrow> bool" where
  "stop_ok cont dm \<longleftrightarrow>
     (\<forall>n t w e w'. dm_stop dm n t w = (Inl e, w') \<longrightarrow> cont w' = cont w \<and> (ae_not_found e \<longrightarrow> cont w n = None)) \<and>
     (\<forall>n t w u w'. dm_stop dm n t w = (Inr u, w') \<longrightarrow> (\<exists>c. cont w n = Some c \<and> cont w' = (cont w)(n \<mapsto> c\<lparr>dk_running := False\<rparr>)))"

definition remove_ok :: "('w \<Rightarrow> string \<rightharpoonup> docker_container) \<Rightarrow> 'w daemon \<Rightarrow> bool" where
  "remove_ok cont dm \<longleftrightarrow>
     (\<forall>n w e w'. dm_remove dm n w = (Inl e, w') \<longrightarrow> cont w' = cont w \<and> (ae_not_found e \<longrightarrow> cont w n = None)) \<and>
     (\<forall>n w u w'. dm_remove dm n w = (Inr u, w') \<longrightarrow> cont w' = (cont w)(n := None))"

definition daemon_ok :: "('w \<Rightarrow> string \<rightharpoonup> docker_container) \<Rightarrow> 'w daemon \<Rightarrow> bool" where
  "daemon_ok cont dm \<longleftrightarrow> inspect_ok cont dm \<and> create_ok cont dm \<and> start_ok cont dm \<and> stop_ok cont dm \<and> remove_ok cont dm \<and>
     (\<forall>d. same_containers cont (dm_wait dm d))"

lemma daemon_inspect:
  assumes "daemon_ok cont dm" and "dm_inspect dm n w = (r, w')"
  shows "cont w' = cont w" "r = Inl e \<Longrightarrow> is_not_found_like (Some e) \<Longrightarrow> cont w n = None"
    "r = Inr info \<Longrightarrow> \<exists>c. cont w n = Some c \<and> ci_id info = dk_id c \<and> (case ci_labels info of None \<Rightarrow> True | Some ls \<Rightarrow> ls = dk_labels c)
       \<and> (case ci_state info of None \<Rightarrow> True | Some k \<Rightarrow> ks_running k = dk_running c)"
proof -
  have i: "inspect_ok cont dm" using assms(1) by (simp add: daemon_ok_def)
  then have "cont (snd (dm_inspect dm n w)) = cont w" by (simp add: inspect_ok_def same_containers_def)
  then show "cont w' = cont w" using assms(2) by simp
  have f: "case fst (dm_inspect dm n w) of
        Inl e \<Rightarrow> is_not_found_like (Some e) \<longrightarrow> cont w n = None
      | Inr info \<Rightarrow>
          (case cont w n of None \<Rightarrow> False
           | Some c \<Rightarrow> ci_id info = dk_id c \<and> (case ci_labels info of None \<Rightarrow> True | Some ls \<Rightarrow> ls = dk_labels c) \<and>
               (case ci_state info of None \<Rightarrow> True | Some k \<Rightarrow> ks_running k = dk_running c))"
    using i unfolding inspect_ok_def by blast
  show "r = Inl e \<Longrightarrow> is_not_found_like (Some e) \<Longrightarrow> cont w n = None" using f assms(2) by simp
  show "r = Inr info \<Longrightarrow> \<exists>c. cont w n = Some c \<and> ci_id info = dk_id c \<and> (case ci_labels info of None \<Rightarrow> True | Some ls \<Rightarrow> ls = dk_labels c)
       \<and> (case ci_state info of None \<Rightarrow> True | Some k \<Rightarrow> ks_running k = dk_running c)"
    using f assms(2) by (auto split: option.splits)
qed

lemma not_found_is_like: "ae_not_found e \<Longrightarrow> is_not_found_like (Some e)"
  by (simp add: is_not_found_like_def)

lemma daemon_create:
  assumes "daemon_ok cont dm" and "dm_create dm n cfg w = (r, w')"
  shows "r = Inl e \<Longrightarrow> cont w' = cont w"
    "r = Inr i \<Longrightarrow> cont w' = (cont w)(n \<mapsto> \<lparr>dk_id = i, dk_labels = do_labels cfg, dk_running = False\<rparr>)"
  using assms unfolding daemon_ok_def create_ok_def by blast+

lemma daemon_start:
  assumes "daemon_ok cont dm" and "dm_start dm n w = (r, w')"
  shows "r = Inl e \<Longrightarrow> cont w' = cont w"
    "r = Inr u \<Longrightarrow> \<exists>c. cont w n = Some c \<and> cont w' = (cont w)(n \<mapsto> c\<lparr>dk_running := True\<rparr>)"
  using assms unfolding daemon_ok_def start_ok_def by blast+

lemma daemon_stop:
  assumes "daemon_ok cont dm" and "dm_stop dm n t w = (r, w')"
  shows "r = Inl e \<Longrightarrow> cont w' = cont w \<and> (ae_not_found e \<longrightarrow> cont w n = None)"
    "r = Inr u \<Longrightarrow> \<exists>c. cont w n = Some c \<and> cont w' = (cont w)(n \<mapsto> c\<lparr>dk_running := False\<rparr>)"
  using assms unfolding daemon_ok_def stop_ok_def by blast+

lemma daemon_remove:
  assumes "daemon_ok cont dm" and "dm_remove dm n w = (r, w')"
  shows "r = Inl e \<Longrightarrow> cont w' = cont w \<and> (ae_not_found e \<longrightarrow> cont w n = None)"
    "r = Inr u \<Longrightarrow> cont w' = (cont w)(n := None)"
  using assms unfolding daemon_ok_def remove_ok_def by blast+

lemma daemon_wait: "daemon_ok cont dm \<Longrightarrow> cont (snd (dm_wait dm d w)) = cont w"
  by (simp add: daemon_ok_def same_containers_def)

section \<open>What the engine does to containers\<close>

lemma remove_container_effect:
  assumes "daemon_ok cont dm" and "remove_container dm n w = (e, w')"
  shows "e = None \<Longrightarrow> cont w' = (cont w)(n := None)" "e \<noteq> None \<Longrightarrow> cont w' = cont w"
proof -
  obtain r v where r: "dm_remove dm n w = (r, v)" by (cases "dm_remove dm n w")
  note d = daemon_remove [OF assms(1) r]
  show "e = None \<Longrightarrow> cont w' = (cont w)(n := None)"
    using assms(2) r d by (cases r) (auto simp: remove_container_def split: if_splits)
  show "e \<noteq> None \<Longrightarrow> cont w' = cont w"
    using assms(2) r d by (cases r) (auto simp: remove_container_def split: if_splits)
qed

lemma stop_container_effect:
  assumes "daemon_ok cont dm" and "stop_container dm n g w = (e, w')"
  shows "e = None \<Longrightarrow> (case cont w n of None \<Rightarrow> cont w' = cont w | Some c \<Rightarrow> cont w' = (cont w)(n \<mapsto> c\<lparr>dk_running := False\<rparr>))"
    "e \<noteq> None \<Longrightarrow> cont w' = cont w"
proof -
  obtain r v where r: "dm_inspect dm n w = (r, v)" by (cases "dm_inspect dm n w")
  obtain r2 v2 where r2: "dm_stop dm n (max 0 (g div second)) v = (r2, v2)" by fastforce
  note i = daemon_inspect [OF assms(1) r] and d = daemon_stop [OF assms(1) r2]
  show "e = None \<Longrightarrow> (case cont w n of None \<Rightarrow> cont w' = cont w | Some c \<Rightarrow> cont w' = (cont w)(n \<mapsto> c\<lparr>dk_running := False\<rparr>))"
    using assms(2) r r2 i d
    by (cases r; cases r2)
      (auto simp: stop_container_def container_exists_def not_found_is_like split: if_splits option.splits)
  show "e \<noteq> None \<Longrightarrow> cont w' = cont w"
    using assms(2) r r2 i d
    by (cases r; cases r2) (auto simp: stop_container_def container_exists_def split: if_splits)
qed

lemma start_container_effect:
  assumes "daemon_ok cont dm" and "start_container dm n w = (e, w')"
  shows "e = None \<Longrightarrow> \<exists>c. cont w n = Some c \<and> cont w' = (cont w)(n \<mapsto> c\<lparr>dk_running := True\<rparr>)"
    "e \<noteq> None \<Longrightarrow> cont w' = cont w"
proof -
  obtain r v where r: "dm_inspect dm n w = (r, v)" by (cases "dm_inspect dm n w")
  note i = daemon_inspect [OF assms(1) r]
  let ?env = "retrying dm (dm_start dm n) None"
  obtain x t v2 where x: "with_retry ?env v = (x, t, v2)" by (metis prod_cases3)
  have run: "case x of Inl e \<Rightarrow> cont v2 = cont v | Inr u \<Rightarrow> \<exists>c. cont v n = Some c \<and> cont v2 = (cont v)(n \<mapsto> c\<lparr>dk_running := True\<rparr>)"
  proof (rule retry_loop_keeps [where I = "\<lambda>u. cont u = cont v" and env = ?env])
    fix u assume u: "cont u = cont v"
    obtain y u' where y: "dm_start dm n u = (y, u')" by (cases "dm_start dm n u")
    from daemon_start [OF assms(1) y] u y
    show "case re_op ?env u of (Inl e, w') \<Rightarrow> cont w' = cont v
        | (Inr _, w') \<Rightarrow> \<exists>c. cont v n = Some c \<and> cont w' = (cont v)(n \<mapsto> c\<lparr>dk_running := True\<rparr>)"
      by (cases y) (simp_all add: retrying_def)
  qed (use x in \<open>simp_all add: with_retry_def Let_def retrying_def daemon_wait [OF assms(1)]\<close>)
  have e: "e = (case r of Inl e \<Rightarrow> if ae_not_found e then map_option (retry_error_text (''start container '' @ n)) (case x of Inl e \<Rightarrow> Some e | Inr _ \<Rightarrow> None) else Some (ae_text e)
      | Inr info \<Rightarrow> if (case ci_state info of None \<Rightarrow> False | Some k \<Rightarrow> ks_running k) then None
          else map_option (retry_error_text (''start container '' @ n)) (case x of Inl e \<Rightarrow> Some e | Inr _ \<Rightarrow> None))"
    and w': "w' = (case r of Inl e \<Rightarrow> if ae_not_found e then v2 else v
      | Inr info \<Rightarrow> if (case ci_state info of None \<Rightarrow> False | Some k \<Rightarrow> ks_running k) then v else v2)"
    using assms(2) r x by (auto simp: start_container_def container_is_running_def with_retry_err_def split: sum.splits if_splits bool.splits)
  show "e = None \<Longrightarrow> \<exists>c. cont w n = Some c \<and> cont w' = (cont w)(n \<mapsto> c\<lparr>dk_running := True\<rparr>)"
    using e w' run i by (cases r; cases x) (auto split: if_splits option.splits)
  show "e \<noteq> None \<Longrightarrow> cont w' = cont w"
    using e w' run i by (cases r; cases x) (auto split: if_splits)
qed

lemma map_of_put_label: "map_of (put_label k v ls) k' = (if k' = k then Some v else map_of ls k')"
  by (induction ls) (auto simp: put_label_def)

text \<open>The container of a spec is there, with the hash of the spec; the others are as before.\<close>

definition ensured :: "('w \<Rightarrow> string \<rightharpoonup> docker_container) \<Rightarrow> 'w daemon \<Rightarrow> container_spec \<Rightarrow> 'w \<Rightarrow> string \<Rightarrow> 'w \<Rightarrow> bool" where
  "ensured cont dm sp w i w' \<longleftrightarrow>
     (\<exists>c. cont w' = (cont w)(cs_name sp \<mapsto> c) \<and> dk_id c = i \<and>
        map_of (dk_labels c) label_config_hash = Some (config_hash (dm_digest dm) sp))"

definition others_same :: "('w \<Rightarrow> string \<rightharpoonup> docker_container) \<Rightarrow> string \<Rightarrow> 'w \<Rightarrow> 'w \<Rightarrow> bool" where
  "others_same cont n w w' \<longleftrightarrow> (cont w')(n := None) = (cont w)(n := None)"

lemma create_effect:
  assumes ok: "daemon_ok cont dm" and "create_container_from_spec dm sp (config_hash (dm_digest dm) sp) w = (r, w')"
  shows "case r of Inl e \<Rightarrow> others_same cont (cs_name sp) w w' | Inr i \<Rightarrow> ensured cont dm sp w i w'"
proof (cases "build_docker_config (dm_goos dm) (dm_port_ok dm) sp (config_hash (dm_digest dm) sp)")
  case (Inl e)
  with assms(2) show ?thesis by (auto simp: create_container_from_spec_def others_same_def)
next
  case (Inr cfg)
  let ?env = "retrying dm (redacted_create dm sp cfg) (Some (recover_name dm (cs_name sp)))" and ?n = "cs_name sp"
  have labels: "do_labels cfg = put_label label_config_hash (config_hash (dm_digest dm) sp) (cs_labels sp)"
    using Inr by (auto simp: build_docker_config_def split: option.splits)
  obtain x t v where x: "with_retry ?env w = (x, t, v)" by (metis prod_cases3)
  have "case x of Inl e \<Rightarrow> others_same cont ?n w v | Inr i \<Rightarrow> ensured cont dm sp w i v"
  proof (rule retry_loop_keeps [where I = "others_same cont ?n w" and env = ?env])
    fix u assume u: "others_same cont ?n w u"
    obtain y u' where y: "dm_create dm ?n cfg u = (y, u')" by (cases "dm_create dm ?n cfg u")
    show "case re_op ?env u of (Inl e, w') \<Rightarrow> others_same cont ?n w w' | (Inr i, w') \<Rightarrow> ensured cont dm sp w i w'"
    proof (cases y)
      case (Inr i)
      have "(cont u)(?n \<mapsto> c) = (cont w)(?n \<mapsto> c)" for c
        using u unfolding others_same_def by (metis fun_upd_upd)
      then show ?thesis
        using daemon_create(2) [OF ok y Inr] y Inr
        by (auto simp: retrying_def redacted_create_def ensured_def labels map_of_put_label
            intro!: exI [of _ "\<lparr>dk_id = i, dk_labels = do_labels cfg, dk_running = False\<rparr>"])
    next
      case (Inl e)
      then show ?thesis
        using daemon_create(1) [OF ok y Inl] y u
        by (simp add: retrying_def redacted_create_def others_same_def Let_def)
    qed
  next
    fix f cl u assume "re_recover ?env = Some f" and u: "others_same cont ?n w u"
    then have f: "f = recover_name dm ?n" by (simp add: retrying_def)
    obtain y u' where y: "dm_remove dm ?n u = (y, u')" by (cases "dm_remove dm ?n u")
    show "others_same cont ?n w (snd (f cl u))"
      using daemon_remove [OF ok y] u y by (cases y) (auto simp: f recover_name_def others_same_def)
  qed (use x in \<open>simp_all add: with_retry_def Let_def retrying_def daemon_wait [OF ok] others_same_def\<close>)
  then show ?thesis using assms(2) Inr x by (cases x) (auto simp: create_container_from_spec_def)
qed

lemma drifted_effect:
  assumes ok: "daemon_ok cont dm" and same: "others_same cont (cs_name sp) w v"
    and c: "create_container_from_spec dm sp (config_hash (dm_digest dm) sp) v = (r, w')"
  shows "case r of Inl e \<Rightarrow> others_same cont (cs_name sp) w w' | Inr i \<Rightarrow> ensured cont dm sp w i w'"
proof -
  have upd: "(cont v)(cs_name sp \<mapsto> c) = (cont w)(cs_name sp \<mapsto> c)" for c
    using same unfolding others_same_def by (metis fun_upd_upd)
  show ?thesis
    using create_effect [OF ok c] same upd by (cases r) (simp_all add: others_same_def ensured_def)
qed

lemma ensure_container_effect:
  assumes ok: "daemon_ok cont dm" and e: "ensure_container dm sp w = (r, w')"
  shows "case r of Inl e \<Rightarrow> others_same cont (cs_name sp) w w' | Inr i \<Rightarrow> ensured cont dm sp w i w'"
proof (cases "validate_spec sp")
  case (Some x)
  with e show ?thesis by (auto simp: ensure_container_def others_same_def)
next
  case None
  obtain y v where y: "dm_inspect dm (cs_name sp) w = (y, v)" by (cases "dm_inspect dm (cs_name sp) w")
  have v: "others_same cont (cs_name sp) w v"
    using daemon_inspect(1) [OF ok y] by (simp add: others_same_def)
  show ?thesis
  proof (cases y)
    case (Inl x)
    show ?thesis
    proof (cases "is_not_found_like (Some x)")
      case True
      then have "create_container_from_spec dm sp (config_hash (dm_digest dm) sp) v = (r, w')"
        using e None y Inl by (simp add: ensure_container_def Let_def)
      then show ?thesis by (rule drifted_effect [OF ok v])
    next
      case False
      then show ?thesis using e None y Inl v by (auto simp: ensure_container_def Let_def)
    qed
  next
    case (Inr info)
    obtain c where c: "cont w (cs_name sp) = Some c" "ci_id info = dk_id c"
        "case ci_labels info of None \<Rightarrow> True | Some ls \<Rightarrow> ls = dk_labels c"
      using daemon_inspect(3) [OF ok y Inr] by blast
    show ?thesis
    proof (cases "case ci_labels info of None \<Rightarrow> False
        | Some ls \<Rightarrow> map_of ls label_config_hash = Some (config_hash (dm_digest dm) sp)")
      case True
      then have "r = Inr (ci_id info)" "w' = v"
        using e None y Inr by (simp_all add: ensure_container_def Let_def)
      then show ?thesis
        using True c daemon_inspect(1) [OF ok y]
        by (auto simp: ensured_def fun_upd_idem intro!: exI [of _ c] split: option.splits)
    next
      case False
      obtain x v2 where x: "remove_container dm (cs_name sp) v = (x, v2)" by (cases "remove_container dm (cs_name sp) v")
      have v2: "others_same cont (cs_name sp) w v2"
        using remove_container_effect [OF ok x] v by (cases x) (simp_all add: others_same_def)
      show ?thesis
      proof (cases x)
        case NoneX: None
        then have "create_container_from_spec dm sp (config_hash (dm_digest dm) sp) v2 = (r, w')"
          using e None y Inr False x by (simp add: ensure_container_def Let_def)
        then show ?thesis by (rule drifted_effect [OF ok v2])
      next
        case (Some z)
        then show ?thesis using e None y Inr False x v2 by (auto simp: ensure_container_def Let_def)
      qed
    qed
  qed
qed

section \<open>Ensuring is idempotent\<close>

text \<open>Where the daemon answers an inspection, it shows the labels the container has.\<close>

lemma ensured_again:
  assumes "daemon_ok cont dm" "ensured cont dm sp w i v" "validate_spec sp = None"
    and "dm_inspect dm (cs_name sp) v = (Inr info, v')" "ci_labels info \<noteq> None"
  shows "ensure_container dm sp v = (Inr i, v')"
proof -
  obtain c where "cont v (cs_name sp) = Some c" "ci_id info = dk_id c" "ci_labels info = Some (dk_labels c)"
    using daemon_inspect(3) [OF assms(1,4) refl] assms(5) by auto
  with assms(2-4) show ?thesis by (auto simp: ensured_def ensure_container_def)
qed

lemma ensure_container_validates: "ensure_container dm sp w = (Inr i, w') \<Longrightarrow> validate_spec sp = None"
  by (cases "validate_spec sp") (auto simp: ensure_container_def)

section \<open>A daemon in memory, for the examples\<close>

record mem_world =
  mw_containers :: "string \<Rightarrow> docker_container option"
  mw_now :: gtime

definition mem_fail :: "string \<Rightarrow> bool \<Rightarrow> api_error" where
  "mem_fail text missing = \<lparr>ae_text = text, ae_conflict = False, ae_not_found = missing, ae_refused = False, ae_net_refused = False\<rparr>"

definition mem_missing :: api_error where "mem_missing = mem_fail ''No such container'' True"

definition mem_update :: "string \<Rightarrow> (docker_container \<Rightarrow> docker_container option) \<Rightarrow> mem_world \<Rightarrow> (api_error + unit) \<times> mem_world" where
  "mem_update n f w =
     (case mw_containers w n of None \<Rightarrow> (Inl mem_missing, w)
      | Some c \<Rightarrow> (Inr (), w\<lparr>mw_containers := (mw_containers w)(n := f c)\<rparr>))"

definition mem_state :: "docker_container \<Rightarrow> container_state" where
  "mem_state c = \<lparr>ks_status = (if dk_running c then ''running'' else ''created''), ks_running = dk_running c, ks_exit_code = 0,
     ks_health = None\<rparr>"

text \<open>\<open>shows\<close> tells whether inspections carry the state of the container.\<close>

definition mem_daemon :: "bool \<Rightarrow> (canonical_spec \<Rightarrow> string) \<Rightarrow> mem_world daemon" where
  "mem_daemon shows digest =
     \<lparr>dm_inspect = (\<lambda>n w. (case mw_containers w n of None \<Rightarrow> Inl mem_missing
        | Some c \<Rightarrow> Inr \<lparr>ci_id = dk_id c, ci_labels = Some (dk_labels c), ci_has_healthcheck = False,
            ci_state = (if shows then Some (mem_state c) else None)\<rparr>, w)),
      dm_create = (\<lambda>n cfg w. (Inr ''id'', w\<lparr>mw_containers := (mw_containers w)(n \<mapsto>
        \<lparr>dk_id = ''id'', dk_labels = do_labels cfg, dk_running = False\<rparr>)\<rparr>)),
      dm_start = (\<lambda>n. mem_update n (\<lambda>c. Some (c\<lparr>dk_running := True\<rparr>))),
      dm_stop = (\<lambda>n t. mem_update n (\<lambda>c. Some (c\<lparr>dk_running := False\<rparr>))),
      dm_remove = (\<lambda>n. mem_update n (\<lambda>c. None)),
      dm_network_inspect = (\<lambda>n w. (Inr n, w)), dm_network_create = (\<lambda>sp w. (Inr (ns_name sp), w)),
      dm_network_list = (\<lambda>ls w. (Inr [], w)), dm_network_remove = (\<lambda>n w. (Inr (), w)),
      dm_volume_inspect = (\<lambda>n w. (Inr (), w)), dm_volume_create = (\<lambda>sp w. (Inr (), w)),
      dm_volume_list = (\<lambda>ls w. (Inr [], w)), dm_volume_remove = (\<lambda>n w. (Inr (), w)),
      dm_logs = (\<lambda>n w. ([], w)), dm_done = (\<lambda>w. None),
      dm_wait = (\<lambda>d w. (None, w\<lparr>mw_now := mw_now w + d\<rparr>)), dm_now = mw_now, dm_deadline = None,
      dm_goos = ''linux'', dm_port_ok = (\<lambda>p q. True), dm_digest = digest\<rparr>"

lemma mem_missing_simp: "is_not_found_like (Some mem_missing)" "ae_not_found mem_missing"
  by (simp_all add: mem_missing_def mem_fail_def is_not_found_like_def)

lemma mem_daemon_ok: "daemon_ok mw_containers (mem_daemon shows digest)"
proof -
  have "inspect_ok mw_containers (mem_daemon shows digest)"
    by (auto simp: inspect_ok_def mem_daemon_def same_containers_def mem_state_def split: option.splits)
  moreover have "create_ok mw_containers (mem_daemon shows digest)"
    by (auto simp: create_ok_def mem_daemon_def)
  moreover have "start_ok mw_containers (mem_daemon shows digest)" "stop_ok mw_containers (mem_daemon shows digest)"
      "remove_ok mw_containers (mem_daemon shows digest)"
    by (auto simp: start_ok_def stop_ok_def remove_ok_def mem_daemon_def mem_update_def split: option.splits)
  ultimately show ?thesis by (simp add: daemon_ok_def same_containers_def mem_daemon_def)
qed

section \<open>The readiness poll ends\<close>

lemma judge_late: "judge name chk since True k \<noteq> None"
  by (simp add: judge_def)

text \<open>What the poll needs of the SDK and the clock: every inspection that succeeds carries a state, and a wait that is not
  cut short takes the interval.\<close>

definition poll_ok :: "'w daemon \<Rightarrow> string \<Rightarrow> bool" where
  "poll_ok dm name \<longleftrightarrow>
     (\<forall>w info w'. dm_inspect dm name w = (Inr info, w') \<longrightarrow> ci_state info \<noteq> None \<and> dm_now dm w \<le> dm_now dm w') \<and>
     (\<forall>w w'. dm_wait dm health_poll_interval w = (None, w') \<longrightarrow> dm_now dm w + health_poll_interval \<le> dm_now dm w')"

lemma health_poll_interval_pos: "0 < health_poll_interval"
  by (simp add: health_poll_interval_def millisecond_def)

text \<open>One turn of the poll: it ends, or the wait went by and the poll goes on.\<close>

lemma poll_turn:
  assumes ok: "poll_ok dm name"
  shows "(\<exists>r. \<forall>n. wait_ready_loop (Suc n) dm name deadline started chk w = Some r) \<or>
     (\<exists>chk' u. dm_now dm w + health_poll_interval \<le> dm_now dm u \<and> dm_now dm w \<le> deadline \<and>
        (\<forall>n. wait_ready_loop (Suc n) dm name deadline started chk w = wait_ready_loop n dm name deadline started chk' u))"
proof (cases "dm_done dm w")
  case None
  obtain y v where y: "dm_inspect dm name w = (y, v)" by (cases "dm_inspect dm name w")
  show ?thesis
  proof (cases y)
    case (Inr info)
    then obtain k where k: "ci_state info = Some k" and t: "dm_now dm w \<le> dm_now dm v"
      using ok y unfolding poll_ok_def by blast
    let ?chk = "chk \<or> ci_labels info \<noteq> None \<and> ci_has_healthcheck info"
    obtain z u where z: "dm_wait dm health_poll_interval v = (z, u)" by (cases "dm_wait dm health_poll_interval v")
    show ?thesis
    proof (cases "judge name ?chk (time_sub (dm_now dm v) started) (deadline < dm_now dm v) k")
      case NoneJ: None
      then have d: "dm_now dm v \<le> deadline" using judge_late by (metis not_le)
      show ?thesis
      proof (cases z)
        case NoneZ: None
        then have "dm_now dm v + health_poll_interval \<le> dm_now dm u" using ok z unfolding poll_ok_def by blast
        then show ?thesis using None y Inr k NoneJ z NoneZ t d by (intro disjI2 exI [of _ ?chk] exI [of _ u]) (simp add: Let_def)
      qed (use None y Inr k NoneJ z in \<open>simp add: Let_def\<close>)
    next
      case (Some j)
      then show ?thesis using None y Inr k by (cases j) (simp_all add: Let_def)
    qed
  qed (use None y in simp)
qed simp

lemma poll_ends:
  assumes ok: "poll_ok dm name"
  shows "deadline < dm_now dm w + int fuel * health_poll_interval \<Longrightarrow>
    \<exists>r. wait_ready_loop (Suc fuel) dm name deadline started chk w = Some r"
proof (induction fuel arbitrary: w chk)
  case 0
  then show ?case using poll_turn [OF ok, of deadline started chk w] by auto
next
  case (Suc fuel)
  from poll_turn [OF ok, of deadline started chk w] show ?case
  proof (elim disjE exE conjE)
    fix chk' u
    assume t: "dm_now dm w + health_poll_interval \<le> dm_now dm u"
      and n: "\<forall>n. wait_ready_loop (Suc n) dm name deadline started chk w = wait_ready_loop n dm name deadline started chk' u"
    have "\<exists>r. wait_ready_loop (Suc fuel) dm name deadline started chk' u = Some r"
      by (rule Suc.IH) (use Suc.prems t in \<open>simp add: algebra_simps\<close>)
    then show ?thesis using n by metis
  qed metis
qed

definition poll_fuel :: "gtime \<Rightarrow> gtime \<Rightarrow> nat" where
  "poll_fuel deadline now = Suc (nat ((deadline - now) div health_poll_interval + 1))"

lemma poll_fuel_enough: "deadline < now + int (nat ((deadline - now) div health_poll_interval + 1)) * health_poll_interval"
proof -
  define q where "q = (deadline - now) div health_poll_interval"
  define m where "m = (deadline - now) mod health_poll_interval"
  have "deadline - now = q * health_poll_interval + m" by (simp add: q_def m_def)
  moreover have "m < health_poll_interval" unfolding m_def by (rule pos_mod_bound [OF health_poll_interval_pos])
  moreover have "(q + 1) * health_poll_interval \<le> int (nat (q + 1)) * health_poll_interval"
    using health_poll_interval_pos by (intro mult_right_mono) simp_all
  ultimately show ?thesis unfolding q_def [symmetric] by (simp add: algebra_simps)
qed

text \<open>C26. The readiness poll ends: with a clock that moves and inspections that carry a state, it decides within one
  inspection per interval up to the deadline, whatever the container does.\<close>

theorem wait_ready_ends:
  assumes "poll_ok dm name"
  shows "\<exists>r w'. wait_ready (poll_fuel (dm_now dm w + scale timeout) (dm_now dm w)) dm scale name timeout w = Some (r, w')"
proof -
  let ?d = "dm_now dm w + scale timeout"
  define d where "d = (case dm_deadline dm of None \<Rightarrow> ?d | Some d2 \<Rightarrow> if d2 < ?d then d2 else ?d)"
  have "d \<le> ?d" by (auto simp: d_def split: option.split)
  then have "d < dm_now dm w + int (nat ((?d - dm_now dm w) div health_poll_interval + 1)) * health_poll_interval"
    using poll_fuel_enough [of ?d "dm_now dm w"] by simp
  from poll_ends [OF assms this] show ?thesis
    unfolding wait_ready_def Let_def d_def [symmetric] poll_fuel_def by fast
qed

lemma wait_ready_ends_witness:
  "\<exists>r w'. wait_ready (poll_fuel 500000000 0) (mem_daemon True ca_image) (\<lambda>d. d) ''web'' 500000000
     \<lparr>mw_containers = Map.empty, mw_now = 0\<rparr> = Some (r, w')"
proof -
  have "poll_ok (mem_daemon True ca_image) ''web''"
    by (auto simp: poll_ok_def mem_daemon_def split: option.splits)
  from wait_ready_ends [OF this, of "\<lparr>mw_containers = Map.empty, mw_now = 0\<rparr>" "\<lambda>d. d" 500000000]
  show ?thesis by (simp add: mem_daemon_def)
qed

text \<open>An inspection without a state keeps the poll going past its deadline: that branch never looks at the deadline, so
  no number of inspections ends it.\<close>

theorem wait_ready_without_state_runs_on:
  "wait_ready fuel (mem_daemon False ca_image) scale ''web'' timeout
     \<lparr>mw_containers = [''web'' \<mapsto> \<lparr>dk_id = ''id'', dk_labels = [], dk_running = True\<rparr>], mw_now = now\<rparr> = None"
proof -
  have "wait_ready_loop fuel (mem_daemon False ca_image) ''web'' d t b
     \<lparr>mw_containers = [''web'' \<mapsto> \<lparr>dk_id = ''id'', dk_labels = [], dk_running = True\<rparr>], mw_now = now\<rparr> = None" for d t b
    by (induction fuel arbitrary: b now) (simp_all add: mem_daemon_def)
  then show ?thesis by (simp add: wait_ready_def Let_def)
qed

text \<open>C23. Ensuring a container leaves every other container as it was. When it succeeds the container is there with the
  hash of its spec, and ensuring it again, when the daemon answers, returns the same container and changes nothing.\<close>

theorem ensure_container_converges:
  assumes "daemon_ok cont dm" "ensure_container dm sp w = (r, w')"
  shows "(cont w')(cs_name sp := None) = (cont w)(cs_name sp := None) \<and>
    (\<forall>i. r = Inr i \<longrightarrow>
       (\<exists>c. cont w' (cs_name sp) = Some c \<and> dk_id c = i \<and>
          map_of (dk_labels c) label_config_hash = Some (config_hash (dm_digest dm) sp)) \<and>
       (\<forall>info v. dm_inspect dm (cs_name sp) w' = (Inr info, v) \<and> ci_labels info \<noteq> None \<longrightarrow>
          ensure_container dm sp w' = (Inr i, v) \<and> cont v = cont w'))"
proof (cases r)
  case (Inl e)
  then show ?thesis using ensure_container_effect [OF assms] by (simp add: others_same_def)
next
  case (Inr i)
  have e: "ensured cont dm sp w i w'" using ensure_container_effect [OF assms] Inr by simp
  then have "\<exists>c. cont w' = (cont w)(cs_name sp \<mapsto> c) \<and> dk_id c = i \<and>
      map_of (dk_labels c) label_config_hash = Some (config_hash (dm_digest dm) sp)"
    by (simp add: ensured_def)
  moreover have "validate_spec sp = None" using ensure_container_validates assms(2) Inr by metis
  note ensured_again [OF assms(1) e this]
  ultimately show ?thesis using Inr daemon_inspect(1) [OF assms(1)] by fastforce
qed

lemma ensure_container_converges_witness:
  "\<exists>w'. ensure_container (mem_daemon True ca_image) (base_spec ''web'' ''nginx'' []) \<lparr>mw_containers = Map.empty, mw_now = 0\<rparr> = (Inr ''id'', w') \<and>
     (\<exists>c. mw_containers w' ''web'' = Some c \<and> dk_id c = ''id'')"
proof -
  let ?sp = "base_spec ''web'' ''nginx'' []" and ?w = "\<lparr>mw_containers = Map.empty, mw_now = 0\<rparr>"
  obtain r w' where e: "ensure_container (mem_daemon True ca_image) ?sp ?w = (r, w')" by (cases "ensure_container (mem_daemon True ca_image) ?sp ?w")
  have "fst (ensure_container (mem_daemon True ca_image) ?sp ?w) = Inr ''id''" by code_simp
  with e have "r = Inr ''id''" by simp
  with ensure_container_converges [OF mem_daemon_ok e] e show ?thesis by (auto simp: base_spec_def)
qed

end
