(* ===== verification/Site_Steps.thy ===== *)
theory Site_Steps
  imports Docker_Engine Orch
begin

text \<open>
  The container steps of \<^verbatim>\<open>internal/sites/sitesteps/sitesteps.go\<close>. A step starts one goroutine per container in an
  \<^verbatim>\<open>errgroup\<close>: here every goroutine is the list of engine calls it still has to make, and a schedule says which goroutine
  makes its next call; the group keeps the first error and its context is cancelled from then on. What the steps need of
  the engine is the locale \<open>container_runtime\<close>; its lemmas hold for every schedule. The engine above the Docker SDK
  keeps the contract (\<open>docker_runtime_ok\<close>), and so does the engine in memory of \<^verbatim>\<open>docker/fake\<close>, in its own theory.
\<close>

section \<open>The engine the steps see\<close>

text \<open>The container operations of the \<^verbatim>\<open>Engine\<close> interface; the flag tells whether the context they get is cancelled.\<close>

record 'w runtime =
  rt_ensure :: "bool \<Rightarrow> container_spec \<Rightarrow> 'w \<Rightarrow> (go_error + string) \<times> 'w"
  rt_start :: "bool \<Rightarrow> string \<Rightarrow> 'w \<Rightarrow> go_error option \<times> 'w"
  rt_stop :: "bool \<Rightarrow> string \<Rightarrow> duration \<Rightarrow> 'w \<Rightarrow> go_error option \<times> 'w"
  rt_remove :: "bool \<Rightarrow> string \<Rightarrow> 'w \<Rightarrow> go_error option \<times> 'w"
  rt_pull :: "bool \<Rightarrow> string \<Rightarrow> 'w \<Rightarrow> go_error option \<times> 'w"
  rt_wait_ready :: "bool \<Rightarrow> string \<Rightarrow> duration \<Rightarrow> 'w \<Rightarrow> go_error option \<times> 'w"

text \<open>What a goroutine of the steps does next; \<open>Discard\<close> is the removal of a rollback, whose error is only logged.\<close>

datatype call = Ensure container_spec | Start string | Stop string | Remove string | Discard string | Pull string
  | Await string duration

definition stop_grace :: duration where "stop_grace = 10 * second"
definition ready_timeout_db :: duration where "ready_timeout_db = 120 * second"
definition ready_timeout_other :: duration where "ready_timeout_other = 60 * second"

definition labelled :: "string \<Rightarrow> go_error option \<times> 'w \<Rightarrow> go_error option \<times> 'w" where
  "labelled what r = (case r of (e, w) \<Rightarrow> (map_option (\<lambda>t. what @ '': '' @ t) e, w))"

fun perform :: "'w runtime \<Rightarrow> bool \<Rightarrow> call \<Rightarrow> 'w \<Rightarrow> go_error option \<times> 'w" where
  "perform rt c (Ensure sp) w =
     labelled (''ensure '' @ cs_name sp)
       (case rt_ensure rt c sp w of (Inl e, w') \<Rightarrow> (Some e, w') | (Inr i, w') \<Rightarrow> (None, w'))"
| "perform rt c (Start n) w = labelled (''start '' @ n) (rt_start rt c n w)"
| "perform rt c (Stop n) w = labelled (''stop '' @ n) (rt_stop rt c n stop_grace w)"
| "perform rt c (Remove n) w = labelled (''remove '' @ n) (rt_remove rt c n w)"
| "perform rt c (Discard n) w = (None, snd (rt_remove rt c n w))"
| "perform rt c (Pull ref) w = labelled (''pull '' @ ref) (rt_pull rt c ref w)"
| "perform rt c (Await n t) w = rt_wait_ready rt c n t w"

section \<open>Groups of goroutines\<close>

type_synonym 'w group = "call list list \<times> go_error option \<times> 'w"

definition group_turn :: "'w runtime \<Rightarrow> nat \<Rightarrow> 'w group \<Rightarrow> 'w group" where
  "group_turn rt i g =
     (case g of (gs, err, w) \<Rightarrow>
        if i < length gs
        then (case gs ! i of
                [] \<Rightarrow> g
              | k # ks \<Rightarrow>
                  (case perform rt (err \<noteq> None) k w of
                     (None, w') \<Rightarrow> (gs[i := ks], err, w')
                   | (Some e, w') \<Rightarrow> (gs[i := []], if err = None then Some e else err, w')))
        else g)"

text \<open>A schedule is followed as far as it goes; then the goroutines left are run to their end one after the other.\<close>

definition finishing_turns :: "call list list \<Rightarrow> nat list" where
  "finishing_turns gs = concat (map (\<lambda>i. replicate (length (gs ! i)) i) [0..<length gs])"

definition group_wait :: "'w runtime \<Rightarrow> nat list \<Rightarrow> call list list \<Rightarrow> 'w \<Rightarrow> go_error option \<times> 'w" where
  "group_wait rt sched gs w = snd (fold (group_turn rt) (sched @ finishing_turns gs) (gs, None, w))"

lemma group_turn_length: "length (fst (group_turn rt i g)) = length (fst g)"
  by (cases g) (auto simp: group_turn_def split: list.split prod.split option.split)

lemma group_turn_todo:
  "j < length (fst g) \<Longrightarrow> length (fst (group_turn rt i g) ! j) \<le> length (fst g ! j) - (if i = j then 1 else 0)"
  by (cases g) (auto simp: group_turn_def nth_list_update split: list.split prod.split option.split)

lemma turns_todo:
  "j < length (fst g) \<Longrightarrow> length (fst (fold (group_turn rt) is g) ! j) \<le> length (fst g ! j) - count_list is j"
proof (induction "is" arbitrary: g)
  case (Cons i "is")
  have "length (fst (fold (group_turn rt) is (group_turn rt i g)) ! j)
      \<le> length (fst (group_turn rt i g) ! j) - count_list is j"
    by (rule Cons.IH) (simp add: group_turn_length Cons.prems)
  also have "\<dots> \<le> length (fst g ! j) - (if i = j then 1 else 0) - count_list is j"
    using group_turn_todo [OF Cons.prems, of rt i] by simp
  finally show ?case by auto
qed simp

lemma turns_length: "length (fst (fold (group_turn rt) is g)) = length (fst g)"
  by (induction "is" arbitrary: g) (simp_all add: group_turn_length)

lemma count_finishing: "j < length gs \<Longrightarrow> count_list (finishing_turns gs) j = length (gs ! j)"
proof -
  have "count_list (concat (map (\<lambda>i. replicate (length (gs ! i)) i) [0..<n])) j = (if j < n then length (gs ! j) else 0)" for n
  proof (induction n)
    case (Suc n)
    have "count_list (replicate m n) j = (if j = n then m else 0)" for m by (induction m) auto
    with Suc show ?case by auto
  qed simp
  then show "j < length gs \<Longrightarrow> count_list (finishing_turns gs) j = length (gs ! j)"
    by (simp add: finishing_turns_def)
qed

text \<open>Waiting for the group waits for every goroutine.\<close>

lemma all_finished:
  assumes "i < length gs"
  shows "fst (fold (group_turn rt) (sched @ finishing_turns gs) (gs, None, w)) ! i = []"
  using turns_todo [of i "(gs, None, w)" rt "sched @ finishing_turns gs"] assms count_finishing [of i gs]
  by simp

text \<open>The goroutines of the steps; images are pulled once each, in the order of their first use.\<close>

definition create_group :: "container_spec list \<Rightarrow> call list list" where
  "create_group specs = map (\<lambda>sp. [Ensure sp, Start (cs_name sp)]) specs"

definition discard_group :: "container_spec list \<Rightarrow> call list list" where
  "discard_group specs = map (\<lambda>sp. [Discard (cs_name sp)]) specs"

definition stop_group :: "string list \<Rightarrow> call list list" where
  "stop_group ns = map (\<lambda>n. [Stop n]) ns"

definition remove_group :: "string list \<Rightarrow> call list list" where
  "remove_group ns = map (\<lambda>n. [Remove n]) ns"

definition pull_group :: "container_spec list \<Rightarrow> call list list" where
  "pull_group specs = map (\<lambda>r. [Pull r]) (rev (remdups (rev (map cs_image specs))))"

definition wait_group :: "(string \<rightharpoonup> duration) \<Rightarrow> string list \<Rightarrow> call list list" where
  "wait_group timeouts ns = map (\<lambda>n. [Await n (case timeouts n of None \<Rightarrow> ready_timeout_other | Some t \<Rightarrow> t)]) ns"

lemmas group_defs = create_group_def discard_group_def stop_group_def remove_group_def

section \<open>The contract of the engine\<close>

text \<open>\<open>view\<close> is what matters of the containers: the hash they were made from and whether they run.\<close>

locale container_runtime =
  fixes view :: "'w \<Rightarrow> string \<Rightarrow> (string option \<times> bool) option"
    and hash :: "container_spec \<Rightarrow> string"
    and rt :: "'w runtime"
  assumes ensure_ok: "rt_ensure rt c sp w = (Inr i, w') \<Longrightarrow> \<exists>b. view w' = (view w)(cs_name sp \<mapsto> (Some (hash sp), b))"
    and ensure_err: "rt_ensure rt c sp w = (Inl e, w') \<Longrightarrow> (view w')(cs_name sp := None) = (view w)(cs_name sp := None)"
    and start_ok: "rt_start rt c n w = (None, w') \<Longrightarrow> \<exists>h b. view w n = Some (h, b) \<and> view w' = (view w)(n \<mapsto> (h, True))"
    and start_err: "rt_start rt c n w = (Some e, w') \<Longrightarrow> view w' = view w"
    and stop_ok: "rt_stop rt c n t w = (None, w') \<Longrightarrow> view w' = (view w)(n := map_option (\<lambda>(h, b). (h, False)) (view w n))"
    and stop_err: "rt_stop rt c n t w = (Some e, w') \<Longrightarrow> view w' = view w"
    and remove_ok: "rt_remove rt c n w = (None, w') \<Longrightarrow> view w' = (view w)(n := None)"
    and remove_err: "rt_remove rt c n w = (Some e, w') \<Longrightarrow> view w' = view w"
    and pull_view: "view (snd (rt_pull rt c n w)) = view w"
    and wait_view: "view (snd (rt_wait_ready rt c n t w)) = view w"

fun call_name :: "call \<Rightarrow> string" where
  "call_name (Ensure sp) = cs_name sp" | "call_name (Start n) = n" | "call_name (Stop n) = n"
| "call_name (Remove n) = n" | "call_name (Discard n) = n" | "call_name (Pull n) = n" | "call_name (Await n t) = n"

fun quiet_call :: "call \<Rightarrow> bool" where
  "quiet_call (Pull n) = True" | "quiet_call (Await n t) = True" | "quiet_call _ = False"

lemma labelled_eq: "labelled what r = (e, w') \<longleftrightarrow> (\<exists>f. r = (f, w') \<and> e = map_option (\<lambda>t. what @ '': '' @ t) f)"
  by (cases r) (auto simp: labelled_def)

context container_runtime begin

text \<open>A call changes at most the container it names.\<close>

lemma perform_others:
  assumes "perform rt c k w = (r, w')" "n \<noteq> call_name k"
  shows "view w' n = view w n"
proof (cases k)
  case (Ensure sp)
  obtain x v where x: "rt_ensure rt c sp w = (x, v)" by (cases "rt_ensure rt c sp w")
  then have "v = w'" using assms(1) Ensure by (cases x) (auto simp: labelled_eq)
  then show ?thesis
    using x ensure_ok [of c sp w] ensure_err [of c sp w] assms(2) Ensure by (cases x) (fastforce dest: fun_cong [of _ _ n])+
next
  case (Start m)
  then show ?thesis using assms start_ok [of c m w] start_err [of c m w] by (cases r) (fastforce simp: labelled_eq)+
next
  case (Stop m)
  then show ?thesis using assms stop_ok [of c m stop_grace w] stop_err [of c m stop_grace w]
    by (cases r) (fastforce simp: labelled_eq)+
next
  case (Remove m)
  then show ?thesis using assms remove_ok [of c m w] remove_err [of c m w] by (cases r) (fastforce simp: labelled_eq)+
next
  case (Discard m)
  obtain x v where x: "rt_remove rt c m w = (x, v)" by (cases "rt_remove rt c m w")
  then show ?thesis using assms Discard remove_ok [of c m w] remove_err [of c m w] by (cases x) auto
next
  case (Pull m)
  then show ?thesis using assms pull_view [of c m w] by (auto simp: labelled_eq)
next
  case (Await m t)
  then show ?thesis using assms wait_view [of c m t w] by auto
qed

text \<open>
  Reasoning about one goroutine at a time: goroutine \<open>i\<close> only names the container \<open>ns ! i\<close>, and \<open>P i ks ok v\<close> relates the
  calls it has left, the absence of an error and the state of that container.
\<close>

definition locally :: "(nat \<Rightarrow> call list \<Rightarrow> bool \<Rightarrow> (string option \<times> bool) option \<Rightarrow> bool) \<Rightarrow> string list \<Rightarrow> 'w \<Rightarrow> 'w group \<Rightarrow> bool" where
  "locally P ns w0 g \<longleftrightarrow>
     (case g of (gs, err, w) \<Rightarrow>
        length gs = length ns \<and>
        (\<forall>i<length ns. (\<forall>k\<in>set (gs ! i). call_name k = ns ! i) \<and> P i (gs ! i) (err = None) (view w (ns ! i))) \<and>
        (\<forall>n. n \<notin> set ns \<longrightarrow> view w n = view w0 n))"

lemma locally_turn:
  assumes ns: "distinct ns" and g: "locally P ns w0 g"
    and weak: "\<And>i ks v. P i ks True v \<Longrightarrow> P i ks False v"
    and ok: "\<And>i k ks c w w' b. P i (k # ks) b (view w (ns ! i)) \<Longrightarrow> call_name k = ns ! i \<Longrightarrow> perform rt c k w = (None, w')
      \<Longrightarrow> P i ks b (view w' (ns ! i))"
    and err: "\<And>i k ks c w w' e b. P i (k # ks) b (view w (ns ! i)) \<Longrightarrow> call_name k = ns ! i \<Longrightarrow> perform rt c k w = (Some e, w')
      \<Longrightarrow> P i [] False (view w' (ns ! i))"
  shows "locally P ns w0 (group_turn rt i g)"
proof -
  obtain gs er w where g': "g = (gs, er, w)" by (cases g)
  have len: "length gs = length ns" and names: "\<And>j. j < length ns \<Longrightarrow> \<forall>k\<in>set (gs ! j). call_name k = ns ! j"
    and P: "\<And>j. j < length ns \<Longrightarrow> P j (gs ! j) (er = None) (view w (ns ! j))"
    and oth: "\<And>n. n \<notin> set ns \<Longrightarrow> view w n = view w0 n"
    using g by (auto simp: locally_def g')
  show ?thesis
  proof (cases "i < length gs \<and> gs ! i \<noteq> []")
    case True
    then obtain k ks where k: "gs ! i = k # ks" and i: "i < length ns" using len by (auto simp: neq_Nil_conv)
    obtain r w' where p: "perform rt (er \<noteq> None) k w = (r, w')" by (cases "perform rt (er \<noteq> None) k w")
    have kn: "call_name k = ns ! i" using names [OF i] k by simp
    have other: "\<And>n. n \<noteq> ns ! i \<Longrightarrow> view w' n = view w n" using perform_others [OF p] kn by simp
    have Pi: "P i (k # ks) (er = None) (view w (ns ! i))" using P [OF i] k by simp
    have apart: "\<And>j. j < length ns \<Longrightarrow> j \<noteq> i \<Longrightarrow> view w' (ns ! j) = view w (ns ! j)"
      using other ns i by (metis nth_eq_iff_index_eq)
    have keep: "P j (gs ! j) b (view w' (ns ! j))" if j: "j < length ns" "j \<noteq> i" and b: "b \<Longrightarrow> er = None" for j b
    proof -
      have p: "P j (gs ! j) (er = None) (view w' (ns ! j))" using P [OF j(1)] apart [OF j] by simp
      show ?thesis
      proof (cases b)
        case True
        with p b show ?thesis by simp
      next
        case False
        with p weak show ?thesis by (cases "er = None") simp_all
      qed
    qed
    have outside: "\<And>n. n \<notin> set ns \<Longrightarrow> view w' n = view w0 n" using other oth i by (metis nth_mem)
    show ?thesis
    proof (cases r)
      case None
      then have "group_turn rt i g = (gs[i := ks], er, w')" using True k p by (simp add: group_turn_def g')
      moreover have "P i ks (er = None) (view w' (ns ! i))" using ok [OF Pi kn] p None by simp
      ultimately show ?thesis
        using len names keep [where b = "er = None"] outside k i by (auto simp: locally_def nth_list_update)
    next
      case (Some e)
      then have "group_turn rt i g = (gs[i := []], if er = None then Some e else er, w')" using True k p by (simp add: group_turn_def g')
      moreover have "P i [] False (view w' (ns ! i))" using err [OF Pi kn] p Some by simp
      moreover have "((if er = None then Some e else er) = None) = False" by simp
      ultimately show ?thesis
        using len names keep [where b = False] outside i by (auto simp: locally_def nth_list_update)
    qed
  next
    case False
    then have "group_turn rt i g = g" by (auto simp: group_turn_def g' split: list.split)
    then show ?thesis using g by simp
  qed
qed

lemma group_locally:
  assumes "distinct ns" "length gs = length ns" "group_wait rt sched gs w0 = (er, w')"
    and start: "\<And>i. i < length ns \<Longrightarrow> (\<forall>k\<in>set (gs ! i). call_name k = ns ! i) \<and> P i (gs ! i) True (view w0 (ns ! i))"
    and rules: "\<And>i ks v. P i ks True v \<Longrightarrow> P i ks False v"
      "\<And>i k ks c w w' b. P i (k # ks) b (view w (ns ! i)) \<Longrightarrow> call_name k = ns ! i \<Longrightarrow> perform rt c k w = (None, w')
        \<Longrightarrow> P i ks b (view w' (ns ! i))"
      "\<And>i k ks c w w' e b. P i (k # ks) b (view w (ns ! i)) \<Longrightarrow> call_name k = ns ! i \<Longrightarrow> perform rt c k w = (Some e, w')
        \<Longrightarrow> P i [] False (view w' (ns ! i))"
  shows "(\<forall>i<length ns. P i [] (er = None) (view w' (ns ! i))) \<and> (\<forall>n. n \<notin> set ns \<longrightarrow> view w' n = view w0 n)"
proof -
  let ?is = "sched @ finishing_turns gs"
  have "locally P ns w0 (fold (group_turn rt) is (gs, None, w0))" for "is"
  proof (induction "is" rule: rev_induct)
    case Nil
    then show ?case using assms(2) start by (simp add: locally_def)
  next
    case (snoc i "is")
    then show ?case using locally_turn [OF assms(1) snoc rules] by simp
  qed
  then have loc: "locally P ns w0 (fold (group_turn rt) ?is (gs, None, w0))" .
  obtain gs' where f: "fold (group_turn rt) ?is (gs, None, w0) = (gs', er, w')"
    using assms(3) unfolding group_wait_def by (metis prod.collapse snd_conv)
  have "gs' ! i = []" if "i < length ns" for i using all_finished [of i gs rt sched w0] f that assms(2) by simp
  then show ?thesis using loc unfolding f locally_def by auto
qed

lemma created:
  assumes "distinct (map cs_name specs)" "group_wait rt sched (create_group specs) w = (er, w')"
  shows "(er = None \<longrightarrow> (\<forall>sp\<in>set specs. view w' (cs_name sp) = Some (Some (hash sp), True))) \<and>
    (\<forall>n. n \<notin> cs_name ` set specs \<longrightarrow> view w' n = view w n)"
proof -
  let ?ns = "map cs_name specs"
  define P where "P i ks ok v \<longleftrightarrow> i < length specs \<longrightarrow>
      ks = [Ensure (specs ! i), Start (?ns ! i)] \<or> ks = [Start (?ns ! i)] \<and> (\<exists>b. v = Some (Some (hash (specs ! i)), b)) \<or>
      ks = [] \<and> (ok \<longrightarrow> v = Some (Some (hash (specs ! i)), True))" for i ks ok and v :: "(string option \<times> bool) option"
  have "(\<forall>i<length ?ns. P i [] (er = None) (view w' (?ns ! i))) \<and> (\<forall>n. n \<notin> set ?ns \<longrightarrow> view w' n = view w n)"
  proof (rule group_locally [OF assms(1) _ assms(2)])
    fix i k ks c v v' b
    assume p: "P i (k # ks) b (view v (?ns ! i))" "perform rt c k v = (None, v')"
    show "P i ks b (view v' (?ns ! i))"
      unfolding P_def
    proof
      assume i: "i < length specs"
      with p(1) consider "k = Ensure (specs ! i)" "ks = [Start (?ns ! i)]"
        | h where "k = Start (?ns ! i)" "ks = []" "view v (?ns ! i) = Some (Some (hash (specs ! i)), h)"
        by (auto simp: P_def)
      then show "ks = [Ensure (specs ! i), Start (?ns ! i)] \<or>
          ks = [Start (?ns ! i)] \<and> (\<exists>b. view v' (?ns ! i) = Some (Some (hash (specs ! i)), b)) \<or>
          ks = [] \<and> (b \<longrightarrow> view v' (?ns ! i) = Some (Some (hash (specs ! i)), True))"
      proof cases
        case 1
        obtain x u where x: "rt_ensure rt c (specs ! i) v = (x, u)" by (cases "rt_ensure rt c (specs ! i) v")
        then obtain j where "x = Inr j" "u = v'" using p(2) 1 by (cases x) (auto simp: labelled_eq)
        then show ?thesis using ensure_ok [of c "specs ! i" v j v'] x 1 i by auto
      next
        case 2
        then have "rt_start rt c (?ns ! i) v = (None, v')" using p(2) by (auto simp: labelled_eq)
        from start_ok [OF this] 2 show ?thesis by auto
      qed
    qed
  qed (auto simp: P_def create_group_def)
  then show ?thesis by (auto simp: P_def in_set_conv_nth)
qed

lemma stopped:
  assumes "distinct ns" "group_wait rt sched (stop_group ns) w = (er, w')"
  shows "(er = None \<longrightarrow> (\<forall>n\<in>set ns. view w' n = map_option (\<lambda>(h, b). (h, False)) (view w n))) \<and>
    (\<forall>n. n \<notin> set ns \<longrightarrow> view w' n = view w n)"
proof -
  define P where "P i ks ok v \<longleftrightarrow> i < length ns \<longrightarrow> ks = [Stop (ns ! i)] \<and> v = view w (ns ! i) \<or>
      ks = [] \<and> (ok \<longrightarrow> v = map_option (\<lambda>(h, b). (h, False)) (view w (ns ! i)))" for i ks ok v
  have "(\<forall>i<length ns. P i [] (er = None) (view w' (ns ! i))) \<and> (\<forall>n. n \<notin> set ns \<longrightarrow> view w' n = view w n)"
  proof (rule group_locally [OF assms(1) _ assms(2)])
    fix i k ks c v v' b
    assume p: "P i (k # ks) b (view v (ns ! i))" "perform rt c k v = (None, v')"
    show "P i ks b (view v' (ns ! i))"
      using p stop_ok [of c "ns ! i" stop_grace v v'] by (auto simp: P_def labelled_eq)
  qed (auto simp: P_def stop_group_def)
  then show ?thesis by (auto simp: P_def in_set_conv_nth)
qed

lemma removed:
  assumes "distinct ns" "group_wait rt sched (remove_group ns) w = (er, w')"
  shows "(er = None \<longrightarrow> (\<forall>n\<in>set ns. view w' n = None)) \<and> (\<forall>n. n \<notin> set ns \<longrightarrow> view w' n = view w n)"
proof -
  define P where "P i ks ok v \<longleftrightarrow> i < length ns \<longrightarrow> ks = [Remove (ns ! i)] \<or> ks = [] \<and> (ok \<longrightarrow> v = None)"
    for i ks ok and v :: "(string option \<times> bool) option"
  have "(\<forall>i<length ns. P i [] (er = None) (view w' (ns ! i))) \<and> (\<forall>n. n \<notin> set ns \<longrightarrow> view w' n = view w n)"
  proof (rule group_locally [OF assms(1) _ assms(2)])
    fix i k ks c v v' b
    assume p: "P i (k # ks) b (view v (ns ! i))" "perform rt c k v = (None, v')"
    show "P i ks b (view v' (ns ! i))"
      using p remove_ok [of c "ns ! i" v v'] by (auto simp: P_def labelled_eq)
  qed (auto simp: P_def remove_group_def)
  then show ?thesis by (auto simp: P_def in_set_conv_nth)
qed

text \<open>A group whose calls leave the containers alone leaves them alone.\<close>

lemma perform_quiet: "quiet_call k \<Longrightarrow> view (snd (perform rt c k w)) = view w"
  by (cases k) (simp_all add: labelled_def pull_view wait_view split_beta)

lemma turn_quiet:
  assumes "\<forall>ks\<in>set (fst g). list_all quiet_call ks"
  shows "view (snd (snd (group_turn rt i g))) = view (snd (snd g)) \<and> (\<forall>ks\<in>set (fst (group_turn rt i g)). list_all quiet_call ks)"
proof -
  obtain gs e v where g: "g = (gs, e, v)" by (metis prod_cases3)
  show ?thesis
  proof (cases "i < length gs \<and> gs ! i \<noteq> []")
    case True
    then obtain k ks where k: "gs ! i = k # ks" by (auto simp: neq_Nil_conv)
    obtain r u where p: "perform rt (e \<noteq> None) k v = (r, u)" by (cases "perform rt (e \<noteq> None) k v")
    have q: "quiet_call k" "list_all quiet_call ks" using assms True k g nth_mem by fastforce+
    have u: "view u = view v" using perform_quiet [OF q(1), of "e \<noteq> None" v] p by simp
    have upd: "\<forall>ks'\<in>set (gs[i := xs]). list_all quiet_call ks'" if "list_all quiet_call xs" for xs
      using assms g that set_update_subset_insert [of gs i xs] by fastforce
    show ?thesis using True k p u upd [OF q(2)] upd [of "[]"] by (cases r) (simp_all add: group_turn_def g)
  next
    case False
    then show ?thesis using assms by (auto simp: group_turn_def g split: list.split)
  qed
qed

lemma group_frame:
  assumes "\<forall>ks\<in>set gss. list_all quiet_call ks" and "group_wait rt sched gss w = (er, w')"
  shows "view w' = view w"
proof -
  have "view (snd (snd (fold (group_turn rt) is (gss, None, w)))) = view w \<and>
      (\<forall>ks\<in>set (fst (fold (group_turn rt) is (gss, None, w))). list_all quiet_call ks)" for "is"
  proof (induction "is" rule: rev_induct)
    case (snoc i "is")
    then show ?case using turn_quiet [of "fold (group_turn rt) is (gss, None, w)" i] by simp
  qed (use assms(1) in simp)
  then show ?thesis using assms(2) unfolding group_wait_def by (metis snd_conv)
qed

lemma pulled: "group_wait rt sched (pull_group specs) w = (er, w') \<Longrightarrow> view w' = view w"
  by (rule group_frame) (auto simp: pull_group_def)

lemma awaited: "group_wait rt sched (wait_group ts ns) w = (er, w') \<Longrightarrow> view w' = view w"
  by (rule group_frame) (auto simp: wait_group_def)

end

section \<open>Groups of an engine that works\<close>

definition succeeds :: "('w \<Rightarrow> go_error option \<times> 'w) \<Rightarrow> bool" where
  "succeeds f \<longleftrightarrow> (\<forall>w. fst (f w) = None)"

lemma succeeds_labelled: "succeeds f \<Longrightarrow> succeeds (\<lambda>w. labelled what (f w))"
  by (simp add: succeeds_def labelled_def split_beta)

text \<open>An engine that is never in the way of a start of these containers.\<close>

definition engine_works :: "('w \<Rightarrow> string \<Rightarrow> (string option \<times> bool) option) \<Rightarrow> 'w runtime \<Rightarrow> container_spec list \<Rightarrow> bool" where
  "engine_works view rt specs \<longleftrightarrow>
     (\<forall>sp\<in>set specs. \<forall>w. \<exists>i w'. rt_ensure rt False sp w = (Inr i, w')) \<and>
     (\<forall>n w. view w n \<noteq> None \<longrightarrow> fst (rt_start rt False n w) = None) \<and>
     (\<forall>n. succeeds (rt_pull rt False n)) \<and> (\<forall>n t. succeeds (rt_wait_ready rt False n t))"

lemma group_succeeds:
  assumes start: "\<forall>ks\<in>set gs. P ks w"
    and turn: "\<And>k ks w w' e. P (k # ks) w \<Longrightarrow> perform rt False k w = (e, w') \<Longrightarrow>
      e = None \<and> P ks w' \<and> (\<forall>ls. P ls w \<longrightarrow> P ls w')"
  shows "fst (group_wait rt sched gs w) = None"
proof -
  define I where "I g \<longleftrightarrow> (case g of (gs, er, w) \<Rightarrow> er = None \<and> (\<forall>ks\<in>set gs. P ks w))" for g :: "call list list \<times> go_error option \<times> 'a"
  have step: "I (group_turn rt i g)" if I: "I g" for i g
  proof -
    obtain gs w where g: "g = (gs, None, w)" and P: "\<forall>ks\<in>set gs. P ks w" using I by (cases g) (auto simp: I_def)
    show ?thesis
    proof (cases "i < length gs \<and> gs ! i \<noteq> []")
      case True
      then obtain k ks where k: "gs ! i = k # ks" by (auto simp: neq_Nil_conv)
      obtain e w' where p: "perform rt False k w = (e, w')" by (metis surj_pair)
      have "P (k # ks) w" using P True k by (metis nth_mem)
      from turn [OF this p] have e: "e = None" "P ks w'" "\<forall>ls. P ls w \<longrightarrow> P ls w'" by auto
      have "group_turn rt i g = (gs[i := ks], None, w')" using True k p e(1) by (simp add: group_turn_def g)
      moreover have "\<forall>ls\<in>set (gs[i := ks]). P ls w'"
        using P e(2,3) set_update_subset_insert [of gs i ks] by blast
      ultimately show ?thesis by (simp add: I_def)
    next
      case False
      then show ?thesis using I by (auto simp: group_turn_def g split: list.split)
    qed
  qed
  have "I (fold (group_turn rt) is g)" if "I g" for "is" g
    using that by (induction "is" arbitrary: g) (simp_all add: step)
  from this [of "(gs, None, w)" "sched @ finishing_turns gs"] start show ?thesis
    by (auto simp: I_def group_wait_def split: prod.splits)
qed

context container_runtime begin

lemma create_succeeds:
  assumes w: "engine_works view rt specs"
  shows "fst (group_wait rt sched (create_group specs) v) = None"
proof -
  define P where "P ks u \<longleftrightarrow> (\<exists>sp\<in>set specs. ks = [Ensure sp, Start (cs_name sp)]) \<or>
      (\<exists>n. ks = [Start n] \<and> view u n \<noteq> None) \<or> ks = []" for ks and u :: 'w
  show ?thesis
  proof (rule group_succeeds [where P = P])
    fix k ks u u' e
    assume P: "P (k # ks) u" and p: "perform rt False k u = (e, u')"
    have grows: "P ls u'" if "P ls u" "\<And>n. view u n \<noteq> None \<Longrightarrow> view u' n \<noteq> None" for ls
      using that unfolding P_def by metis
    show "e = None \<and> P ks u' \<and> (\<forall>ls. P ls u \<longrightarrow> P ls u')"
    proof (cases "\<exists>n. k = Start n")
      case True
      then obtain n where k: "k = Start n" "ks = []" "view u n \<noteq> None" using P by (auto simp: P_def)
      obtain x where x: "rt_start rt False n u = (x, u')" "e = map_option (\<lambda>t. (''start '' @ n) @ '': '' @ t) x"
        using p k(1) by (auto simp: labelled_eq)
      have "fst (rt_start rt False n u) = None" using w k(3) unfolding engine_works_def by blast
      then have "x = None" using x(1) by simp
      moreover from this have "\<And>m. view u m \<noteq> None \<Longrightarrow> view u' m \<noteq> None" using start_ok [of False n u u'] x(1) by auto
      ultimately show ?thesis using x k(2) grows by (auto simp: P_def)
    next
      case False
      then obtain sp where sp: "sp \<in> set specs" "k = Ensure sp" "ks = [Start (cs_name sp)]" using P by (auto simp: P_def)
      obtain i v where v: "rt_ensure rt False sp u = (Inr i, v)" using w sp(1) unfolding engine_works_def by blast
      then have i: "rt_ensure rt False sp u = (Inr i, u')" "e = None" using p by (simp_all add: sp(2) labelled_eq)
      then obtain b where "view u' = (view u)(cs_name sp \<mapsto> (Some (hash sp), b))" using ensure_ok by blast
      then have "\<And>m. view u m \<noteq> None \<Longrightarrow> view u' m \<noteq> None" "view u' (cs_name sp) \<noteq> None" by auto
      with i sp grows show ?thesis by (auto simp: P_def)
    qed
  qed (auto simp: P_def create_group_def)
qed

end

lemma quiet_group_succeeds:
  assumes "engine_works view rt specs" "\<forall>ks\<in>set gs. list_all quiet_call ks"
  shows "fst (group_wait rt sched gs v) = None"
proof (rule group_succeeds [where P = "\<lambda>ks _. list_all quiet_call ks"])
  fix k ks w w' e
  assume q: "list_all quiet_call (k # ks)" and p: "perform rt False k w = (e, w')"
  have "fst (perform rt False k w) = None"
    using q assms(1) by (cases k) (simp_all add: engine_works_def succeeds_def labelled_def split_beta)
  then show "e = None \<and> list_all quiet_call ks \<and> (\<forall>ls. list_all quiet_call ls \<longrightarrow> list_all quiet_call ls)"
    using q p by simp
qed (use assms(2) in auto)

section \<open>The engine above the Docker SDK\<close>

text \<open>Pulling an image and waiting for readiness are given: neither creates, starts or removes a container.\<close>

definition docker_runtime ::
  "(bool \<Rightarrow> 'w daemon) \<Rightarrow> (bool \<Rightarrow> string \<Rightarrow> 'w \<Rightarrow> go_error option \<times> 'w)
    \<Rightarrow> (bool \<Rightarrow> string \<Rightarrow> duration \<Rightarrow> 'w \<Rightarrow> go_error option \<times> 'w) \<Rightarrow> 'w runtime" where
  "docker_runtime dm pull wait =
     \<lparr>rt_ensure = (\<lambda>c. ensure_container (dm c)), rt_start = (\<lambda>c. start_container (dm c)),
      rt_stop = (\<lambda>c. stop_container (dm c)), rt_remove = (\<lambda>c. remove_container (dm c)), rt_pull = pull,
      rt_wait_ready = wait\<rparr>"

definition docker_view ::
  "('w \<Rightarrow> string \<rightharpoonup> docker_container) \<Rightarrow> 'w \<Rightarrow> string \<Rightarrow> (string option \<times> bool) option" where
  "docker_view cont w n = map_option (\<lambda>c. (map_of (dk_labels c) label_config_hash, dk_running c)) (cont w n)"

definition runtime_ok ::
  "('w \<Rightarrow> string \<rightharpoonup> docker_container) \<Rightarrow> (canonical_spec \<Rightarrow> string) \<Rightarrow> (bool \<Rightarrow> 'w daemon)
    \<Rightarrow> (bool \<Rightarrow> string \<Rightarrow> 'w \<Rightarrow> go_error option \<times> 'w)
    \<Rightarrow> (bool \<Rightarrow> string \<Rightarrow> duration \<Rightarrow> 'w \<Rightarrow> go_error option \<times> 'w) \<Rightarrow> bool" where
  "runtime_ok cont digest dm pull wait \<longleftrightarrow>
     (\<forall>c. daemon_ok cont (dm c) \<and> dm_digest (dm c) = digest) \<and>
     (\<forall>c n. same_containers cont (pull c n)) \<and> (\<forall>c n t. same_containers cont (wait c n t))"

lemma docker_view_upd:
  "cont w' = (cont w)(n \<mapsto> c) \<Longrightarrow>
    docker_view cont w' = (docker_view cont w)(n \<mapsto> (map_of (dk_labels c) label_config_hash, dk_running c))"
  "cont w' = (cont w)(n := None) \<Longrightarrow> docker_view cont w' = (docker_view cont w)(n := None)"
  "cont w' = cont w \<Longrightarrow> docker_view cont w' = docker_view cont w"
  by (rule ext; simp add: docker_view_def)+

lemma others_same_view:
  "others_same cont n w w' \<Longrightarrow> (docker_view cont w')(n := None) = (docker_view cont w)(n := None)"
proof
  fix m
  assume "others_same cont n w w'"
  then have "((cont w')(n := None)) m = ((cont w)(n := None)) m" by (simp add: others_same_def)
  then show "((docker_view cont w')(n := None)) m = ((docker_view cont w)(n := None)) m"
    by (cases "m = n") (simp_all add: docker_view_def)
qed

lemma docker_runtime_ok:
  assumes "runtime_ok cont digest dm pull wait"
  shows "container_runtime (docker_view cont) (config_hash digest) (docker_runtime dm pull wait)"
proof
  have ok: "daemon_ok cont (dm c)" and dg: "dm_digest (dm c) = digest" for c using assms by (simp_all add: runtime_ok_def)
  fix c sp n t w w' i e
  note en = ensure_container_effect [OF ok, of c sp w _ w']
  show "\<exists>b. docker_view cont w' = (docker_view cont w)(cs_name sp \<mapsto> (Some (config_hash digest sp), b))"
    if "rt_ensure (docker_runtime dm pull wait) c sp w = (Inr i, w')"
  proof -
    from that have "ensured cont (dm c) sp w i w'" using en [of "Inr i"] by (simp add: docker_runtime_def)
    then obtain k where k: "cont w' = (cont w)(cs_name sp \<mapsto> k)"
        "map_of (dk_labels k) label_config_hash = Some (config_hash digest sp)"
      unfolding ensured_def dg by blast
    show ?thesis using docker_view_upd(1) [of cont w' w, OF k(1)] k(2) by auto
  qed
  show "(docker_view cont w')(cs_name sp := None) = (docker_view cont w)(cs_name sp := None)"
    if "rt_ensure (docker_runtime dm pull wait) c sp w = (Inl e, w')"
    by (rule others_same_view) (use en [of "Inl e"] that in \<open>simp add: docker_runtime_def\<close>)
  show "\<exists>h b. docker_view cont w n = Some (h, b) \<and> docker_view cont w' = (docker_view cont w)(n \<mapsto> (h, True))"
    if "rt_start (docker_runtime dm pull wait) c n w = (None, w')"
  proof -
    from that have "start_container (dm c) n w = (None, w')" by (simp add: docker_runtime_def)
    then obtain k where k: "cont w n = Some k" "cont w' = (cont w)(n \<mapsto> k\<lparr>dk_running := True\<rparr>)"
      using start_container_effect(1) [OF ok, of c n w None w'] by blast
    have "docker_view cont w n = Some (map_of (dk_labels k) label_config_hash, dk_running k)"
      by (simp add: docker_view_def k(1))
    then show ?thesis using docker_view_upd(1) [of cont w' w, OF k(2)] by simp
  qed
  show "docker_view cont w' = docker_view cont w" if "rt_start (docker_runtime dm pull wait) c n w = (Some e, w')"
    by (rule docker_view_upd(3)) (use start_container_effect(2) [OF ok, of c n w "Some e" w'] that in \<open>simp add: docker_runtime_def\<close>)
  show "docker_view cont w' = (docker_view cont w)(n := map_option (\<lambda>(h, b). (h, False)) (docker_view cont w n))"
    if "rt_stop (docker_runtime dm pull wait) c n t w = (None, w')"
  proof -
    from that have "stop_container (dm c) n t w = (None, w')" by (simp add: docker_runtime_def)
    note st = stop_container_effect(1) [OF ok this refl]
    show ?thesis
    proof (cases "cont w n")
      case None
      then have "docker_view cont w' = docker_view cont w" "docker_view cont w n = None"
        using st docker_view_upd(3) [of cont w' w] by simp_all (simp add: docker_view_def)
      then show ?thesis by (simp add: fun_upd_idem)
    next
      case (Some k)
      then have "docker_view cont w' = (docker_view cont w)(n \<mapsto> (map_of (dk_labels k) label_config_hash, False))"
        using st docker_view_upd(1) [of cont w' w n "k\<lparr>dk_running := False\<rparr>"] by simp
      then show ?thesis using Some by (simp add: docker_view_def)
    qed
  qed
  show "docker_view cont w' = docker_view cont w" if "rt_stop (docker_runtime dm pull wait) c n t w = (Some e, w')"
    by (rule docker_view_upd(3)) (use stop_container_effect(2) [OF ok, of c n t w "Some e" w'] that in \<open>simp add: docker_runtime_def\<close>)
  show "docker_view cont w' = (docker_view cont w)(n := None)" if "rt_remove (docker_runtime dm pull wait) c n w = (None, w')"
    by (rule docker_view_upd(2)) (use remove_container_effect(1) [OF ok, of c n w None w'] that in \<open>simp add: docker_runtime_def\<close>)
  show "docker_view cont w' = docker_view cont w" if "rt_remove (docker_runtime dm pull wait) c n w = (Some e, w')"
    by (rule docker_view_upd(3)) (use remove_container_effect(2) [OF ok, of c n w "Some e" w'] that in \<open>simp add: docker_runtime_def\<close>)
  show "docker_view cont (snd (rt_pull (docker_runtime dm pull wait) c n w)) = docker_view cont w"
    "docker_view cont (snd (rt_wait_ready (docker_runtime dm pull wait) c n t w)) = docker_view cont w"
    using assms by (auto simp: runtime_ok_def same_containers_def docker_runtime_def intro!: docker_view_upd(3))
qed

section \<open>The steps\<close>

text \<open>A step whose work is a group; \<open>sched\<close> and \<open>undo_sched\<close> are the schedules of its two groups.\<close>

definition group_step :: "'w runtime \<Rightarrow> string \<Rightarrow> nat list \<Rightarrow> call list list \<Rightarrow> nat list \<Rightarrow> call list list \<Rightarrow> 'w step" where
  "group_step rt name sched gs undo_sched undo =
     \<lparr>step_name = name,
      step_apply = (\<lambda>_ w. case group_wait rt sched gs w of (e, w') \<Rightarrow> (w', Returned e)),
      step_rollback = (\<lambda>_ w. case group_wait rt undo_sched undo w of (e, w') \<Rightarrow> (w', Returned e))\<rparr>"

definition pull_images_step :: "'w runtime \<Rightarrow> nat list \<Rightarrow> container_spec list \<Rightarrow> 'w step" where
  "pull_images_step rt sched specs = group_step rt ''pull-images'' sched (pull_group specs) [] []"

definition create_containers_step :: "'w runtime \<Rightarrow> nat list \<Rightarrow> nat list \<Rightarrow> container_spec list \<Rightarrow> 'w step" where
  "create_containers_step rt sched undo_sched specs =
     group_step rt ''create-containers'' sched (create_group specs) undo_sched (discard_group specs)"

definition wait_ready_step :: "'w runtime \<Rightarrow> nat list \<Rightarrow> (string \<rightharpoonup> duration) \<Rightarrow> string list \<Rightarrow> 'w step" where
  "wait_ready_step rt sched timeouts ns = group_step rt ''wait-ready'' sched (wait_group timeouts ns) [] []"

definition stop_containers_step :: "'w runtime \<Rightarrow> nat list \<Rightarrow> string list \<Rightarrow> 'w step" where
  "stop_containers_step rt sched ns = group_step rt ''stop-containers'' sched (stop_group ns) [] []"

definition remove_containers_step :: "'w runtime \<Rightarrow> nat list \<Rightarrow> string list \<Rightarrow> 'w step" where
  "remove_containers_step rt sched ns = group_step rt ''remove-containers'' sched (remove_group ns) [] []"

lemmas container_steps = pull_images_step_def create_containers_step_def wait_ready_step_def stop_containers_step_def
  remove_containers_step_def

lemma safe_group_step:
  "safe_apply c (group_step rt name sched gs us undo) w = (case group_wait rt sched gs w of (e, w') \<Rightarrow> (w', e))"
  "safe_rollback c (group_step rt name sched gs us undo) w = (case group_wait rt us undo w of (e, w') \<Rightarrow> (w', e))"
  by (simp_all add: safe_apply_def safe_rollback_def group_step_def split_beta)

section \<open>What the steps do to Docker\<close>

text \<open>
  C22. Whatever the interleaving of the goroutines, and whatever the daemon refuses: when the step that creates the containers
  succeeds, every spec has a container with the hash of the spec and it runs; containers it does not name are untouched.
\<close>

theorem create_containers_any_order:
  assumes "runtime_ok cont digest dm pull wait" "distinct (map cs_name specs)"
    and "safe_apply c (create_containers_step (docker_runtime dm pull wait) sched us specs) w = (w', e)"
  shows "(e = None \<longrightarrow> (\<forall>sp\<in>set specs. docker_view cont w' (cs_name sp) = Some (Some (config_hash digest sp), True))) \<and>
    (\<forall>n. n \<notin> cs_name ` set specs \<longrightarrow> docker_view cont w' n = docker_view cont w n)"
proof -
  have "group_wait (docker_runtime dm pull wait) sched (create_group specs) w = (e, w')"
    using assms(3) by (auto simp: create_containers_step_def safe_group_step split: prod.splits)
  from container_runtime.created [OF docker_runtime_ok [OF assms(1)] assms(2) this] show ?thesis .
qed

text \<open>
  Whatever the interleaving, when the step that stops the containers succeeds, every named container that exists is stopped,
  and no other container changes.
\<close>

theorem stop_containers_any_order:
  assumes "runtime_ok cont digest dm pull wait" "distinct ns"
    and "safe_apply c (stop_containers_step (docker_runtime dm pull wait) sched ns) w = (w', e)"
  shows "(e = None \<longrightarrow> (\<forall>n\<in>set ns. docker_view cont w' n = map_option (\<lambda>(h, b). (h, False)) (docker_view cont w n))) \<and>
    (\<forall>n. n \<notin> set ns \<longrightarrow> docker_view cont w' n = docker_view cont w n)"
proof -
  have "group_wait (docker_runtime dm pull wait) sched (stop_group ns) w = (e, w')"
    using assms(3) by (auto simp: stop_containers_step_def safe_group_step split: prod.splits)
  from container_runtime.stopped [OF docker_runtime_ok [OF assms(1)] assms(2) this] show ?thesis .
qed

definition no_effect :: "'w \<Rightarrow> go_error option \<times> 'w" where "no_effect w = (None, w)"

lemma mem_runtime_ok:
  "runtime_ok mw_containers digest (\<lambda>_. mem_daemon True digest) (\<lambda>_ _. no_effect) (\<lambda>_ _ _. no_effect)"
  by (simp add: runtime_ok_def mem_daemon_ok same_containers_def no_effect_def) (simp add: mem_daemon_def)

lemma create_containers_any_order_witness:
  "\<exists>w' e. safe_apply Caller (create_containers_step (docker_runtime (\<lambda>_. mem_daemon True ca_image) (\<lambda>_ _. no_effect) (\<lambda>_ _ _. no_effect))
       [1, 0, 0, 1] [] [base_spec ''web'' ''nginx'' [], base_spec ''db'' ''mysql'' []]) \<lparr>mw_containers = Map.empty, mw_now = 0\<rparr> = (w', e) \<and>
     docker_view mw_containers w' ''other'' = None"
proof -
  obtain w' e where r: "safe_apply Caller (create_containers_step (docker_runtime (\<lambda>_. mem_daemon True ca_image) (\<lambda>_ _. no_effect) (\<lambda>_ _ _. no_effect))
       [1, 0, 0, 1] [] [base_spec ''web'' ''nginx'' [], base_spec ''db'' ''mysql'' []]) \<lparr>mw_containers = Map.empty, mw_now = 0\<rparr> = (w', e)"
    by (metis surj_pair)
  have "distinct (map cs_name [base_spec ''web'' ''nginx'' [], base_spec ''db'' ''mysql'' []])" by (simp add: base_spec_def)
  from create_containers_any_order [OF mem_runtime_ok this r] show ?thesis
    using r by (auto simp: base_spec_def docker_view_def)
qed

lemma stop_containers_any_order_witness:
  "\<exists>w' e. safe_apply Caller (stop_containers_step (docker_runtime (\<lambda>_. mem_daemon True ca_image) (\<lambda>_ _. no_effect) (\<lambda>_ _ _. no_effect))
       [] [''web'']) \<lparr>mw_containers = [''web'' \<mapsto> \<lparr>dk_id = ''i'', dk_labels = [], dk_running = True\<rparr>], mw_now = 0\<rparr> = (w', e) \<and>
     docker_view mw_containers w' ''other'' = None"
proof -
  obtain w' e where r: "safe_apply Caller (stop_containers_step (docker_runtime (\<lambda>_. mem_daemon True ca_image) (\<lambda>_ _. no_effect) (\<lambda>_ _ _. no_effect))
       [] [''web'']) \<lparr>mw_containers = [''web'' \<mapsto> \<lparr>dk_id = ''i'', dk_labels = [], dk_running = True\<rparr>], mw_now = 0\<rparr> = (w', e)"
    by (metis surj_pair)
  from stop_containers_any_order [OF mem_runtime_ok _ r] show ?thesis using r by (auto simp: docker_view_def)
qed

end
