(* ===== verification/Docker_Fake.thy ===== *)
theory Docker_Fake
  imports Site_Steps
begin

text \<open>
  The engine in memory of \<^verbatim>\<open>internal/docker/fake/engine.go\<close>, against which the lifecycle is tested: containers, networks
  and volumes as maps, with the recordings the tests read. Every method runs under the mutex, so each is a function of the
  state. It keeps the contract \<open>container_runtime\<close> of the steps, which is what makes it a faithful double.
\<close>

section \<open>State\<close>

record fake_container =
  fc_id :: string
  fc_name :: string
  fc_spec :: container_spec
  fc_running :: bool
  fc_healthy :: bool
  fc_logs :: string

record fake_network =
  fn_id :: string
  fn_labels :: labels

record one_shot_mount =
  om_volume :: string
  om_bind :: string
  om_target :: string
  om_read_only :: bool

record one_shot =
  oc_name :: string
  oc_image :: string
  oc_cmd :: "string list"
  oc_mounts :: "one_shot_mount list"

record one_shot_result =
  or_exit :: int
  or_stdout :: string
  or_stderr :: string

record fake_engine =
  fe_containers :: "string \<rightharpoonup> fake_container"
  fe_networks :: "string \<rightharpoonup> fake_network"
  fe_volumes :: "string \<rightharpoonup> labels"
  fe_pulled :: "string set"
  fe_ping_err :: "go_error option"
  fe_pull_err :: "go_error option"
  fe_wait_err :: "go_error option"
  fe_next_id :: int
  fe_pulls :: "string list"
  fe_started :: "string list"
  fe_stopped :: "string list"
  fe_removed :: "string list"
  fe_created :: "container_spec list"
  fe_waited :: "string list"
  fe_chown_volumes :: "(string \<times> int \<times> int) list"
  fe_chown_paths :: "(string \<times> int \<times> int) list"
  fe_one_shots :: "one_shot list"
  fe_script :: "(one_shot_result \<times> go_error option) list"

definition new_fake :: fake_engine where
  "new_fake = \<lparr>fe_containers = Map.empty, fe_networks = Map.empty, fe_volumes = Map.empty, fe_pulled = {},
     fe_ping_err = None, fe_pull_err = None, fe_wait_err = None, fe_next_id = 0, fe_pulls = [], fe_started = [],
     fe_stopped = [], fe_removed = [], fe_created = [], fe_waited = [], fe_chown_volumes = [], fe_chown_paths = [],
     fe_one_shots = [], fe_script = []\<rparr>"

section \<open>Operations\<close>

definition next_id :: "fake_engine \<Rightarrow> string \<times> fake_engine" where
  "next_id e = (let e = e\<lparr>fe_next_id := fe_next_id e + 1\<rparr> in (''id-'' @ itoa (fe_next_id e), e))"

definition fake_not_found :: "string \<Rightarrow> go_error" where "fake_not_found n = ''docker resource not found: '' @ n"

definition fake_create :: "container_spec \<Rightarrow> fake_engine \<Rightarrow> (go_error + string) \<times> fake_engine" where
  "fake_create sp e =
     (case next_id e of (i, e) \<Rightarrow>
        (Inr i, e\<lparr>fe_containers := (fe_containers e)(cs_name sp \<mapsto> \<lparr>fc_id = i, fc_name = cs_name sp, fc_spec = sp,
            fc_running = False, fc_healthy = False, fc_logs = []\<rparr>),
          fe_created := fe_created e @ [sp]\<rparr>))"

definition fake_ensure ::
  "(canonical_spec \<Rightarrow> string) \<Rightarrow> container_spec \<Rightarrow> fake_engine \<Rightarrow> (go_error + string) \<times> fake_engine" where
  "fake_ensure digest sp e =
     (case fe_containers e (cs_name sp) of
        None \<Rightarrow> fake_create sp e
      | Some c \<Rightarrow>
          (if config_hash digest (fc_spec c) = config_hash digest sp then (Inr (fc_id c), e)
           else fake_create sp (e\<lparr>fe_containers := (fe_containers e)(cs_name sp := None)\<rparr>)))"

definition fake_start :: "string \<Rightarrow> fake_engine \<Rightarrow> go_error option \<times> fake_engine" where
  "fake_start n e =
     (case fe_containers e n of
        None \<Rightarrow> (Some (fake_not_found n), e)
      | Some c \<Rightarrow> (None, e\<lparr>fe_containers := (fe_containers e)(n \<mapsto> c\<lparr>fc_running := True, fc_healthy := True\<rparr>),
                    fe_started := fe_started e @ [n]\<rparr>))"

definition fake_stop :: "string \<Rightarrow> duration \<Rightarrow> fake_engine \<Rightarrow> go_error option \<times> fake_engine" where
  "fake_stop n grace e =
     (None, e\<lparr>fe_containers := (case fe_containers e n of None \<Rightarrow> fe_containers e
                | Some c \<Rightarrow> (fe_containers e)(n \<mapsto> c\<lparr>fc_running := False\<rparr>)),
            fe_stopped := fe_stopped e @ [n]\<rparr>)"

definition fake_remove :: "string \<Rightarrow> fake_engine \<Rightarrow> go_error option \<times> fake_engine" where
  "fake_remove n e =
     (None, e\<lparr>fe_containers := (fe_containers e)(n := None), fe_removed := fe_removed e @ [n]\<rparr>)"

definition fake_ensure_network :: "network_spec \<Rightarrow> fake_engine \<Rightarrow> (go_error + string) \<times> fake_engine" where
  "fake_ensure_network sp e =
     (case fe_networks e (ns_name sp) of
        Some n \<Rightarrow> (Inr (fn_id n), e)
      | None \<Rightarrow>
          (case next_id e of (i, e) \<Rightarrow>
             (Inr i, e\<lparr>fe_networks := (fe_networks e)(ns_name sp \<mapsto> \<lparr>fn_id = i, fn_labels = ns_labels sp\<rparr>)\<rparr>)))"

definition fake_ensure_volume :: "volume_spec \<Rightarrow> fake_engine \<Rightarrow> (go_error + string) \<times> fake_engine" where
  "fake_ensure_volume sp e =
     (Inr (vs_name sp),
      case fe_volumes e (vs_name sp) of
        Some _ \<Rightarrow> e | None \<Rightarrow> e\<lparr>fe_volumes := (fe_volumes e)(vs_name sp \<mapsto> vs_labels sp)\<rparr>)"

definition fake_pull :: "string \<Rightarrow> fake_engine \<Rightarrow> go_error option \<times> fake_engine" where
  "fake_pull ref e =
     (case fe_pull_err e of
        Some x \<Rightarrow> (Some x, e)
      | None \<Rightarrow> (None, e\<lparr>fe_pulls := fe_pulls e @ [ref], fe_pulled := insert ref (fe_pulled e)\<rparr>))"

definition fake_wait_ready :: "string \<Rightarrow> duration \<Rightarrow> fake_engine \<Rightarrow> go_error option \<times> fake_engine" where
  "fake_wait_ready n t e = (fe_wait_err e, e\<lparr>fe_waited := fe_waited e @ [n]\<rparr>)"

definition fake_logs :: "string \<Rightarrow> fake_engine \<Rightarrow> go_error + string" where
  "fake_logs n e = (case fe_containers e n of None \<Rightarrow> Inl (fake_not_found n) | Some c \<Rightarrow> Inr (fc_logs c))"

definition fake_chown_volume :: "string \<Rightarrow> int \<Rightarrow> int \<Rightarrow> fake_engine \<Rightarrow> go_error option \<times> fake_engine" where
  "fake_chown_volume v uid gid e = (None, e\<lparr>fe_chown_volumes := fe_chown_volumes e @ [(v, uid, gid)]\<rparr>)"

definition fake_chown_path :: "string \<Rightarrow> int \<Rightarrow> int \<Rightarrow> fake_engine \<Rightarrow> go_error option \<times> fake_engine" where
  "fake_chown_path p uid gid e = (None, e\<lparr>fe_chown_paths := fe_chown_paths e @ [(p, uid, gid)]\<rparr>)"

text \<open>An empty wanted value matches any value of the label.\<close>

definition labels_match :: "labels \<Rightarrow> labels \<Rightarrow> bool" where
  "labels_match have want \<longleftrightarrow>
     list_all (\<lambda>(k, v). case map_of have k of None \<Rightarrow> False | Some hv \<Rightarrow> v = [] \<or> hv = v) want"

definition fake_remove_containers_by_label :: "labels \<Rightarrow> fake_engine \<Rightarrow> go_error option \<times> fake_engine" where
  "fake_remove_containers_by_label want e =
     (None, e\<lparr>fe_containers := (\<lambda>n. case fe_containers e n of None \<Rightarrow> None
        | Some c \<Rightarrow> if labels_match (cs_labels (fc_spec c)) want then None else Some c)\<rparr>)"

definition fake_remove_networks_by_label :: "labels \<Rightarrow> fake_engine \<Rightarrow> go_error option \<times> fake_engine" where
  "fake_remove_networks_by_label want e =
     (None, e\<lparr>fe_networks := (\<lambda>n. case fe_networks e n of None \<Rightarrow> None
        | Some x \<Rightarrow> if labels_match (fn_labels x) want then None else Some x)\<rparr>)"

definition fake_exists :: "string \<Rightarrow> fake_engine \<Rightarrow> go_error + bool" where
  "fake_exists n e = Inr (fe_containers e n \<noteq> None)"

definition fake_is_running :: "string \<Rightarrow> fake_engine \<Rightarrow> go_error + bool" where
  "fake_is_running n e = Inr (case fe_containers e n of None \<Rightarrow> False | Some c \<Rightarrow> fc_running c)"

definition fake_one_shot ::
  "string \<Rightarrow> string \<Rightarrow> string list \<Rightarrow> one_shot_mount list \<Rightarrow> fake_engine \<Rightarrow> (one_shot_result \<times> go_error option) \<times> fake_engine" where
  "fake_one_shot n img cmd mounts e =
     (let e = e\<lparr>fe_one_shots := fe_one_shots e @ [\<lparr>oc_name = n, oc_image = img, oc_cmd = cmd, oc_mounts = mounts\<rparr>]\<rparr>
      in case fe_script e of
           [] \<Rightarrow> ((\<lparr>or_exit = 0, or_stdout = [], or_stderr = []\<rparr>, None), e)
         | r # rs \<Rightarrow> (r, e\<lparr>fe_script := rs\<rparr>))"

section \<open>The contract\<close>

definition fake_runtime :: "(canonical_spec \<Rightarrow> string) \<Rightarrow> fake_engine runtime" where
  "fake_runtime digest =
     \<lparr>rt_ensure = (\<lambda>_. fake_ensure digest), rt_start = (\<lambda>_. fake_start), rt_stop = (\<lambda>_. fake_stop),
      rt_remove = (\<lambda>_. fake_remove), rt_pull = (\<lambda>_. fake_pull), rt_wait_ready = (\<lambda>_. fake_wait_ready)\<rparr>"

definition fake_view ::
  "(canonical_spec \<Rightarrow> string) \<Rightarrow> fake_engine \<Rightarrow> string \<Rightarrow> (string option \<times> bool) option" where
  "fake_view digest e n = map_option (\<lambda>c. (Some (config_hash digest (fc_spec c)), fc_running c)) (fe_containers e n)"

lemma fake_view_ensure:
  "\<exists>i b. fst (fake_ensure digest sp e) = Inr i \<and>
     fake_view digest (snd (fake_ensure digest sp e)) = (fake_view digest e)(cs_name sp \<mapsto> (Some (config_hash digest sp), b))"
proof (cases "fe_containers e (cs_name sp)")
  case None
  then have "fake_view digest (snd (fake_ensure digest sp e)) = (fake_view digest e)(cs_name sp \<mapsto> (Some (config_hash digest sp), False))"
    by (intro ext) (simp add: fake_ensure_def fake_create_def next_id_def fake_view_def Let_def)
  then show ?thesis using None by (auto simp: fake_ensure_def fake_create_def next_id_def Let_def)
next
  case (Some c)
  show ?thesis
  proof (cases "config_hash digest (fc_spec c) = config_hash digest sp")
    case True
    then have "fake_view digest e (cs_name sp) = Some (Some (config_hash digest sp), fc_running c)"
      using Some by (simp add: fake_view_def)
    then show ?thesis using Some True
      by (intro exI [of _ "fc_id c"] exI [of _ "fc_running c"]) (auto simp: fake_ensure_def fun_upd_idem)
  next
    case False
    then have "fake_view digest (snd (fake_ensure digest sp e)) = (fake_view digest e)(cs_name sp \<mapsto> (Some (config_hash digest sp), False))"
      using Some by (intro ext) (simp add: fake_ensure_def fake_create_def next_id_def fake_view_def Let_def)
    then show ?thesis using Some False by (auto simp: fake_ensure_def fake_create_def next_id_def Let_def)
  qed
qed

interpretation mem_engine: container_runtime "fake_view digest" "config_hash digest" "fake_runtime digest" for digest
proof
  fix c sp n t w w' i e
  show "\<exists>b. fake_view digest w' = (fake_view digest w)(cs_name sp \<mapsto> (Some (config_hash digest sp), b))"
    if "rt_ensure (fake_runtime digest) c sp w = (Inr i, w')"
    using fake_view_ensure [of digest sp w] that by (auto simp: fake_runtime_def)
  show "(fake_view digest w')(cs_name sp := None) = (fake_view digest w)(cs_name sp := None)"
    if "rt_ensure (fake_runtime digest) c sp w = (Inl e, w')"
    using fake_view_ensure [of digest sp w] that by (auto simp: fake_runtime_def)
  show "\<exists>h b. fake_view digest w n = Some (h, b) \<and> fake_view digest w' = (fake_view digest w)(n \<mapsto> (h, True))"
    if "rt_start (fake_runtime digest) c n w = (None, w')"
  proof (cases "fe_containers w n")
    case (Some k)
    with that have "fake_view digest w' = (fake_view digest w)(n \<mapsto> (Some (config_hash digest (fc_spec k)), True))"
      by (intro ext) (auto simp: fake_runtime_def fake_start_def fake_view_def)
    with Some show ?thesis by (auto simp: fake_view_def)
  qed (use that in \<open>simp add: fake_runtime_def fake_start_def\<close>)
  show "fake_view digest w' = fake_view digest w" if "rt_start (fake_runtime digest) c n w = (Some e, w')"
    using that by (auto simp: fake_runtime_def fake_start_def split: option.splits)
  show "fake_view digest w' = (fake_view digest w)(n := map_option (\<lambda>(h, b). (h, False)) (fake_view digest w n))"
    if "rt_stop (fake_runtime digest) c n t w = (None, w')"
    using that by (intro ext) (cases "fe_containers w n"; auto simp: fake_runtime_def fake_stop_def fake_view_def)
  show "fake_view digest w' = fake_view digest w" if "rt_stop (fake_runtime digest) c n t w = (Some e, w')"
    using that by (simp add: fake_runtime_def fake_stop_def)
  show "fake_view digest w' = (fake_view digest w)(n := None)" if "rt_remove (fake_runtime digest) c n w = (None, w')"
    using that by (intro ext) (auto simp: fake_runtime_def fake_remove_def fake_view_def)
  show "fake_view digest w' = fake_view digest w" if "rt_remove (fake_runtime digest) c n w = (Some e, w')"
    using that by (simp add: fake_runtime_def fake_remove_def)
  show "fake_view digest (snd (rt_pull (fake_runtime digest) c n w)) = fake_view digest w"
    by (intro ext) (simp add: fake_runtime_def fake_pull_def fake_view_def split: option.split)
  show "fake_view digest (snd (rt_wait_ready (fake_runtime digest) c n t w)) = fake_view digest w"
    by (intro ext) (simp add: fake_runtime_def fake_wait_ready_def fake_view_def)
qed

text \<open>
  The engine in memory brings up what it is asked for, whatever the order of the goroutines: when the group ends without an
  error every spec is present with its hash and running, and nothing else was touched in any case.
\<close>

lemma fake_brings_up:
  assumes "distinct (map cs_name specs)"
    and "group_wait (fake_runtime digest) sched (create_group specs) e = (er, e')"
  shows "(er = None \<longrightarrow> (\<forall>sp\<in>set specs. fake_view digest e' (cs_name sp) = Some (Some (config_hash digest sp), True))) \<and>
    (\<forall>n. n \<notin> cs_name ` set specs \<longrightarrow> fake_view digest e' n = fake_view digest e n)"
  by (rule mem_engine.created [OF assms])

text \<open>The engine in memory takes a spec without a name, which the engine above the SDK refuses.\<close>

lemma fake_takes_nameless_spec:
  "fst (fake_ensure ca_image (base_spec [] [] []) new_fake) = Inr ''id-1'' \<and> validate_spec (base_spec [] [] []) \<noteq> None"
  by (simp add: fake_ensure_def fake_create_def next_id_def new_fake_def base_spec_def validate_spec_def itoa_def Let_def) code_simp

end
