(* ===== verification/Plan_Logic.thy ===== *)
theory Plan_Logic
  imports Orch
begin

text \<open>
  Rules for reasoning about a plan run by the orchestrator one step at a time: what holds after a run without an error
  (\<open>run_chain\<close>), and what survives a run that cannot get past a certain step (\<open>run_blocked\<close>).
\<close>

definition callbacks_keep :: "'w callbacks \<Rightarrow> ('w \<Rightarrow> bool) \<Rightarrow> bool" where
  "callbacks_keep cb I \<longleftrightarrow>
     (\<forall>w v. I w \<longrightarrow> I (fire (on_step_start cb) v w)) \<and> (\<forall>w v. I w \<longrightarrow> I (fire (on_step_done cb) v w)) \<and>
     (\<forall>w v. I w \<longrightarrow> I (fire (on_plan_done cb) v w))"

lemma callbacks_keepD:
  assumes "callbacks_keep cb I" "I w"
  shows "I (fire (on_step_start cb) v w)" "I (fire (on_step_done cb) v w)" "I (fire (on_plan_done cb) r w)"
  using assms by (simp_all add: callbacks_keep_def)

text \<open>One turn of the main loop.\<close>

lemma run_loop_turn:
  assumes "run_loop env cb pl t0 i (s # ss) rs w = (r, w')"
  obtains (cancelled) e rs' where "ctx_err env w = Some e" "run_loop env cb pl t0 (Suc i) ss rs' w = (r, w')"
      "rs' = rs[i := (rs ! i)\<lparr>sr_status := StatusSkipped, sr_error := Some e\<rparr>]"
  | (failed) e v sr sr' w2 rb rs2 w4 where "ctx_err env w = None"
      "safe_apply Caller s (fire (on_step_start cb) v w) = (w2, Some e)"
      "rollback_prior cb (plan_steps pl) i (mark_skipped_from (Suc i) (rs[i := sr])) (fire (on_step_done cb) sr' w2) = (rb, rs2, w4)"
      "finish_run env cb pl t0 rb (Some e) rs2 w4 = (r, w')"
  | (applied) v sr w2 where "ctx_err env w = None" "safe_apply Caller s (fire (on_step_start cb) v w) = (w2, None)"
      "run_loop env cb pl t0 (Suc i) ss (rs[i := sr]) (fire (on_step_done cb) sr w2) = (r, w')"
      "sr_status sr = StatusSucceeded"
proof (cases "ctx_err env w")
  case (Some e)
  with assms that(1) show thesis by simp
next
  case None
  define v where "v = \<lparr>sr_name = step_name s, sr_started = clock env w, sr_duration = 0, sr_status = StatusRunning,
      sr_error = None\<rparr>"
  obtain w2 err where ap: "safe_apply Caller s (fire (on_step_start cb) v w) = (w2, err)" by (metis surj_pair)
  define sr where "sr = v\<lparr>sr_duration := time_sub (clock env w2) (sr_started v)\<rparr>"
  show thesis
  proof (cases err)
    case None2: None
    show thesis
      by (rule that(3) [of v w2 "sr\<lparr>sr_status := StatusSucceeded\<rparr>"])
        (use assms None None2 ap in \<open>simp_all add: v_def [symmetric] sr_def Let_def\<close>)
  next
    case (Some e)
    let ?sr = "sr\<lparr>sr_status := StatusFailed, sr_error := Some e\<rparr>"
    obtain rb rs2 w4 where rb: "rollback_prior cb (plan_steps pl) i (mark_skipped_from (Suc i) (rs[i := ?sr]))
        (fire (on_step_done cb) ?sr w2) = (rb, rs2, w4)" by (metis prod_cases3)
    show thesis
      by (rule that(2) [OF None _ rb]) (use assms None Some ap rb in \<open>simp_all add: v_def [symmetric] sr_def Let_def\<close>)
  qed
qed

lemma run_loop_cancelled: "ctx_err env w = Some e \<Longrightarrow> run_loop env cb pl t0 i ss rs w = (r, w') \<Longrightarrow> res_final_error r = Some e"
proof (induction ss arbitrary: i rs)
  case Nil
  then show ?case by (auto simp: finish_run_def Let_def split: prod.splits)
qed (use run_loop_turn in \<open>force simp: Let_def\<close>)

lemma finish_run_keeps:
  "finish_run env cb pl t0 rb e rs w = (r, w') \<Longrightarrow> callbacks_keep cb I \<Longrightarrow> I w \<Longrightarrow> I w' \<and> res_final_error r = e"
  by (auto simp: finish_run_def Let_def dest: callbacks_keepD(3))

lemma run_loop_chain:
  assumes cb: "\<And>j. callbacks_keep cb (J j)"
    and step: "\<And>j w w'. j < length (plan_steps pl) \<Longrightarrow> J j w \<Longrightarrow> safe_apply Caller (plan_steps pl ! j) w = (w', None) \<Longrightarrow> J (Suc j) w'"
  shows "run_loop env cb pl t0 i ss rs w = (r, w') \<Longrightarrow> ss = drop i (plan_steps pl) \<Longrightarrow> J i w \<Longrightarrow> i \<le> length (plan_steps pl) \<Longrightarrow>
    res_final_error r = None \<Longrightarrow> J (length (plan_steps pl)) w'"
proof (induction ss arbitrary: i rs w)
  case Nil
  then show ?case using finish_run_keeps [OF _ cb]
    by (cases "ctx_err env w") (fastforce simp: finish_run_def Let_def split: prod.splits)+
next
  case (Cons s ss)
  have s: "s = plan_steps pl ! i" "ss = drop (Suc i) (plan_steps pl)" "i < length (plan_steps pl)"
    using Cons.prems(2,4) by (metis Cons_nth_drop_Suc drop_all le_neq_implies_less le_refl list.distinct(1) list.inject)+
  from Cons.prems(1) show ?case
  proof (cases rule: run_loop_turn)
    case (cancelled e rs')
    then show ?thesis using run_loop_cancelled [OF cancelled(1) cancelled(2)] Cons.prems(5) by simp
  next
    case (failed e v sr sr' w2 rb rs2 w4)
    then show ?thesis using Cons.prems(5) by (auto simp: finish_run_def Let_def)
  next
    case (applied v sr w2)
    have "J (Suc i) w2" using step [OF s(3) callbacks_keepD(1) [OF cb Cons.prems(3)]] applied(2) s(1) by blast
    from Cons.IH [OF applied(3) s(2) callbacks_keepD(2) [OF cb this]] s(3) Cons.prems(5) show ?thesis by simp
  qed
qed

text \<open>After a run without an error, the assertions along the steps hold one after the other.\<close>

lemma run_chain:
  assumes "run env pl cb w = (r, w')" "res_final_error r = None" "J 0 w"
    and "\<And>j. callbacks_keep cb (J j)"
    and "\<And>j w w'. j < length (plan_steps pl) \<Longrightarrow> J j w \<Longrightarrow> safe_apply Caller (plan_steps pl ! j) w = (w', None) \<Longrightarrow> J (Suc j) w'"
  shows "J (length (plan_steps pl)) w'"
proof -
  have "run_loop env cb pl (clock env w) 0 (plan_steps pl) (initial_results (plan_steps pl)) w = (r, w')"
    using assms(1) by (simp add: run_def)
  from run_loop_chain [where J = J, OF assms(4,5) this] assms(2,3) show ?thesis by simp
qed

lemma rollback_prior_keeps:
  assumes cb: "callbacks_keep cb I" and undo: "\<And>j w. j < n \<Longrightarrow> I w \<Longrightarrow> I (fst (safe_rollback Detached (ss ! j) w))"
  shows "rollback_prior cb ss i rs w = (b, rs', w') \<Longrightarrow> i \<le> n \<Longrightarrow> I w \<Longrightarrow> I w'"
proof (induction i arbitrary: rs w b rs' w')
  case (Suc i)
  show ?case
  proof (cases "sr_status (rs ! i) = StatusSucceeded")
    case True
    obtain w1 err where u: "safe_rollback Detached (ss ! i) w = (w1, err)" by (metis surj_pair)
    let ?sr = "(rs ! i)\<lparr>sr_status := StatusRolledBack, sr_error := err\<rparr>"
    obtain b1 where r: "rollback_prior cb ss i (rs[i := ?sr]) (fire (on_step_done cb) ?sr w1) = (b1, rs', w')"
      using Suc.prems(1) True u by (auto simp: Let_def split: prod.splits)
    have "I w1" using undo [of i w] Suc.prems(2,3) u by simp
    from Suc.IH [OF r] Suc.prems(2) callbacks_keepD(2) [OF cb this] show ?thesis by simp
  qed (use Suc in auto)
qed auto

lemma past_last_success_le:
  "\<forall>j\<ge>k. j < i \<longrightarrow> sr_status (rs ! j) \<noteq> StatusSucceeded \<Longrightarrow> past_last_success rs i \<le> k"
proof (induction i)
  case (Suc i)
  then show ?case by (cases "i < k") (auto simp: not_less)
qed simp

lemma run_loop_blocked:
  assumes cb: "callbacks_keep cb I" and k: "k < length (plan_steps pl)"
    and step: "\<And>j w w' e. j \<le> k \<Longrightarrow> I w \<Longrightarrow> safe_apply Caller (plan_steps pl ! j) w = (w', e) \<Longrightarrow> I w' \<and> (j = k \<longrightarrow> e \<noteq> None)"
    and undo: "\<And>j w. j < k \<Longrightarrow> I w \<Longrightarrow> I (fst (safe_rollback Detached (plan_steps pl ! j) w))"
  shows "run_loop env cb pl t0 i ss rs w = (r, w') \<Longrightarrow> ss = drop i (plan_steps pl) \<Longrightarrow> I w \<Longrightarrow>
    length rs = length (plan_steps pl) \<Longrightarrow> i \<le> k \<or> ctx_err env w \<noteq> None \<Longrightarrow> i \<le> length (plan_steps pl) \<Longrightarrow>
    \<forall>j\<ge>min i k. j < length rs \<longrightarrow> sr_status (rs ! j) \<noteq> StatusSucceeded \<Longrightarrow>
    I w' \<and> res_final_error r \<noteq> None"
proof (induction ss arbitrary: i rs w)
  case Nil
  then have i: "length (plan_steps pl) = i" by simp
  then obtain e where e: "ctx_err env w = Some e" using Nil.prems(5) k by auto
  obtain rb rs2 w4 where rb: "rollback_prior cb (plan_steps pl) (past_last_success rs (length (plan_steps pl))) rs w = (rb, rs2, w4)"
    by (metis prod_cases3)
  have "past_last_success rs (length (plan_steps pl)) \<le> k"
    using past_last_success_le [of k "length (plan_steps pl)" rs] Nil.prems(4,7) k i by (simp add: min_def)
  from rollback_prior_keeps [OF cb undo rb this Nil.prems(3)] have "I w4" by blast
  moreover have "finish_run env cb pl t0 rb (Some e) rs2 w4 = (r, w')" using Nil.prems(1) e rb by simp
  ultimately show ?case using finish_run_keeps [OF _ cb] by fastforce
next
  case (Cons s ss)
  have s: "s = plan_steps pl ! i" "ss = drop (Suc i) (plan_steps pl)" "i < length (plan_steps pl)"
    using Cons.prems(2,6) by (metis Cons_nth_drop_Suc drop_all le_neq_implies_less le_refl list.distinct(1) list.inject)+
  from Cons.prems(1) show ?case
  proof (cases rule: run_loop_turn)
    case (cancelled e rs')
    show ?thesis
    proof (rule Cons.IH [OF cancelled(2) s(2) Cons.prems(3)])
      show "\<forall>j\<ge>min (Suc i) k. j < length rs' \<longrightarrow> sr_status (rs' ! j) \<noteq> StatusSucceeded"
        using Cons.prems(4,7) cancelled(3) s(3) by (auto simp: nth_list_update min_def split: if_splits)
    qed (use cancelled s Cons.prems in simp_all)
  next
    case (failed e v sr sr' w2 rb rs2 w4)
    then have i: "i \<le> k" using Cons.prems(5) by simp
    have "I w2" using step [OF i callbacks_keepD(1) [OF cb Cons.prems(3)]] failed(2) s(1) by blast
    from rollback_prior_keeps [OF cb undo failed(3) i callbacks_keepD(2) [OF cb this]] have "I w4" by blast
    with finish_run_keeps [OF failed(4) cb] show ?thesis by simp
  next
    case (applied v sr w2)
    then have i: "i \<le> k" using Cons.prems(5) by simp
    have "I w2 \<and> i < k"
      using step [OF i callbacks_keepD(1) [OF cb Cons.prems(3)]] applied(2) s(1) i by (metis le_neq_implies_less)
    then show ?thesis
      using Cons.prems callbacks_keepD(2) [OF cb] s
      by (intro Cons.IH [OF applied(3) s(2)]) (auto simp: nth_list_update)
  qed
qed

text \<open>A run that meets a step which always fails does not get past it: what every step up to it and every rollback keeps, holds at the end.\<close>

lemma run_blocked:
  assumes "run env pl cb w = (r, w')" "I w" "callbacks_keep cb I" "k < length (plan_steps pl)"
    and "\<And>j w w' e. j \<le> k \<Longrightarrow> I w \<Longrightarrow> safe_apply Caller (plan_steps pl ! j) w = (w', e) \<Longrightarrow> I w' \<and> (j = k \<longrightarrow> e \<noteq> None)"
    and "\<And>j w. j < k \<Longrightarrow> I w \<Longrightarrow> I (fst (safe_rollback Detached (plan_steps pl ! j) w))"
  shows "I w' \<and> res_final_error r \<noteq> None"
proof -
  have "run_loop env cb pl (clock env w) 0 (plan_steps pl) (initial_results (plan_steps pl)) w = (r, w')"
    using assms(1) by (simp add: run_def)
  from run_loop_blocked [where I = I and k = k, OF assms(3,4,5,6) this] assms(2) show ?thesis
    by (simp add: initial_results_def)
qed

text \<open>What every step, every rollback and every callback keeps, a run keeps.\<close>

lemma run_loop_keeps:
  assumes cb: "callbacks_keep cb I"
    and st: "\<And>c st w. st \<in> set (plan_steps pl) \<Longrightarrow> I w \<Longrightarrow> I (fst (safe_apply c st w)) \<and> I (fst (safe_rollback c st w))"
  shows "run_loop env cb pl t0 i ss rs w = (r, w') \<Longrightarrow> set ss \<subseteq> set (plan_steps pl) \<Longrightarrow> I w \<Longrightarrow>
    i + length ss = length (plan_steps pl) \<Longrightarrow> I w'"
proof (induction ss arbitrary: i rs w)
  case Nil
  have undo: "\<And>j w. j < length (plan_steps pl) \<Longrightarrow> I w \<Longrightarrow> I (fst (safe_rollback Detached (plan_steps pl ! j) w))"
    using st nth_mem by blast
  have le: "past_last_success rs (length (plan_steps pl)) \<le> length (plan_steps pl)"
    by (rule past_last_success_le) simp
  show ?case
  proof (cases "ctx_err env w")
    case None
    then show ?thesis using Nil finish_run_keeps [OF _ cb] by auto
  next
    case (Some e)
    obtain rb rs2 w4 where rb: "rollback_prior cb (plan_steps pl) (past_last_success rs (length (plan_steps pl))) rs w = (rb, rs2, w4)"
      by (metis prod_cases3)
    then have "finish_run env cb pl t0 rb (Some e) rs2 w4 = (r, w')" using Nil.prems(1) Some by simp
    moreover have "I w4" by (rule rollback_prior_keeps [OF cb undo rb le Nil.prems(3)])
    ultimately show ?thesis using finish_run_keeps [OF _ cb] by blast
  qed
next
  case (Cons s ss)
  have undo: "\<And>j w. j < length (plan_steps pl) \<Longrightarrow> I w \<Longrightarrow> I (fst (safe_rollback Detached (plan_steps pl ! j) w))"
    using st nth_mem by blast
  have s: "s \<in> set (plan_steps pl)" using Cons.prems(2) by simp
  from Cons.prems(1) show ?case
  proof (cases rule: run_loop_turn)
    case (cancelled e rs')
    from Cons.IH [OF cancelled(2)] Cons.prems show ?thesis by simp
  next
    case (failed e v sr sr' w2 rb rs2 w4)
    have "I w2" using st [OF s callbacks_keepD(1) [OF cb Cons.prems(3)]] failed(2) by (metis fst_conv)
    from rollback_prior_keeps [OF cb undo failed(3) _ callbacks_keepD(2) [OF cb this]] Cons.prems(4) have "I w4" by simp
    with finish_run_keeps [OF failed(4) cb] show ?thesis by simp
  next
    case (applied v sr w2)
    have "I w2" using st [OF s callbacks_keepD(1) [OF cb Cons.prems(3)]] applied(2) by (metis fst_conv)
    from Cons.IH [OF applied(3) _ callbacks_keepD(2) [OF cb this]] Cons.prems show ?thesis by simp
  qed
qed

lemma run_keeps:
  assumes "run env pl cb w = (r, w')" "callbacks_keep cb I" "I w"
    and "\<And>c st w. st \<in> set (plan_steps pl) \<Longrightarrow> I w \<Longrightarrow> I (fst (safe_apply c st w)) \<and> I (fst (safe_rollback c st w))"
  shows "I w'"
proof -
  have "run_loop env cb pl (clock env w) 0 (plan_steps pl) (initial_results (plan_steps pl)) w = (r, w')"
    using assms(1) by (simp add: run_def)
  from run_loop_keeps [where I = I, OF assms(2,4) this] assms(3) show ?thesis by simp
qed

text \<open>When nothing cancels the plan and every step succeeds in every world, the run ends without an error.\<close>

lemma run_loop_succeeds:
  assumes "\<And>w. ctx_err env w = None"
  shows "run_loop env cb pl t0 i ss rs w = (r, w') \<Longrightarrow> \<forall>st\<in>set ss. \<forall>w. snd (safe_apply Caller st w) = None \<Longrightarrow>
    res_final_error r = None"
proof (induction ss arbitrary: i rs w)
  case Nil
  then show ?case using assms by (auto simp: finish_run_def Let_def)
next
  case (Cons s ss)
  from Cons.prems(1) show ?case
  proof (cases rule: run_loop_turn)
    case (failed e v sr sr' w2 rb rs2 w4)
    then show ?thesis using Cons.prems(2) by (metis list.set_intros(1) option.distinct(1) snd_conv)
  qed (use assms Cons in auto)
qed

lemma run_succeeds:
  assumes "run env pl cb w = (r, w')" "\<And>w. ctx_err env w = None" "\<forall>st\<in>set (plan_steps pl). \<forall>w. snd (safe_apply Caller st w) = None"
  shows "res_final_error r = None"
  using run_loop_succeeds [OF assms(2) _ assms(3)] assms(1) by (auto simp: run_def)

end
