(* ===== verification/Host_Files.thy ===== *)
theory Host_Files
  imports Go_Net
begin

text \<open>
  Files of the host as the code sees them: the \<^verbatim>\<open>path/filepath\<close> functions it calls (on a system with slashes), the calls
  of the \<^verbatim>\<open>os\<close> package on a map from paths to contents, any of which may fail, and \<^verbatim>\<open>internal/genmark\<close>: the marker
  of generated files and the writes that go through a temporary file. Whatever fails, and wherever a crash stops the
  writer, the destination holds its old content or the new one.
\<close>

section \<open>Paths\<close>

definition is_slash :: "char \<Rightarrow> bool" where "is_slash c \<longleftrightarrow> c = CHR ''/''"

definition rooted :: "string \<Rightarrow> bool" where "rooted p \<longleftrightarrow> p \<noteq> [] \<and> is_slash (hd p)"

text \<open>\<^verbatim>\<open>filepath.Clean\<close>: \<open>acc\<close> holds the elements kept so far, the last first.\<close>

fun clean_elements :: "bool \<Rightarrow> string list \<Rightarrow> string list \<Rightarrow> string list" where
  "clean_elements root acc [] = rev acc"
| "clean_elements root acc (x # xs) =
     (if x = [] \<or> x = ''.'' then clean_elements root acc xs
      else if x = ''..'' then
        (case acc of
           a # as \<Rightarrow> if a = ''..'' then clean_elements root (''..'' # acc) xs else clean_elements root as xs
         | [] \<Rightarrow> clean_elements root (if root then [] else [''..'']) xs)
      else clean_elements root (x # acc) xs)"

definition path_clean :: "string \<Rightarrow> string" where
  "path_clean p =
     (let q = (if rooted p then ''/'' else []) @ join ''/'' (clean_elements (rooted p) [] (split_on CHR ''/'' p))
      in if q = [] then ''.'' else q)"

definition path_join :: "string list \<Rightarrow> string" where
  "path_join ps =
     (case dropWhile (\<lambda>p. p = []) ps of [] \<Rightarrow> [] | q # qs \<Rightarrow> path_clean (join ''/'' (filter (\<lambda>p. p \<noteq> []) (q # qs))))"

definition path_dir :: "string \<Rightarrow> string" where
  "path_dir p = path_clean (rev (dropWhile (\<lambda>c. \<not> is_slash c) (rev p)))"

definition path_base :: "string \<Rightarrow> string" where
  "path_base p =
     (if p = [] then ''.''
      else let q = trim_right is_slash p
           in if q = [] then ''/'' else rev (takeWhile (\<lambda>c. \<not> is_slash c) (rev q)))"

definition path_abs :: "string \<Rightarrow> string \<Rightarrow> string" where
  "path_abs cwd p = (if rooted p then path_clean p else path_join [cwd, p])"

section \<open>Calls of the operating system\<close>

datatype file_error = NotExist | FileError go_error

record 'x host =
  ho_files :: "string \<rightharpoonup> string"
  ho_rest :: 'x

text \<open>
  \<open>os_fail\<close> decides whether a call on a path fails, \<open>os_torn\<close> what a failed write leaves in the file and \<open>os_rand\<close> the
  number \<^verbatim>\<open>os.CreateTemp\<close> puts into a name.
\<close>

record 'x os =
  os_fail :: "string \<Rightarrow> string \<Rightarrow> 'x host \<Rightarrow> go_error option"
  os_torn :: "string \<Rightarrow> 'x host \<Rightarrow> string"
  os_rand :: "'x host \<Rightarrow> nat"

definition put_file :: "string \<Rightarrow> string \<Rightarrow> 'x host \<Rightarrow> 'x host" where
  "put_file p b w = w\<lparr>ho_files := (ho_files w)(p \<mapsto> b)\<rparr>"

definition drop_file :: "string \<Rightarrow> 'x host \<Rightarrow> 'x host" where
  "drop_file p w = w\<lparr>ho_files := (ho_files w)(p := None)\<rparr>"

definition os_call :: "'x os \<Rightarrow> string \<Rightarrow> string \<Rightarrow> 'x host \<Rightarrow> go_error option \<times> 'x host" where
  "os_call fs op p w = (os_fail fs op p w, w)"

definition os_read_file :: "'x os \<Rightarrow> string \<Rightarrow> 'x host \<Rightarrow> file_error + string" where
  "os_read_file fs p w =
     (case os_fail fs ''read'' p w of
        Some e \<Rightarrow> Inl (FileError e)
      | None \<Rightarrow> (case ho_files w p of None \<Rightarrow> Inl NotExist | Some b \<Rightarrow> Inr b))"

definition os_write :: "'x os \<Rightarrow> string \<Rightarrow> string \<Rightarrow> 'x host \<Rightarrow> go_error option \<times> 'x host" where
  "os_write fs p b w =
     (case os_fail fs ''write'' p w of
        Some e \<Rightarrow> (Some e, put_file p (os_torn fs p w) w)
      | None \<Rightarrow> (None, put_file p b w))"

definition os_remove :: "'x os \<Rightarrow> string \<Rightarrow> 'x host \<Rightarrow> file_error option \<times> 'x host" where
  "os_remove fs p w =
     (case os_fail fs ''remove'' p w of
        Some e \<Rightarrow> (Some (FileError e), w)
      | None \<Rightarrow> if ho_files w p = None then (Some NotExist, w) else (None, drop_file p w))"

definition os_rename :: "'x os \<Rightarrow> string \<Rightarrow> string \<Rightarrow> 'x host \<Rightarrow> go_error option \<times> 'x host" where
  "os_rename fs p q w =
     (case os_fail fs ''rename'' p w of
        Some e \<Rightarrow> (Some e, w)
      | None \<Rightarrow>
          (case ho_files w p of
             None \<Rightarrow> (Some ''no such file or directory'', w)
           | Some b \<Rightarrow> (None, put_file q b (drop_file p w))))"

text \<open>\<^verbatim>\<open>os.CreateTemp\<close> opens a file that did not exist.\<close>

definition temp_name :: "string \<Rightarrow> string \<Rightarrow> string \<Rightarrow> nat \<Rightarrow> string" where
  "temp_name dir pre post n = path_join [dir, pre @ nat_digits n @ post]"

definition os_create_temp :: "'x os \<Rightarrow> string \<Rightarrow> string \<Rightarrow> string \<Rightarrow> 'x host \<Rightarrow> (go_error + string) \<times> 'x host" where
  "os_create_temp fs dir pre post w =
     (let tmp = temp_name dir pre post (os_rand fs w)
      in case os_fail fs ''create'' tmp w of
           Some e \<Rightarrow> (Inl e, w)
         | None \<Rightarrow> if ho_files w tmp \<noteq> None then (Inl ''file exists'', w) else (Inr tmp, put_file tmp [] w))"

section \<open>Through a temporary file\<close>

text \<open>The calls on a temporary file in order, each with the label of its error; a failed one removes the file.\<close>

type_synonym 'x stage = "string \<times> ('x host \<Rightarrow> go_error option \<times> 'x host)"

fun temp_stages :: "'x os \<Rightarrow> string \<Rightarrow> 'x stage list \<Rightarrow> 'x host \<Rightarrow> go_error option \<times> 'x host" where
  "temp_stages fs tmp [] w = (None, w)"
| "temp_stages fs tmp ((l, f) # gs) w =
     (case f w of
        (Some e, w) \<Rightarrow> (Some (l @ e), snd (os_remove fs tmp w))
      | (None, w) \<Rightarrow> temp_stages fs tmp gs w)"

text \<open>A crash after some of the calls: nothing cleans up.\<close>

fun crashed :: "'x stage list \<Rightarrow> 'x host \<Rightarrow> 'x host" where
  "crashed [] w = w"
| "crashed ((l, f) # gs) w = (case f w of (Some _, w) \<Rightarrow> w | (None, w) \<Rightarrow> crashed gs w)"

section \<open>Generated files\<close>

definition gen_marker :: string where "gen_marker = ''locorum-generated''"

definition peek_bytes :: nat where "peek_bytes = 4096"

definition em_dash :: string where "em_dash = map char_of [226, 128, 148 :: nat]"

definition gen_header :: "string \<Rightarrow> string" where
  "gen_header style =
     (let s = (if style = [] then ''#'' else style)
      in s @ '' locorum-generated '' @ em_dash @ '' DO NOT EDIT.\<newline>'' @ s @
         '' Remove this line to take ownership; Locorum will then leave this file alone.\<newline>\<newline>'')"

definition has_marker :: "string \<Rightarrow> bool" where
  "has_marker body \<longleftrightarrow> body \<noteq> [] \<and> contains (take peek_bytes body) gen_marker"

definition has_marker_file :: "'x os \<Rightarrow> string \<Rightarrow> 'x host \<Rightarrow> go_error + bool" where
  "has_marker_file fs p w =
     (case os_read_file fs p w of
        Inl NotExist \<Rightarrow> Inr False
      | Inl (FileError e) \<Rightarrow> Inl e
      | Inr b \<Rightarrow> Inr (has_marker (take peek_bytes b)))"

definition write_stages :: "'x os \<Rightarrow> string \<Rightarrow> string \<Rightarrow> string \<Rightarrow> 'x stage list" where
  "write_stages fs tmp p data =
     [(''genmark: write temp: '', os_write fs tmp data), (''genmark: sync temp: '', os_call fs ''sync'' tmp),
      (''genmark: close temp: '', os_call fs ''close'' tmp), (''genmark: chmod temp: '', os_call fs ''chmod'' tmp),
      (''genmark: rename: '', os_rename fs tmp p)]"

definition write_atomic_no_check :: "'x os \<Rightarrow> string \<Rightarrow> string \<Rightarrow> 'x host \<Rightarrow> go_error option \<times> 'x host" where
  "write_atomic_no_check fs p data w =
     (let dir = path_dir p
      in case os_call fs ''mkdir'' dir w of
           (Some e, w) \<Rightarrow> (Some (''genmark: ensure parent dir '' @ quoted dir @ '': '' @ e), w)
         | (None, w) \<Rightarrow>
             (case os_create_temp fs dir (''.'' @ path_base p @ ''.tmp-'') [] w of
                (Inl e, w) \<Rightarrow> (Some (''genmark: create temp in '' @ quoted dir @ '': '' @ e), w)
              | (Inr tmp, w) \<Rightarrow> temp_stages fs tmp (write_stages fs tmp p data) w))"

definition write_atomic :: "'x os \<Rightarrow> string \<Rightarrow> string \<Rightarrow> 'x host \<Rightarrow> go_error option \<times> 'x host" where
  "write_atomic fs p data w =
     (if os_read_file fs p w = Inr data then (None, w) else write_atomic_no_check fs p data w)"

datatype write_error = UserOwned | WriteError go_error

definition write_if_managed :: "'x os \<Rightarrow> string \<Rightarrow> string \<Rightarrow> 'x host \<Rightarrow> write_error option \<times> 'x host" where
  "write_if_managed fs p data w =
     (case os_read_file fs p w of
        Inl NotExist \<Rightarrow> map_prod (map_option WriteError) id (write_atomic fs p data w)
      | Inl (FileError e) \<Rightarrow> (Some (WriteError (''genmark: read existing '' @ quoted p @ '': '' @ e)), w)
      | Inr old \<Rightarrow>
          if old = data then (None, w)
          else if \<not> has_marker old then (Some UserOwned, w)
          else map_prod (map_option WriteError) id (write_atomic_no_check fs p data w))"

section \<open>The temporary file is another file\<close>

lemma path_clean_nonempty: "path_clean p \<noteq> []" by (simp add: path_clean_def Let_def)

lemma clean_elements_snoc:
  "x \<noteq> [] \<Longrightarrow> x \<noteq> ''.'' \<Longrightarrow> x \<noteq> ''..'' \<Longrightarrow> clean_elements root acc (xs @ [x]) = clean_elements root acc xs @ [x]"
  by (induction root acc xs rule: clean_elements.induct) (auto split: list.splits)

lemma join_snoc: "join sep (xs @ [x]) = (if xs = [] then x else join sep xs @ sep @ x)"
  by (induction sep xs rule: join.induct) simp_all

lemma split_on_snoc: "c \<notin> set x \<Longrightarrow> split_on c (p @ c # x) = split_on c p @ [x]"
  by (induction p) (auto simp: split_on_free split: list.splits)

lemma path_join_file:
  assumes "d \<noteq> []" "CHR ''/'' \<notin> set x" "x \<noteq> []" "x \<noteq> ''.''" "x \<noteq> ''..''"
  obtains u where "path_join [d, x] = u @ x" "u = [] \<or> last u = CHR ''/''"
proof -
  let ?q = "d @ CHR ''/'' # x"
  have j: "path_join [d, x] = path_clean ?q" using assms(1,3) by (simp add: path_join_def)
  have r: "rooted ?q = rooted d" using assms(1) by (simp add: rooted_def)
  have c: "path_clean ?q = (if rooted d then ''/'' else []) @ join ''/'' (clean_elements (rooted d) [] (split_on CHR ''/'' d) @ [x])"
    using assms(3) by (simp add: path_clean_def Let_def r split_on_snoc [OF assms(2)] clean_elements_snoc [OF assms(3-5)] join_snoc)
  show thesis
  proof (rule that)
    let ?es = "clean_elements (rooted d) [] (split_on CHR ''/'' d)"
    show "path_join [d, x] = ((if rooted d then ''/'' else []) @ (if ?es = [] then [] else join ''/'' ?es @ ''/'')) @ x"
      unfolding j c join_snoc by simp
  qed auto
qed

lemma path_base_file:
  assumes "CHR ''/'' \<notin> set x" "x \<noteq> []" "u = [] \<or> last u = CHR ''/''"
  shows "path_base (u @ x) = x"
proof -
  have "\<not> is_slash (last (u @ x))" using assms(1,2) last_in_set [of x] by (metis is_slash_def last_appendR)
  then have t: "trim_right is_slash (u @ x) = u @ x" by (rule trim_right_id [OF disjI2])
  have "takeWhile (\<lambda>c. \<not> is_slash c) (rev x @ rev u) = rev x"
  proof -
    have "\<forall>c\<in>set (rev x). \<not> is_slash c" using assms(1) by (auto simp: is_slash_def)
    moreover have "takeWhile (\<lambda>c. \<not> is_slash c) (rev u) = []" using assms(3) by (cases u rule: rev_cases) (auto simp: is_slash_def)
    ultimately show ?thesis by (subst takeWhile_append2) auto
  qed
  then show ?thesis using assms(2) by (simp add: path_base_def t Let_def)
qed

lemma base_no_slash: "path_base p \<noteq> ''/'' \<Longrightarrow> CHR ''/'' \<notin> set (path_base p)"
  by (auto simp: path_base_def Let_def is_slash_def dest: set_takeWhileD split: if_splits)

lemma digits_no_slash: "CHR ''/'' \<notin> set (nat_digits n)"
  using nat_digits_props [of n] by (auto simp: list_all_iff is_digit_def)

lemma temp_is_other:
  assumes "d \<noteq> []" "path_base p \<noteq> ''/''"
  shows "temp_name d (''.'' @ path_base p @ ''.tmp-'') [] n \<noteq> p"
proof
  assume eq: "temp_name d (''.'' @ path_base p @ ''.tmp-'') [] n = p"
  let ?x = "''.'' @ path_base p @ ''.tmp-'' @ nat_digits n"
  have x: "CHR ''/'' \<notin> set ?x" using base_no_slash [OF assms(2)] digits_no_slash by simp
  have ne: "?x \<noteq> []" "?x \<noteq> ''.''" "?x \<noteq> ''..''" by simp_all
  obtain u where u: "path_join [d, ?x] = u @ ?x" "u = [] \<or> last u = CHR ''/''" using path_join_file [OF assms(1) x ne] .
  have "path_base p = ?x" using path_base_file [OF x ne(1) u(2)] u(1) eq by (simp add: temp_name_def)
  from arg_cong [OF this, of length] show False by simp
qed

section \<open>What a write changes\<close>

lemma file_simps [simp]:
  "ho_files (put_file p b w) = (ho_files w)(p \<mapsto> b)" "ho_files (drop_file p w) = (ho_files w)(p := None)"
  "ho_rest (put_file p b w) = ho_rest w" "ho_rest (drop_file p w) = ho_rest w"
  by (simp_all add: put_file_def drop_file_def)

lemmas os_defs = os_call_def os_write_def os_remove_def os_rename_def

text \<open>All but the temporary file and the destination stays, and the destination has its old content or the new one.\<close>

definition replaces :: "string \<Rightarrow> string \<Rightarrow> string \<Rightarrow> 'x host \<Rightarrow> 'x host \<Rightarrow> bool" where
  "replaces tmp p data w w' \<longleftrightarrow>
     (\<forall>q. q \<noteq> tmp \<and> q \<noteq> p \<longrightarrow> ho_files w' q = ho_files w q) \<and>
     (ho_files w' p = ho_files w p \<or> ho_files w' p = Some data) \<and> ho_rest w' = ho_rest w"

lemma write_stages_crash:
  "tmp \<noteq> p \<Longrightarrow> replaces tmp p data w (crashed (take k (write_stages fs tmp p data)) w)"
  by (auto simp: replaces_def write_stages_def os_defs take_Cons split: option.splits nat.splits)

lemma write_stages_run:
  assumes "tmp \<noteq> p" "temp_stages fs tmp (write_stages fs tmp p data) w = (e, w')"
  shows "replaces tmp p data w w' \<and> (if e = None then ho_files w' p = Some data else ho_files w' p = ho_files w p)"
  using assms by (auto simp: replaces_def write_stages_def os_defs split: option.splits if_splits)

definition overwrites :: "string \<Rightarrow> string \<Rightarrow> bool \<Rightarrow> 'x host \<Rightarrow> 'x host \<Rightarrow> bool" where
  "overwrites p data ok w w' \<longleftrightarrow>
     (\<forall>q b. q \<noteq> p \<and> ho_files w q = Some b \<longrightarrow> ho_files w' q = Some b) \<and>
     ho_files w' p = (if ok then Some data else ho_files w p) \<and> ho_rest w' = ho_rest w"

lemma replaces_overwrites:
  assumes "tmp \<noteq> p" "ho_files w tmp = None" "replaces tmp p data (put_file tmp c w) w'"
    "if ok then ho_files w' p = Some data else ho_files w' p = ho_files (put_file tmp c w) p"
  shows "overwrites p data ok w w'"
proof -
  have "ho_files w' q = Some b" if "q \<noteq> p" "ho_files w q = Some b" for q b
  proof -
    have "q \<noteq> tmp" using that(2) assms(2) by auto
    then show ?thesis using assms(3) that by (simp add: replaces_def)
  qed
  then show ?thesis using assms by (simp add: overwrites_def replaces_def split: if_splits)
qed

lemma write_no_check_overwrites:
  assumes "path_base p \<noteq> ''/''" "write_atomic_no_check fs p data w = (e, w')"
  shows "overwrites p data (e = None) w w'"
proof -
  let ?dir = "path_dir p"
  let ?tmp = "temp_name ?dir (''.'' @ path_base p @ ''.tmp-'') [] (os_rand fs w)"
  have dir: "?dir \<noteq> []" by (simp add: path_dir_def path_clean_nonempty)
  note tmp = temp_is_other [OF dir assms(1), of "os_rand fs w"]
  show ?thesis
  proof (cases "os_fail fs ''mkdir'' ?dir w = None \<and> os_fail fs ''create'' ?tmp w = None \<and> ho_files w ?tmp = None")
    case True
    then have "temp_stages fs ?tmp (write_stages fs ?tmp p data) (put_file ?tmp [] w) = (e, w')"
      using assms(2) by (simp add: write_atomic_no_check_def os_call_def os_create_temp_def Let_def)
    from write_stages_run [OF tmp this] show ?thesis
      by (intro replaces_overwrites [OF tmp, where c = "[]"]) (use True in \<open>simp_all split: if_splits\<close>)
  next
    case False
    then have "e \<noteq> None \<and> w' = w"
      using assms(2) by (auto simp: write_atomic_no_check_def os_call_def os_create_temp_def Let_def split: option.splits if_splits)
    then show ?thesis by (auto simp: overwrites_def)
  qed
qed

lemma write_atomic_overwrites:
  "path_base p \<noteq> ''/'' \<Longrightarrow> write_atomic fs p data w = (e, w') \<Longrightarrow> overwrites p data (e = None) w w'"
  using write_no_check_overwrites [of p fs data w e w']
  by (auto simp: write_atomic_def overwrites_def os_read_file_def split: if_splits option.splits)

lemma write_managed_cases:
  assumes "path_base p \<noteq> ''/''" "write_if_managed fs p data w = (e, w')"
  shows "overwrites p data (e = None) w w'"
    "ho_files w p = Some b \<Longrightarrow> \<not> has_marker b \<Longrightarrow> w' = w \<and> (e = None \<longrightarrow> b = data)"
proof -
  note r = assms(2) [unfolded write_if_managed_def]
  have lift: "overwrites p data (e = None) w w'"
    if "map_prod (map_option WriteError) id q = (e, w')" "overwrites p data (fst q = None) w (snd q)" for q
    using that by (cases q) auto
  have same: "overwrites p data (e = None) w w'" if "w' = w" "e = None \<longrightarrow> ho_files w p = Some data"
    using that by (auto simp: overwrites_def)
  show "overwrites p data (e = None) w w'"
  proof (cases "os_read_file fs p w")
    case (Inl x)
    show ?thesis
    proof (cases x)
      case NotExist
      show ?thesis
        by (rule lift [of "write_atomic fs p data w"], use r Inl NotExist in simp)
          (rule write_atomic_overwrites [OF assms(1) prod.collapse [symmetric]])
    next
      case (FileError y)
      then show ?thesis using r Inl same by auto
    qed
  next
    case (Inr old)
    then have old: "ho_files w p = Some old" by (auto simp: os_read_file_def split: option.splits)
    show ?thesis
    proof (cases "old = data \<or> \<not> has_marker old")
      case True
      then show ?thesis using r Inr old same by (auto split: if_splits)
    next
      case False
      show ?thesis
        by (rule lift [of "write_atomic_no_check fs p data w"], use r Inr False in simp)
          (rule write_no_check_overwrites [OF assms(1) prod.collapse [symmetric]])
    qed
  qed
  show "ho_files w p = Some b \<Longrightarrow> \<not> has_marker b \<Longrightarrow> w' = w \<and> (e = None \<longrightarrow> b = data)"
    using assms(2) by (auto simp: write_if_managed_def os_read_file_def split: sum.splits file_error.splits option.splits if_splits)
qed

text \<open>
  C18. A write of a managed file changes no other file that was there; the file itself has the new content after a success and
  its old one after an error; and a file without the marker is the user's: it stays as it is, and no error means it already
  had the content.
\<close>

theorem managed_write_respects_the_user:
  assumes "path_base p \<noteq> ''/''" "write_if_managed fs p data w = (e, w')"
  shows "(\<forall>q b. q \<noteq> p \<and> ho_files w q = Some b \<longrightarrow> ho_files w' q = Some b) \<and>
    ho_files w' p = (if e = None then Some data else ho_files w p) \<and>
    (\<forall>b. ho_files w p = Some b \<and> \<not> has_marker b \<longrightarrow> w' = w \<and> (e = None \<longrightarrow> b = data))"
  using write_managed_cases [OF assms] by (auto simp: overwrites_def)

lemma managed_write_respects_the_user_witness:
  "\<exists>fs :: unit os. \<exists>w w'. write_if_managed fs ''/a/b'' ''new'' w = (Some UserOwned, w') \<and> ho_files w' ''/a/b'' = Some ''mine''"
proof -
  let ?fs = "\<lparr>os_fail = (\<lambda>op p h. None), os_torn = (\<lambda>p h. []), os_rand = (\<lambda>h. 7)\<rparr> :: unit os"
  let ?w = "\<lparr>ho_files = [''/a/b'' \<mapsto> ''mine''], ho_rest = ()\<rparr>"
  have b: "path_base ''/a/b'' \<noteq> ''/''" by code_simp
  have m: "\<not> has_marker ''mine''" by code_simp
  have r: "write_if_managed ?fs ''/a/b'' ''new'' ?w = (Some UserOwned, ?w)"
    using m by (simp add: write_if_managed_def os_read_file_def)
  have "ho_files ?w ''/a/b'' = Some ''mine''" using managed_write_respects_the_user [OF b r] by simp
  with r show ?thesis by blast
qed

end
