(* ===== verification/Site_Plans.thy ===== *)
theory Site_Plans
  imports Docker_Fake Db_Engine Site_Lan Plan_Logic Host_Files
begin

text \<open>
  The steps of \<^verbatim>\<open>internal/sites/sitesteps\<close> beside the container groups (\<^verbatim>\<open>sitesteps.go\<close>, \<^verbatim>\<open>marker.go\<close>, \<^verbatim>\<open>spx.go\<close>,
  \<^verbatim>\<open>worktree.go\<close>, \<^verbatim>\<open>helpers.go\<close>), their previews (\<^verbatim>\<open>describe.go\<close>), and the plans \<^verbatim>\<open>sites.go\<close> makes of them for the start, the
  stop and the deletion of a site. The engine, the router, git and the file system are operations of a record; those of
  \<^verbatim>\<open>ensureWordPress\<close>, \<^verbatim>\<open>EnsureWPConfig\<close>, \<^verbatim>\<open>installAutoLoginPlugin\<close> and \<^verbatim>\<open>generateWebServerConfig\<close> are given as they are.
\<close>

section \<open>What the steps call\<close>


record 'w services =
  sv_rt :: "'w runtime"
  sv_ensure_network :: "network_spec \<Rightarrow> 'w \<Rightarrow> (go_error + string) \<times> 'w"
  sv_ensure_volume :: "volume_spec \<Rightarrow> 'w \<Rightarrow> (go_error + string) \<times> 'w"
  sv_remove_networks :: "labels \<Rightarrow> 'w \<Rightarrow> go_error option \<times> 'w"
  sv_remove_volumes :: "labels \<Rightarrow> 'w \<Rightarrow> go_error option \<times> 'w"
  sv_chown_volume :: "string \<Rightarrow> int \<Rightarrow> int \<Rightarrow> 'w \<Rightarrow> go_error option \<times> 'w"
  sv_chown_path :: "string \<Rightarrow> int \<Rightarrow> int \<Rightarrow> 'w \<Rightarrow> go_error option \<times> 'w"
  sv_one_shot :: "string \<Rightarrow> string \<Rightarrow> string list \<Rightarrow> one_shot_mount list \<Rightarrow> 'w \<Rightarrow> (one_shot_result \<times> go_error option) \<times> 'w"
  sv_exec :: "string \<Rightarrow> string list \<Rightarrow> string \<Rightarrow> 'w \<Rightarrow> (go_error + int \<times> string) \<times> 'w"
  sv_upsert_route :: "site_route \<Rightarrow> 'w \<Rightarrow> go_error option \<times> 'w"
  sv_remove_route :: "string \<Rightarrow> 'w \<Rightarrow> go_error option \<times> 'w"
  sv_remove_file :: "string \<Rightarrow> 'w \<Rightarrow> file_error option \<times> 'w"
  sv_mkdir :: "string \<Rightarrow> 'w \<Rightarrow> go_error option \<times> 'w"
  sv_write_file :: "string \<Rightarrow> string \<Rightarrow> 'w \<Rightarrow> go_error option \<times> 'w"
  sv_path_exists :: "string \<Rightarrow> 'w \<Rightarrow> bool"
  sv_worktree_remove :: "string \<Rightarrow> string \<Rightarrow> bool \<Rightarrow> 'w \<Rightarrow> go_error option \<times> 'w"
  sv_worktree_add :: "string \<Rightarrow> string \<Rightarrow> string \<Rightarrow> 'w \<Rightarrow> go_error option \<times> 'w"
  sv_ensure_repo :: "string \<Rightarrow> string \<Rightarrow> 'w \<Rightarrow> go_error option \<times> 'w"
  sv_dirty :: "string \<Rightarrow> 'w \<Rightarrow> bool \<times> 'w"
  sv_ensure_wordpress :: "site \<Rightarrow> 'w \<Rightarrow> go_error option \<times> 'w"
  sv_ensure_wp_config :: "site \<Rightarrow> 'w \<Rightarrow> go_error option \<times> 'w"
  sv_install_autologin :: "site \<Rightarrow> 'w \<Rightarrow> go_error option \<times> 'w"
  sv_generate_config :: "site \<Rightarrow> 'w \<Rightarrow> go_error option \<times> 'w"
  sv_snapshot :: "site \<Rightarrow> string \<Rightarrow> 'w \<Rightarrow> (go_error + string) \<times> 'w"
  sv_dir :: "string \<Rightarrow> string"
  sv_env :: spec_env
  sv_home :: string
  sv_dec_marker :: "string \<Rightarrow> go_error + volume_marker"
  sv_enc_marker :: "volume_marker \<Rightarrow> string"
  sv_now :: "'w \<Rightarrow> gtime"

section \<open>The steps\<close>

text \<open>An operation as the body of a step, and a step without an undo.\<close>

definition act :: "('w \<Rightarrow> go_error option \<times> 'w) \<Rightarrow> ctx \<Rightarrow> 'w \<Rightarrow> 'w \<times> go_error option" where
  "act f c w = (case f w of (e, w') \<Rightarrow> (w', e))"

definition plain_step :: "string \<Rightarrow> ('w \<Rightarrow> go_error option \<times> 'w) \<Rightarrow> 'w step" where
  "plain_step name f = func_step name (Some (act f)) None"

definition forget :: "(go_error + 'a) \<times> 'w \<Rightarrow> go_error option \<times> 'w" where
  "forget r = (case r of (Inl e, w) \<Rightarrow> (Some e, w) | (Inr _, w) \<Rightarrow> (None, w))"

text \<open>Two operations in sequence, the second only if the first returns no error.\<close>

definition and_then :: "('w \<Rightarrow> go_error option \<times> 'w) \<Rightarrow> ('w \<Rightarrow> go_error option \<times> 'w) \<Rightarrow> 'w \<Rightarrow> go_error option \<times> 'w" where
  "and_then f g w = (case f w of (Some e, w') \<Rightarrow> (Some e, w') | (None, w') \<Rightarrow> g w')"

definition role_labels :: "string \<Rightarrow> string \<Rightarrow> labels" where
  "role_labels slug role = [(label_platform, platform_value), (label_site, slug), (label_role, role)]"

definition ensure_network_step :: "'w services \<Rightarrow> site \<Rightarrow> 'w step" where
  "ensure_network_step sv s =
     func_step ''ensure-network'' (Some (act (\<lambda>w. forget (sv_ensure_network sv (site_network_spec (sv_env sv) s) w))))
       (Some (act (sv_remove_networks sv (role_labels (site_slug s) ''site-network''))))"

definition ensure_volume_step :: "'w services \<Rightarrow> site \<Rightarrow> 'w step" where
  "ensure_volume_step sv s =
     plain_step ''ensure-volume'' (\<lambda>w. forget (sv_ensure_volume sv (site_volume_spec (sv_env sv) s) w))"

definition chown_step :: "'w services \<Rightarrow> site \<Rightarrow> 'w step" where
  "chown_step sv s =
     (case php_user_group (sv_env sv) of (uid, gid) \<Rightarrow>
        plain_step ''chown''
          (and_then (\<lambda>w. labelled ''chown db volume'' (sv_chown_volume sv (site_volume_name (site_slug s)) uid gid w))
             (\<lambda>w. labelled ''chown files dir'' (sv_chown_path sv (site_files_dir s) uid gid w))))"

definition register_routes_step :: "'w services \<Rightarrow> site_route \<Rightarrow> 'w step" where
  "register_routes_step sv r =
     func_step ''register-routes'' (Some (act (sv_upsert_route sv r))) (Some (act (sv_remove_route sv (route_slug r))))"

definition remove_routes_step :: "'w services \<Rightarrow> string \<Rightarrow> 'w step" where
  "remove_routes_step sv slug = plain_step ''remove-routes'' (sv_remove_route sv slug)"

definition remove_network_step :: "'w services \<Rightarrow> site \<Rightarrow> 'w step" where
  "remove_network_step sv s =
     plain_step ''remove-network'' (sv_remove_networks sv (role_labels (site_slug s) ''site-network''))"

fun remove_ignoring_missing :: "'w services \<Rightarrow> string list \<Rightarrow> go_error option \<Rightarrow> 'w \<Rightarrow> go_error option \<times> 'w" where
  "remove_ignoring_missing sv [] first w = (first, w)"
| "remove_ignoring_missing sv (p # ps) first w =
     (case sv_remove_file sv p w of
        (Some (FileError e), w) \<Rightarrow>
          remove_ignoring_missing sv ps (if first = None then Some (''remove '' @ p @ '': '' @ e) else first) w
      | (_, w) \<Rightarrow> remove_ignoring_missing sv ps first w)"

definition remove_site_configs_step :: "'w services \<Rightarrow> site \<Rightarrow> 'w step" where
  "remove_site_configs_step sv s =
     plain_step ''remove-site-configs''
       (remove_ignoring_missing sv
          [se_join (sv_env sv) [sv_home sv, ''.locorum'', ''config'', ''nginx'', ''sites'', site_slug s @ ''.conf''],
           se_join (sv_env sv) [sv_home sv, ''.locorum'', ''config'', ''apache'', ''sites'', site_slug s @ ''.conf''],
           spx_key_ini_path (sv_env sv) (sv_home sv) (site_slug s)] None)"

definition purge_volume_step :: "'w services \<Rightarrow> site \<Rightarrow> 'w step" where
  "purge_volume_step sv s =
     plain_step ''purge-volume'' (sv_remove_volumes sv (role_labels (site_slug s) ''database-data''))"

definition hook_step :: "string \<Rightarrow> ('w \<Rightarrow> go_error option \<times> 'w) \<Rightarrow> 'w step" where
  "hook_step label f = plain_step label f"

text \<open>\<^verbatim>\<open>spx.go\<close>: the key file is removed when profiling is off and written when it is on.\<close>

definition spx_key_body :: "site \<Rightarrow> string" where
  "spx_key_body s =
     ''; locorum-generated '' @ em_dash @ '' DO NOT EDIT.'' @ newline
       @ ''; Per-site SPX key. Regenerated on each site start.'' @ newline
       @ ''spx.http_key = '' @ site_spx_key s @ newline"

definition ensure_spx :: "'w services \<Rightarrow> site \<Rightarrow> 'w \<Rightarrow> go_error option \<times> 'w" where
  "ensure_spx sv s w =
     (let key = spx_key_ini_path (sv_env sv) (sv_home sv) (site_slug s)
      in if \<not> site_spx_enabled s
         then (case sv_remove_file sv key w of
                 (Some (FileError e), w) \<Rightarrow> (Some (''remove stale spx key file: '' @ e), w)
               | (_, w) \<Rightarrow> (None, w))
         else and_then (\<lambda>w. labelled ''ensure spx data dir''
                          (sv_mkdir sv (se_join (sv_env sv) [site_files_dir s, ''.locorum'', ''spx'']) w))
                (and_then (\<lambda>w. labelled ''ensure spx key dir'' (sv_mkdir sv (sv_dir sv key) w))
                   (\<lambda>w. labelled ''write spx key ini'' (sv_write_file sv key (spx_key_body s) w))) w)"

definition ensure_spx_step :: "'w services \<Rightarrow> site \<Rightarrow> 'w step" where
  "ensure_spx_step sv s = plain_step ''ensure-spx'' (ensure_spx sv s)"

text \<open>\<^verbatim>\<open>marker.go\<close>: only a marker that was read and decoded can refuse a start.\<close>

definition wanted_marker :: "site \<Rightarrow> volume_marker" where
  "wanted_marker s = \<lparr>vk_engine = site_db_engine s, vk_version = site_db_version s, vk_created = zero_time,
     vk_locorum_version = []\<rparr>"

definition marker_verdict :: "'w services \<Rightarrow> site \<Rightarrow> one_shot_result \<times> go_error option \<Rightarrow> go_error option" where
  "marker_verdict sv s r =
     (case r of
        (res, Some _) \<Rightarrow> None
      | (res, None) \<Rightarrow>
          (if or_exit res \<noteq> 0 then None
           else if trim_space (or_stdout res) = [] then None
           else case decode_marker (sv_dec_marker sv) (or_stdout res) of
                  Inl _ \<Rightarrow> None
                | Inr have \<Rightarrow> map_option (\<lambda>e. ''database volume engine mismatch: '' @ e)
                    (compare_marker have (wanted_marker s) (resolve_engine s))))"

definition marker_command :: string where
  "marker_command = ''f=\"/target/'' @ marker_filename @ ''\"; if [ -f \"$f\" ]; then cat \"$f\"; fi''"

definition read_marker :: "'w services \<Rightarrow> site \<Rightarrow> 'w \<Rightarrow> (one_shot_result \<times> go_error option) \<times> 'w" where
  "read_marker sv s = sv_one_shot sv (''locorum-marker-'' @ site_slug s) ''alpine:3'' [''sh'', ''-c'', marker_command]
     [\<lparr>om_volume = site_volume_name (site_slug s), om_bind = [], om_target = ''/target'', om_read_only = True\<rparr>]"

definition ensure_marker :: "'w services \<Rightarrow> site \<Rightarrow> 'w \<Rightarrow> go_error option \<times> 'w" where
  "ensure_marker sv s w =
     (case read_marker sv s w of (r, w) \<Rightarrow> (marker_verdict sv s r, w))"

definition ensure_marker_step :: "'w services \<Rightarrow> site \<Rightarrow> 'w step" where
  "ensure_marker_step sv s = plain_step ''ensure-marker'' (ensure_marker sv s)"

definition read_marker_from_container ::
  "'w services \<Rightarrow> string \<Rightarrow> engine \<Rightarrow> 'w \<Rightarrow> (go_error + volume_marker) \<times> 'w" where
  "read_marker_from_container sv name e w =
     (let path = marker_in_volume_path e
      in case sv_exec sv name [''sh'', ''-c'', ''[ -f \"'' @ path @ ''\" ] && cat \"'' @ path @ ''\"''] [] w of
           (Inl x, w) \<Rightarrow> (Inl x, w)
         | (Inr (code, out), w) \<Rightarrow>
             (if code \<noteq> 0 \<or> out = [] then Inl ''marker not present'' else decode_marker (sv_dec_marker sv) out, w))"

definition write_marker_to_container ::
  "'w services \<Rightarrow> string \<Rightarrow> engine \<Rightarrow> volume_marker \<Rightarrow> 'w \<Rightarrow> go_error option \<times> 'w" where
  "write_marker_to_container sv name e m w =
     (case encode_marker (sv_enc_marker sv) m of
        Inl x \<Rightarrow> (Some x, w)
      | Inr body \<Rightarrow>
          (case sv_exec sv name [''sh'', ''-c'', ''cat > '' @ marker_in_volume_path e] body w of
             (Inl x, w) \<Rightarrow> (Some (''write marker: '' @ x), w)
           | (Inr _, w) \<Rightarrow> (None, w)))"

definition write_marker :: "'w services \<Rightarrow> site \<Rightarrow> 'w \<Rightarrow> go_error option \<times> 'w" where
  "write_marker sv s w =
     (let e = resolve_engine s; name = site_container_name (site_slug s) ''database'';
          (old, w) = read_marker_from_container sv name e w;
          created = (case old of Inr m \<Rightarrow> if vk_created m \<noteq> zero_time then vk_created m else sv_now sv w | Inl _ \<Rightarrow> sv_now sv w);
          m = (wanted_marker s)\<lparr>vk_created := created, vk_locorum_version := se_version (sv_env sv)\<rparr>
      in (None, snd (write_marker_to_container sv name e m w)))"

definition write_marker_step :: "'w services \<Rightarrow> site \<Rightarrow> 'w step" where
  "write_marker_step sv s = plain_step ''write-marker'' (write_marker sv s)"

text \<open>\<^verbatim>\<open>worktree.go\<close>.\<close>

definition remove_worktree_step :: "'w services \<Rightarrow> string \<Rightarrow> string \<Rightarrow> bool \<Rightarrow> 'w step" where
  "remove_worktree_step sv parent path force =
     plain_step ''remove-worktree''
       (\<lambda>w. if parent = [] \<or> path = [] then (None, w)
            else if \<not> sv_path_exists sv path w then (None, w)
            else sv_worktree_remove sv parent path force w)"

definition ensure_worktree_step :: "'w services \<Rightarrow> string \<Rightarrow> string \<Rightarrow> string \<Rightarrow> 'w step" where
  "ensure_worktree_step sv parent path branch =
     func_step ''ensure-worktree''
       (Some (act (\<lambda>w. if parent = [] \<or> path = [] \<or> branch = []
                       then (Some ''ensure-worktree: ParentDir, WorktreePath, Branch required'', w)
                       else if sv_path_exists sv (se_join (sv_env sv) [path, ''.git'']) w then (None, w)
                       else and_then (\<lambda>w. labelled ''ensure-worktree: parent dir'' (sv_mkdir sv (sv_dir sv path) w))
                              (sv_worktree_add sv parent path branch) w)))
       (Some (act (\<lambda>w. if parent = [] \<or> path = [] then (None, w) else sv_worktree_remove sv parent path True w)))"

definition ensure_checkout_step :: "'w services \<Rightarrow> string \<Rightarrow> string \<Rightarrow> 'w step" where
  "ensure_checkout_step sv remote parent =
     plain_step ''ensure-checkout''
       (\<lambda>w. if remote = [] \<or> parent = [] then (Some ''ensure-checkout: Remote and ParentDir are required'', w)
            else and_then (\<lambda>w. labelled ''ensure-checkout: parent dir'' (sv_mkdir sv (sv_dir sv parent) w))
                   (sv_ensure_repo sv remote parent) w)"

section \<open>The plans\<close>

text \<open>\<open>sched\<close> gives the schedule of each group of goroutines of a plan, by its position.\<close>

definition start_steps :: "'w services \<Rightarrow> (nat \<Rightarrow> nat list) \<Rightarrow> site_route \<Rightarrow> site \<Rightarrow> 'w step list" where
  "start_steps sv sched r s =
     (let specs = service_specs (sv_env sv) (sv_home sv) s
      in [ensure_spx_step sv s,
          plain_step ''ensure-wordpress'' (sv_ensure_wordpress sv s),
          plain_step ''ensure-wp-config'' (sv_ensure_wp_config sv s),
          plain_step ''ensure-autologin-plugin'' (sv_install_autologin sv s),
          plain_step ''generate-site-config'' (sv_generate_config sv s),
          ensure_network_step sv s, ensure_volume_step sv s, ensure_marker_step sv s,
          pull_images_step (sv_rt sv) (sched 8) specs, chown_step sv s,
          create_containers_step (sv_rt sv) (sched 10) (sched 14) specs,
          wait_ready_step (sv_rt sv) (sched 11) [site_container_name (site_slug s) ''database'' \<mapsto> ready_timeout_db]
            (spec_names specs),
          write_marker_step sv s, register_routes_step sv r])"

definition start_plan :: "'w services \<Rightarrow> (nat \<Rightarrow> nat list) \<Rightarrow> site_route \<Rightarrow> site \<Rightarrow> 'w plan" where
  "start_plan sv sched r s = \<lparr>plan_name = ''start-site:'' @ site_slug s, plan_steps = start_steps sv sched r s\<rparr>"

definition site_containers :: "'w services \<Rightarrow> site \<Rightarrow> string list" where
  "site_containers sv s = spec_names (service_specs (sv_env sv) (sv_home sv) s)"

definition stop_plan :: "'w services \<Rightarrow> (nat \<Rightarrow> nat list) \<Rightarrow> site \<Rightarrow> 'w plan" where
  "stop_plan sv sched s =
     \<lparr>plan_name = ''stop-site:'' @ site_slug s,
      plan_steps = [stop_containers_step (sv_rt sv) (sched 0) (site_containers sv s), remove_routes_step sv (site_slug s)]\<rparr>"

record delete_opts =
  del_purge_volume :: bool
  del_skip_snapshot :: bool
  del_force_worktree :: bool
  del_dry_run :: bool

text \<open>The steps of a deletion, each with its preview; \<open>parent\<close> is the checkout a worktree hangs on.\<close>

definition described :: "string \<Rightarrow> 'w \<Rightarrow> describe_outcome" where "described line w = Described line None"

definition listed :: "string \<Rightarrow> string \<Rightarrow> string list \<Rightarrow> string" where
  "listed what none names = (if names = [] then none else what @ join '', '' names)"

definition delete_steps ::
  "'w services \<Rightarrow> (nat \<Rightarrow> nat list) \<Rightarrow> delete_opts \<Rightarrow> string \<Rightarrow> site \<Rightarrow> ('w step \<times> ('w \<Rightarrow> describe_outcome)) list" where
  "delete_steps sv sched opts parent s =
     (let ns = site_containers sv s
      in (if \<not> del_skip_snapshot opts \<and> site_started s
          then [(plain_step ''auto-snapshot'' (\<lambda>w. (None, snd (sv_snapshot sv s ''pre_delete'' w))), described ''auto-snapshot'')]
          else [])
         @ [(stop_containers_step (sv_rt sv) (sched 1) ns, described (listed ''stop containers: '' ''stop containers (none specified)'' ns)),
            (remove_containers_step (sv_rt sv) (sched 2) ns,
               described (listed ''remove containers: '' ''remove containers (none specified)'' ns)),
            (remove_routes_step sv (site_slug s), described (''remove router routes for '' @ site_slug s)),
            (remove_site_configs_step sv s, described (''remove generated configs for site '' @ site_slug s)),
            (remove_network_step sv s, described (''remove docker network for site '' @ site_slug s))]
         @ (if del_purge_volume opts
            then [(purge_volume_step sv s, described (''DESTROY database volume for site '' @ site_slug s @ '' (data loss!)''))]
            else [])
         @ (if site_worktree_path s \<noteq> []
            then [(remove_worktree_step sv parent (site_worktree_path s) (del_force_worktree opts),
                   described (''git worktree remove'' @ (if del_force_worktree opts then '' --force'' else []) @ '' '' @ site_worktree_path s))]
            else []))"

definition delete_plan :: "'w services \<Rightarrow> (nat \<Rightarrow> nat list) \<Rightarrow> delete_opts \<Rightarrow> string \<Rightarrow> site \<Rightarrow> 'w plan" where
  "delete_plan sv sched opts parent s =
     \<lparr>plan_name = ''delete-site:'' @ site_slug s, plan_steps = map fst (delete_steps sv sched opts parent s)\<rparr>"

definition delete_preview :: "'w services \<Rightarrow> (nat \<Rightarrow> nat list) \<Rightarrow> delete_opts \<Rightarrow> string \<Rightarrow> site \<Rightarrow> 'w dry_step list" where
  "delete_preview sv sched opts parent s =
     map (\<lambda>(st, d). \<lparr>dry_name = step_name st, dry_describer = Some d\<rparr>) (delete_steps sv sched opts parent s)"

section \<open>What the plans do to the containers\<close>

text \<open>An operation that leaves the containers alone, as far as \<open>view\<close> sees.\<close>

definition keeps :: "('w \<Rightarrow> 'v) \<Rightarrow> ('w \<Rightarrow> 'a \<times> 'w) \<Rightarrow> bool" where
  "keeps view f \<longleftrightarrow> (\<forall>w. view (snd (f w)) = view w)"

lemma keeps_comb [intro]:
  "keeps view f \<Longrightarrow> keeps view (\<lambda>w. labelled what (f w))" "keeps view g \<Longrightarrow> keeps view (\<lambda>w. forget (g w))"
  "keeps view f \<Longrightarrow> keeps view h \<Longrightarrow> keeps view (and_then f h)"
  by (auto simp: keeps_def labelled_def forget_def and_then_def split: prod.splits sum.splits option.splits) (metis snd_conv)+

text \<open>What the other services promise: only the container operations touch the containers the plan deals with.\<close>

definition services_keep :: "('w \<Rightarrow> 'v) \<Rightarrow> 'w services \<Rightarrow> bool" where
  "services_keep view sv \<longleftrightarrow>
     (\<forall>sp. keeps view (sv_ensure_network sv sp)) \<and> (\<forall>sp. keeps view (sv_ensure_volume sv sp)) \<and>
     (\<forall>ls. keeps view (sv_remove_networks sv ls)) \<and> (\<forall>ls. keeps view (sv_remove_volumes sv ls)) \<and>
     (\<forall>v u g. keeps view (sv_chown_volume sv v u g)) \<and> (\<forall>v u g. keeps view (sv_chown_path sv v u g)) \<and>
     (\<forall>n i c ms. keeps view (sv_one_shot sv n i c ms)) \<and> (\<forall>n c i. keeps view (sv_exec sv n c i)) \<and>
     (\<forall>r. keeps view (sv_upsert_route sv r)) \<and> (\<forall>r. keeps view (sv_remove_route sv r)) \<and>
     (\<forall>p. keeps view (sv_remove_file sv p)) \<and> (\<forall>p. keeps view (sv_mkdir sv p)) \<and> (\<forall>p b. keeps view (sv_write_file sv p b)) \<and>
     (\<forall>p q b. keeps view (sv_worktree_remove sv p q b)) \<and>
     (\<forall>s. keeps view (sv_ensure_wordpress sv s)) \<and> (\<forall>s. keeps view (sv_ensure_wp_config sv s)) \<and>
     (\<forall>s. keeps view (sv_install_autologin sv s)) \<and> (\<forall>s. keeps view (sv_generate_config sv s)) \<and>
     (\<forall>s l. keeps view (sv_snapshot sv s l))"

lemma plain_step_keeps:
  assumes "keeps view f"
  shows "view (fst (safe_apply c (plain_step n f) w)) = view w" "view (fst (safe_rollback c (plain_step n f) w)) = view w"
  using assms by (simp_all add: plain_step_def safe_func_step act_def keeps_def split_beta)

lemma remove_files_keeps: "(\<And>p. keeps view (sv_remove_file sv p)) \<Longrightarrow> keeps view (remove_ignoring_missing sv ps first)"
proof (induction ps arbitrary: first)
  case (Cons p ps)
  have "view (snd (remove_ignoring_missing sv (p # ps) first w)) = view w" for w
  proof -
    obtain x v where x: "sv_remove_file sv p w = (x, v)" by (cases "sv_remove_file sv p w")
    have v: "view v = view w" using Cons.prems [of p] x unfolding keeps_def by (metis snd_conv)
    show ?thesis using Cons.IH [OF Cons.prems] x v unfolding keeps_def by (simp split: option.split file_error.split)
  qed
  then show ?case by (simp add: keeps_def)
qed (simp add: keeps_def)

lemma ensure_spx_keeps: "services_keep view sv \<Longrightarrow> keeps view (ensure_spx sv s)"
proof -
  assume k: "services_keep view sv"
  let ?key = "spx_key_ini_path (sv_env sv) (sv_home sv) (site_slug s)"
  show ?thesis
  proof (cases "site_spx_enabled s")
    case True
    have "ensure_spx sv s = and_then (\<lambda>w. labelled ''ensure spx data dir''
                          (sv_mkdir sv (se_join (sv_env sv) [site_files_dir s, ''.locorum'', ''spx'']) w))
                (and_then (\<lambda>w. labelled ''ensure spx key dir'' (sv_mkdir sv (sv_dir sv ?key) w))
                   (\<lambda>w. labelled ''write spx key ini'' (sv_write_file sv ?key (spx_key_body s) w)))"
      using True by (intro ext) (simp add: ensure_spx_def Let_def)
    then show ?thesis using k by (simp add: services_keep_def keeps_comb)
  next
    case False
    have "view (snd (ensure_spx sv s w)) = view w" for w
    proof -
      obtain x v where x: "sv_remove_file sv ?key w = (x, v)" by (cases "sv_remove_file sv ?key w")
      have "view v = view w" using k x unfolding services_keep_def keeps_def by (metis snd_conv)
      then show ?thesis using False x by (simp add: ensure_spx_def split: option.split file_error.split)
    qed
    then show ?thesis by (simp add: keeps_def)
  qed
qed

lemma ensure_marker_keeps: "services_keep view sv \<Longrightarrow> keeps view (ensure_marker sv s)"
  by (simp add: services_keep_def keeps_def ensure_marker_def read_marker_def split_beta)

lemma write_marker_keeps: "services_keep view sv \<Longrightarrow> keeps view (write_marker sv s)"
proof -
  assume "services_keep view sv"
  then have e: "view (snd (sv_exec sv n c i w)) = view w" for n c i w by (simp add: services_keep_def keeps_def)
  have r: "view (snd (read_marker_from_container sv n en w)) = view w" for n en w
    using e by (simp add: read_marker_from_container_def Let_def split_beta split: sum.split)
  have "view (snd (write_marker_to_container sv n en m w)) = view w" for n en m w
    using e by (simp add: write_marker_to_container_def split_beta split: sum.split)
  with r show ?thesis by (simp add: keeps_def write_marker_def Let_def split_beta)
qed

lemma chown_keeps: "services_keep view sv \<Longrightarrow> keeps view (and_then (\<lambda>w. labelled a (sv_chown_volume sv v u g w)) (\<lambda>w. labelled b (sv_chown_path sv p u g w)))"
  by (simp add: services_keep_def keeps_comb)

lemma remove_worktree_keeps:
  "services_keep view sv \<Longrightarrow> keeps view (\<lambda>w. if parent = [] \<or> path = [] then (None, w)
     else if \<not> sv_path_exists sv path w then (None, w) else sv_worktree_remove sv parent path force w)"
  by (simp add: services_keep_def keeps_def)

lemma chown_step_eq:
  "chown_step sv s = plain_step ''chown''
     (and_then (\<lambda>w. labelled ''chown db volume'' (sv_chown_volume sv (site_volume_name (site_slug s))
          (fst (php_user_group (sv_env sv))) (snd (php_user_group (sv_env sv))) w))
        (\<lambda>w. labelled ''chown files dir'' (sv_chown_path sv (site_files_dir s)
          (fst (php_user_group (sv_env sv))) (snd (php_user_group (sv_env sv))) w)))"
  by (simp add: chown_step_def split_beta)

text \<open>The steps of the start that leave the containers alone, when they are applied and when they are rolled back.\<close>

lemma quiet_steps:
  assumes k: "services_keep view sv"
  shows "view (fst (safe_apply c (ensure_spx_step sv s) w)) = view w"
    "view (fst (safe_apply c (ensure_network_step sv s) w)) = view w"
    "view (fst (safe_apply c (ensure_volume_step sv s) w)) = view w"
    "view (fst (safe_apply c (ensure_marker_step sv s) w)) = view w"
    "view (fst (safe_apply c (chown_step sv s) w)) = view w"
    "view (fst (safe_apply c (write_marker_step sv s) w)) = view w"
    "view (fst (safe_apply c (register_routes_step sv r) w)) = view w"
    "view (fst (safe_apply c (remove_routes_step sv slug) w)) = view w"
    "view (fst (safe_apply c (remove_site_configs_step sv s) w)) = view w"
    "view (fst (safe_apply c (remove_network_step sv s) w)) = view w"
    "view (fst (safe_apply c (purge_volume_step sv s) w)) = view w"
    "view (fst (safe_apply c (remove_worktree_step sv p q b) w)) = view w"
    "view (fst (safe_rollback c (ensure_network_step sv s) w)) = view w"
  using k ensure_spx_keeps [OF k] ensure_marker_keeps [OF k] write_marker_keeps [OF k] chown_keeps [OF k] remove_worktree_keeps [OF k]
  by (simp_all add: ensure_spx_step_def ensure_volume_step_def ensure_marker_step_def chown_step_eq write_marker_step_def
      remove_routes_step_def remove_site_configs_step_def remove_network_step_def purge_volume_step_def
      remove_worktree_step_def remove_files_keeps plain_step_keeps services_keep_def keeps_comb)
    (simp_all add: ensure_network_step_def register_routes_step_def safe_func_step act_def forget_def keeps_def split_beta
      split: sum.split)

lemma nth_in_drop: "n \<le> j \<Longrightarrow> j < length xs \<Longrightarrow> xs ! j \<in> set (drop n xs)"
  using nth_mem [of "j - n" "drop n xs"] by simp

lemma service_names:
  "map cs_name (service_specs env home s) = map (site_container_name (site_slug s)) [''web'', ''php'', ''database'', ''redis'']"
  by (simp add: service_specs_def web_spec_def nginx_web_spec_def apache_web_spec_def web_server_spec_def Let_def php_spec_def
      database_spec_def redis_spec_def base_spec_def)

lemma service_names_distinct: "distinct (map cs_name (service_specs env home s))"
  unfolding service_names by (simp add: site_container_name_inj)

lemma callbacks_keep_view:
  assumes "\<And>v. callbacks_keep cb (\<lambda>w. view w = v)"
  shows "callbacks_keep cb (\<lambda>w. P (view w))"
  using assms unfolding callbacks_keep_def by metis

lemma start_steps_length: "length (start_steps sv sched r s) = 14"
  by (simp add: start_steps_def Let_def)

lemma below_14: "j < 14 \<Longrightarrow> j = 0 \<or> j = 1 \<or> j = 2 \<or> j = 3 \<or> j = 4 \<or> j = 5 \<or> j = 6 \<or> j = 7 \<or> j = 8 \<or> j = 9 \<or> j = 10
    \<or> j = 11 \<or> j = 12 \<or> j = (13::nat)"
  by presburger

context container_runtime begin

lemma pull_step_quiet: "view (fst (safe_apply c (pull_images_step rt sched specs) w)) = view w"
  using pulled [of sched specs w] by (simp add: pull_images_step_def safe_group_step split_beta) (metis prod.collapse)

lemma wait_step_quiet: "view (fst (safe_apply c (wait_ready_step rt sched ts ns) w)) = view w"
  using awaited [of sched ts ns w] by (simp add: wait_ready_step_def safe_group_step split_beta) (metis prod.collapse)

lemma start_quiet:
  assumes "services_keep view sv" "sv_rt sv = rt" "j < 14" "j \<noteq> 10"
  shows "view (fst (safe_apply c (start_steps sv sched r s ! j) w)) = view w"
  using below_14 [OF assms(3)] assms(1,2,4) quiet_steps [OF assms(1)]
    plain_step_keeps(1) [of view "sv_ensure_wordpress sv s"] plain_step_keeps(1) [of view "sv_ensure_wp_config sv s"]
    plain_step_keeps(1) [of view "sv_install_autologin sv s"] plain_step_keeps(1) [of view "sv_generate_config sv s"]
  by (elim disjE) (simp_all add: start_steps_def Let_def pull_step_quiet wait_step_quiet services_keep_def)

text \<open>What a start without an error leaves behind.\<close>

definition brought_up :: "container_spec list \<Rightarrow> 'w \<Rightarrow> 'w \<Rightarrow> bool" where
  "brought_up specs w0 w \<longleftrightarrow>
     (\<forall>sp\<in>set specs. view w (cs_name sp) = Some (Some (hash sp), True)) \<and>
     (\<forall>n. n \<notin> cs_name ` set specs \<longrightarrow> view w n = view w0 n)"

lemma start_brings_up:
  assumes sv: "services_keep view sv" "sv_rt sv = rt"
    and cb: "\<And>v. callbacks_keep cb (\<lambda>w. view w = v)"
    and run: "run env (start_plan sv sched r s) cb w0 = (res, w')" "res_final_error res = None"
  shows "brought_up (service_specs (sv_env sv) (sv_home sv) s) w0 w'"
proof -
  let ?specs = "service_specs (sv_env sv) (sv_home sv) s" and ?steps = "start_steps sv sched r s"
  define J where "J j w \<longleftrightarrow> (if j \<le> 10 then view w = view w0 else brought_up ?specs w0 w)" for j :: nat and w
  have st: "plan_steps (start_plan sv sched r s) = ?steps" by (simp add: start_plan_def)
  have "J (length (plan_steps (start_plan sv sched r s))) w'"
  proof (rule run_chain [where J = J, OF run])
    fix j
    have "J j = (\<lambda>w. (\<lambda>v. if j \<le> 10 then v = view w0 else (\<forall>sp\<in>set ?specs. v (cs_name sp) = Some (Some (hash sp), True)) \<and>
        (\<forall>n. n \<notin> cs_name ` set ?specs \<longrightarrow> v n = view w0 n)) (view w))"
      by (simp add: J_def brought_up_def fun_eq_iff)
    then show "callbacks_keep cb (J j)" by (simp only:) (rule callbacks_keep_view [OF cb])
  next
    fix j w v
    assume j: "j < length (plan_steps (start_plan sv sched r s))" and J: "J j w"
      and ap: "safe_apply Caller (plan_steps (start_plan sv sched r s) ! j) w = (v, None)"
    show "J (Suc j) v"
    proof (cases "j = 10")
      case True
      then have "group_wait rt (sched 10) (create_group ?specs) w = (None, v)"
        using ap by (auto simp: st start_steps_def Let_def create_containers_step_def safe_group_step sv(2) split: prod.splits)
      from created [OF service_names_distinct this] J True show ?thesis by (auto simp: J_def brought_up_def)
    next
      case False
      then have "view v = view w"
        using start_quiet [OF sv, of j Caller sched r s w] ap j by (simp add: st start_steps_length)
      with J False show ?thesis by (auto simp: J_def brought_up_def)
    qed
  qed (simp add: J_def)
  then show ?thesis by (simp add: st start_steps_length J_def)
qed

text \<open>A start that meets the marker of another engine, or of a version it may not open, leaves the containers alone.\<close>

lemma start_blocked_by_marker:
  assumes sv: "services_keep view sv" "sv_rt sv = rt"
    and cb: "\<And>v. callbacks_keep cb (\<lambda>w. view w = v)"
    and marker: "\<And>w. marker_verdict sv s (fst (read_marker sv s w)) \<noteq> None"
    and run: "run env (start_plan sv sched r s) cb w0 = (res, w')"
  shows "view w' = view w0 \<and> res_final_error res \<noteq> None"
proof (rule run_blocked [where I = "\<lambda>w. view w = view w0" and k = 7, OF run refl cb])
  have st: "plan_steps (start_plan sv sched r s) = start_steps sv sched r s" by (simp add: start_plan_def)
  show "7 < length (plan_steps (start_plan sv sched r s))" by (simp add: st start_steps_length)
  fix j w v e
  assume j: "j \<le> 7" "view w = view w0" "safe_apply Caller (plan_steps (start_plan sv sched r s) ! j) w = (v, e)"
  have "view v = view w" using start_quiet [OF sv, of j Caller sched r s w] j by (simp add: st)
  moreover have "e \<noteq> None" if "j = 7"
    using j(3) that marker [of w]
    by (simp add: st start_steps_def Let_def ensure_marker_step_def plain_step_def safe_func_step act_def ensure_marker_def split_beta)
  ultimately show "view v = view w0 \<and> (j = 7 \<longrightarrow> e \<noteq> None)" using j(2) by simp
next
  fix j w
  assume j: "j < (7::nat)" "view w = view w0"
  have "j = 0 \<or> j = 1 \<or> j = 2 \<or> j = 3 \<or> j = 4 \<or> j = 5 \<or> j = 6" using j(1) by presburger
  then show "view (fst (safe_rollback Detached (plan_steps (start_plan sv sched r s) ! j) w)) = view w0"
    using j(2) quiet_steps(13) [OF sv(1)]
    by (elim disjE) (simp_all add: start_plan_def start_steps_def Let_def ensure_spx_step_def ensure_volume_step_def plain_step_def safe_func_step)
qed

lemma delete_removes:
  assumes sv: "services_keep view sv" "sv_rt sv = rt"
    and cb: "\<And>v. callbacks_keep cb (\<lambda>w. view w = v)"
    and run: "run env (delete_plan sv sched opts parent s) cb w0 = (res, w')" "res_final_error res = None"
  shows "(\<forall>n\<in>set (site_containers sv s). view w' n = None) \<and> (\<forall>n. n \<notin> set (site_containers sv s) \<longrightarrow> view w' n = view w0 n)"
proof -
  let ?ns = "site_containers sv s" and ?steps = "map fst (delete_steps sv sched opts parent s)"
  let ?a = "if \<not> del_skip_snapshot opts \<and> site_started s then Suc 0 else 0"
  define J where "J j w \<longleftrightarrow> (if j \<le> Suc ?a then True else \<forall>n\<in>set ?ns. view w n = None) \<and> (\<forall>n. n \<notin> set ?ns \<longrightarrow> view w n = view w0 n)" for j w
  have st: "plan_steps (delete_plan sv sched opts parent s) = ?steps" by (simp add: delete_plan_def)
  have dist: "distinct ?ns" using service_names_distinct by (simp add: site_containers_def spec_names_def)
  have "J (length (plan_steps (delete_plan sv sched opts parent s))) w'"
  proof (rule run_chain [where J = J, OF run])
    fix j
    have "J j = (\<lambda>w. (\<lambda>v. (if j \<le> Suc ?a then True else \<forall>n\<in>set ?ns. v n = None) \<and> (\<forall>n. n \<notin> set ?ns \<longrightarrow> v n = view w0 n)) (view w))"
      by (simp add: J_def fun_eq_iff)
    then show "callbacks_keep cb (J j)" by (simp only:) (rule callbacks_keep_view [OF cb])
  next
    fix j w v
    assume j: "j < length (plan_steps (delete_plan sv sched opts parent s))" and J: "J j w"
      and ap: "safe_apply Caller (plan_steps (delete_plan sv sched opts parent s) ! j) w = (v, None)"
    let ?step = "?steps ! j"
    have steps: "?steps = (if ?a = 0 then [] else [plain_step ''auto-snapshot'' (\<lambda>w. (None, snd (sv_snapshot sv s ''pre_delete'' w)))])
        @ stop_containers_step rt (sched 1) ?ns # remove_containers_step rt (sched 2) ?ns #
        map fst (drop (?a + 2) (delete_steps sv sched opts parent s))"
      by (simp add: delete_steps_def Let_def sv(2))
    show "J (Suc j) v"
    proof (cases "j = ?a \<or> j = Suc ?a")
      case True
      show ?thesis
      proof (cases "j = ?a")
        case True
        then have "?step = stop_containers_step rt (sched 1) ?ns" by (subst steps) (simp add: nth_append)
        then have "group_wait rt (sched 1) (stop_group ?ns) w = (None, v)"
          using ap by (auto simp: st stop_containers_step_def safe_group_step split: prod.splits)
        from stopped [OF dist this] J True show ?thesis by (auto simp: J_def)
      next
        case False
        then have j: "j = Suc ?a" using True by simp
        then have "?step = remove_containers_step rt (sched 2) ?ns" by (subst steps) (simp add: nth_append)
        then have "group_wait rt (sched 2) (remove_group ?ns) w = (None, v)"
          using ap by (auto simp: st remove_containers_step_def safe_group_step split: prod.splits)
        from removed [OF dist this] J j show ?thesis by (auto simp: J_def)
      qed
    next
      case False
      have "view (fst (safe_apply Caller ?step w)) = view w"
      proof (cases "j < ?a")
        case True
        then have "?step = plain_step ''auto-snapshot'' (\<lambda>w. (None, snd (sv_snapshot sv s ''pre_delete'' w)))"
          by (subst steps) (simp add: nth_append split: if_splits)
        then show ?thesis
          using plain_step_keeps(1) [of view "\<lambda>w. (None, snd (sv_snapshot sv s ''pre_delete'' w))" Caller "''auto-snapshot''" w] sv(1)
          by (simp add: services_keep_def keeps_def)
      next
        case F2: False
        then have "?a + 2 \<le> j" using False by auto
        then have "?step \<in> set (drop (?a + 2) ?steps)" by (rule nth_in_drop) (use j in \<open>simp add: st\<close>)
        then show ?thesis by (auto simp: delete_steps_def Let_def quiet_steps [OF sv(1)] split: if_splits)
      qed
      then have "view v = view w" using ap by (simp add: st)
      with J False show ?thesis by (auto simp: J_def)
    qed
  qed (simp add: J_def)
  then show ?thesis by (simp add: st delete_steps_def Let_def J_def split: if_splits)
qed

end

section \<open>A start in which nothing fails\<close>

text \<open>What a start of the site calls, beside the engine's containers, returns no error; the marker allows the start.\<close>

definition services_work :: "'w services \<Rightarrow> site \<Rightarrow> bool" where
  "services_work sv s \<longleftrightarrow>
     (\<forall>p w. case fst (sv_remove_file sv p w) of Some (FileError e) \<Rightarrow> False | _ \<Rightarrow> True) \<and>
     (\<forall>p. succeeds (sv_mkdir sv p)) \<and> (\<forall>p b. succeeds (sv_write_file sv p b)) \<and>
     succeeds (sv_ensure_wordpress sv s) \<and> succeeds (sv_ensure_wp_config sv s) \<and> succeeds (sv_install_autologin sv s) \<and>
     succeeds (sv_generate_config sv s) \<and> (\<forall>sp. succeeds (\<lambda>w. forget (sv_ensure_network sv sp w))) \<and>
     (\<forall>sp. succeeds (\<lambda>w. forget (sv_ensure_volume sv sp w))) \<and>
     (\<forall>w. marker_verdict sv s (fst (read_marker sv s w)) = None) \<and>
     (\<forall>v u g. succeeds (sv_chown_volume sv v u g)) \<and> (\<forall>v u g. succeeds (sv_chown_path sv v u g)) \<and>
     (\<forall>r. succeeds (sv_upsert_route sv r))"

lemma succeeds_and_then: "succeeds f \<Longrightarrow> succeeds g \<Longrightarrow> succeeds (and_then f g)"
  by (simp add: succeeds_def and_then_def split_beta split: option.split)

lemma plain_step_succeeds: "succeeds f \<Longrightarrow> snd (safe_apply c (plain_step n f) w) = None"
  by (simp add: plain_step_def safe_func_step act_def succeeds_def split_beta)

lemma ensure_spx_succeeds:
  assumes "services_work sv s"
  shows "succeeds (ensure_spx sv s)"
proof (cases "site_spx_enabled s")
  case True
  let ?key = "spx_key_ini_path (sv_env sv) (sv_home sv) (site_slug s)"
  have "ensure_spx sv s = and_then (\<lambda>w. labelled ''ensure spx data dir''
                          (sv_mkdir sv (se_join (sv_env sv) [site_files_dir s, ''.locorum'', ''spx'']) w))
                (and_then (\<lambda>w. labelled ''ensure spx key dir'' (sv_mkdir sv (sv_dir sv ?key) w))
                   (\<lambda>w. labelled ''write spx key ini'' (sv_write_file sv ?key (spx_key_body s) w)))"
    using True by (intro ext) (simp add: ensure_spx_def Let_def)
  then show ?thesis using assms by (simp add: services_work_def succeeds_and_then succeeds_labelled)
next
  case False
  have "fst (ensure_spx sv s w) = None" for w
  proof -
    obtain x v where x: "sv_remove_file sv (spx_key_ini_path (sv_env sv) (sv_home sv) (site_slug s)) w = (x, v)" by (metis surj_pair)
    have "case x of Some (FileError e) \<Rightarrow> False | _ \<Rightarrow> True" using assms x unfolding services_work_def by (metis fst_conv)
    then show ?thesis using False x by (simp add: ensure_spx_def split: option.splits file_error.splits)
  qed
  then show ?thesis by (simp add: succeeds_def)
qed

lemma group_step_succeeds:
  "fst (group_wait rt sched gs w) = None \<Longrightarrow> snd (safe_apply c (group_step rt n sched gs us undo) w) = None"
  by (simp add: safe_group_step split_beta)

context container_runtime begin

lemma start_plan_succeeds:
  assumes sv: "sv_rt sv = rt" "services_work sv s" and en: "engine_works view rt (service_specs (sv_env sv) (sv_home sv) s)"
    and run: "run env (start_plan sv sched r s) cb w0 = (res, w')" "\<And>w. ctx_err env w = None"
  shows "res_final_error res = None"
proof (rule run_succeeds [OF run])
  let ?specs = "service_specs (sv_env sv) (sv_home sv) s"
  have q: "fst (group_wait rt h (pull_group ?specs) w) = None" "fst (group_wait rt h (wait_group ts ns) w) = None" for h ts ns w
    by (rule quiet_group_succeeds [OF en]; auto simp: pull_group_def wait_group_def)+
  have net: "snd (safe_apply c (ensure_network_step sv s) w) = None" "snd (safe_apply c (register_routes_step sv r) w) = None" for c w
    using sv(2) by (simp_all add: ensure_network_step_def register_routes_step_def safe_func_step act_def services_work_def
        succeeds_def split_beta)
  have mk: "succeeds (ensure_marker sv s)" "succeeds (write_marker sv s)"
    using sv(2) by (simp_all add: succeeds_def ensure_marker_def services_work_def write_marker_def Let_def split_beta)
  show "\<forall>st\<in>set (plan_steps (start_plan sv sched r s)). \<forall>w. snd (safe_apply Caller st w) = None"
    using sv net mk ensure_spx_succeeds [OF sv(2)]
    by (simp add: start_plan_def start_steps_def Let_def ensure_spx_step_def ensure_volume_step_def ensure_marker_step_def
        write_marker_step_def chown_step_eq pull_images_step_def create_containers_step_def wait_ready_step_def
        plain_step_succeeds group_step_succeeds q create_succeeds [OF en] services_work_def succeeds_and_then succeeds_labelled)
qed

end

end
