(* ===== verification/Lifecycle.thy ===== *)
theory Lifecycle
  imports Site_Plans Secrets
begin

text \<open>
  The site manager of \<^verbatim>\<open>internal/sites/sites.go\<close>: creating, starting, stopping and deleting sites, the changes of a stopped
  site, and the reconciliation at start-up. Its state is the database, the secret registry, what the services act on and
  the notifications it sent. Every operation that takes the mutex of the site reads the row before it: \<open>fetch\<close> is that
  read, and the rest of the operation, which gets the struct it read, is a definition of its own.
\<close>

section \<open>State and surroundings\<close>

record 'e manager =
  sm_db :: db
  sm_reg :: registry
  sm_eng :: 'e
  sm_updated :: "site list"
  sm_lists :: "site list list"

record 'e manager_env =
  me_sv :: "'e services"
  me_flt :: "'e manager \<Rightarrow> faults"
  me_now :: "'e manager \<Rightarrow> string"
  me_run :: "'e manager surroundings"
  me_json :: "string \<Rightarrow> bool"
  me_iter :: "string set \<Rightarrow> string list"
  me_sched :: "'e manager \<Rightarrow> nat \<Rightarrow> nat list"
  me_hook :: "string \<Rightarrow> site \<Rightarrow> 'e \<Rightarrow> go_error option \<times> 'e"
  me_cfg :: "cache option"
  me_lan_ip :: "'e \<Rightarrow> ip option \<times> 'e"
  me_path_block :: "string \<Rightarrow> go_error option"
  me_write_config :: "site \<Rightarrow> hook list \<Rightarrow> 'e \<Rightarrow> 'e"
  me_wp_install :: "site \<Rightarrow> 'e \<Rightarrow> go_error option \<times> 'e"
  me_wp_network :: "site \<Rightarrow> 'e \<Rightarrow> bool \<times> 'e"
  me_wp_convert :: "site \<Rightarrow> string \<Rightarrow> 'e \<Rightarrow> go_error option \<times> 'e"
  me_uuid :: "'e manager \<Rightarrow> string"
  me_random_hex :: "'e manager \<Rightarrow> go_error + string"
  me_spx_key :: "'e manager \<Rightarrow> go_error + string"
  me_slug :: "string \<Rightarrow> string"
  me_cancelled :: "'e manager \<Rightarrow> nat \<Rightarrow> go_error option"

text \<open>The services act on their part of the state.\<close>

definition on_engine :: "('e \<Rightarrow> 'a \<times> 'e) \<Rightarrow> 'e manager \<Rightarrow> 'a \<times> 'e manager" where
  "on_engine f w = (case f (sm_eng w) of (r, e) \<Rightarrow> (r, w\<lparr>sm_eng := e\<rparr>))"

definition lift_runtime :: "'e runtime \<Rightarrow> 'e manager runtime" where
  "lift_runtime rt =
     \<lparr>rt_ensure = (\<lambda>c sp. on_engine (rt_ensure rt c sp)), rt_start = (\<lambda>c n. on_engine (rt_start rt c n)),
      rt_stop = (\<lambda>c n t. on_engine (rt_stop rt c n t)), rt_remove = (\<lambda>c n. on_engine (rt_remove rt c n)),
      rt_pull = (\<lambda>c n. on_engine (rt_pull rt c n)), rt_wait_ready = (\<lambda>c n t. on_engine (rt_wait_ready rt c n t))\<rparr>"

definition lift_services :: "'e services \<Rightarrow> 'e manager services" where
  "lift_services sv =
     \<lparr>sv_rt = lift_runtime (sv_rt sv), sv_ensure_network = (\<lambda>sp. on_engine (sv_ensure_network sv sp)),
      sv_ensure_volume = (\<lambda>sp. on_engine (sv_ensure_volume sv sp)),
      sv_remove_networks = (\<lambda>ls. on_engine (sv_remove_networks sv ls)),
      sv_remove_volumes = (\<lambda>ls. on_engine (sv_remove_volumes sv ls)),
      sv_chown_volume = (\<lambda>v u g. on_engine (sv_chown_volume sv v u g)),
      sv_chown_path = (\<lambda>v u g. on_engine (sv_chown_path sv v u g)),
      sv_one_shot = (\<lambda>n i c ms. on_engine (sv_one_shot sv n i c ms)), sv_exec = (\<lambda>n c i. on_engine (sv_exec sv n c i)),
      sv_upsert_route = (\<lambda>r. on_engine (sv_upsert_route sv r)), sv_remove_route = (\<lambda>r. on_engine (sv_remove_route sv r)),
      sv_remove_file = (\<lambda>p. on_engine (sv_remove_file sv p)), sv_mkdir = (\<lambda>p. on_engine (sv_mkdir sv p)),
      sv_write_file = (\<lambda>p b. on_engine (sv_write_file sv p b)), sv_path_exists = (\<lambda>p w. sv_path_exists sv p (sm_eng w)),
      sv_worktree_remove = (\<lambda>p q b. on_engine (sv_worktree_remove sv p q b)),
      sv_worktree_add = (\<lambda>p q b. on_engine (sv_worktree_add sv p q b)),
      sv_ensure_repo = (\<lambda>r p. on_engine (sv_ensure_repo sv r p)), sv_dirty = (\<lambda>p. on_engine (sv_dirty sv p)),
      sv_ensure_wordpress = (\<lambda>s. on_engine (sv_ensure_wordpress sv s)),
      sv_ensure_wp_config = (\<lambda>s. on_engine (sv_ensure_wp_config sv s)),
      sv_install_autologin = (\<lambda>s. on_engine (sv_install_autologin sv s)),
      sv_generate_config = (\<lambda>s. on_engine (sv_generate_config sv s)),
      sv_snapshot = (\<lambda>s l. on_engine (sv_snapshot sv s l)), sv_dir = sv_dir sv, sv_env = sv_env sv, sv_home = sv_home sv,
      sv_dec_marker = sv_dec_marker sv, sv_enc_marker = sv_enc_marker sv, sv_now = (\<lambda>w. sv_now sv (sm_eng w))\<rparr>"

abbreviation services_of :: "'e manager_env \<Rightarrow> 'e manager services" where
  "services_of env \<equiv> lift_services (me_sv env)"

section \<open>Common parts\<close>

definition fire_hooks :: "'e manager_env \<Rightarrow> string \<Rightarrow> site \<Rightarrow> 'e manager \<Rightarrow> go_error option \<times> 'e manager" where
  "fire_hooks env ev s = on_engine (me_hook env ev s)"

definition notify_updated :: "site \<Rightarrow> 'e manager \<Rightarrow> 'e manager" where
  "notify_updated s w = w\<lparr>sm_updated := sm_updated w @ [s]\<rparr>"

definition emit_sites_update :: "'e manager_env \<Rightarrow> 'e manager \<Rightarrow> 'e manager" where
  "emit_sites_update env w =
     (case get_sites (me_flt env w) (sm_db w) of Inl _ \<Rightarrow> w | Inr ss \<Rightarrow> w\<lparr>sm_lists := sm_lists w @ [ss]\<rparr>)"

definition write_config_yaml :: "'e manager_env \<Rightarrow> site \<Rightarrow> 'e manager \<Rightarrow> 'e manager" where
  "write_config_yaml env s w =
     (if site_files_dir s = [] then w
      else let hs = (case list_hooks (me_flt env w) (site_id s) (sm_db w) of Inl _ \<Rightarrow> [] | Inr hs \<Rightarrow> hs)
           in w\<lparr>sm_eng := me_write_config env s hs (sm_eng w)\<rparr>)"

definition save :: "'e manager_env \<Rightarrow> site \<Rightarrow> 'e manager \<Rightarrow> site \<times> go_error option \<times> 'e manager" where
  "save env s w =
     (case update_site (me_flt env w) (me_now env w) s (sm_db w) of
        (s, e, d) \<Rightarrow> (s, map_option (\<lambda>_. ''update site'') e, w\<lparr>sm_db := d\<rparr>))"

definition fetch :: "'e manager_env \<Rightarrow> string \<Rightarrow> 'e manager \<Rightarrow> go_error + site option" where
  "fetch env sid w = (case get_site (me_flt env w) sid (sm_db w) of Inl _ \<Rightarrow> Inl ''fetching site'' | Inr so \<Rightarrow> Inr so)"

definition site_not_found :: "string \<Rightarrow> go_error" where "site_not_found sid = ''site '' @ quoted sid @ '' not found''"

definition manager_callbacks :: "'e manager_env \<Rightarrow> site \<Rightarrow> string \<Rightarrow> 'e manager callbacks" where
  "manager_callbacks env s plan =
     \<lparr>on_step_start = None, on_step_done = None,
      on_plan_done = Some (\<lambda>r w. (w\<lparr>sm_db := snd (record_activity (me_flt env w) (clock (me_run env) w) (me_json env)
          (redact_string (me_iter env) (sm_reg w)) (Some s) plan r (sm_db w))\<rparr>, None))\<rparr>"

definition run_plan :: "'e manager_env \<Rightarrow> site \<Rightarrow> 'e manager plan \<Rightarrow> 'e manager \<Rightarrow> go_error option \<times> 'e manager" where
  "run_plan env s pl w =
     (case run (me_run env) pl (manager_callbacks env s (plan_name pl)) w of (r, w) \<Rightarrow> (res_final_error r, w))"

section \<open>Creating\<close>

definition fill_site :: "'e manager_env \<Rightarrow> string \<Rightarrow> string \<Rightarrow> site \<Rightarrow> site" where
  "fill_site env uuid pw s =
     s\<lparr>site_id := uuid, site_slug := me_slug env (site_name s), site_domain := me_slug env (site_name s) @ ''.localhost'',
       site_started := False, site_db_password := pw,
       site_web_server := (if site_web_server s = [] then ''nginx'' else site_web_server s),
       site_db_engine := (if site_db_engine s = [] then default_kind else site_db_engine s)\<rparr>"

definition fill_version :: "engine \<Rightarrow> site \<Rightarrow> site" where
  "fill_version e s =
     (if site_db_version s \<noteq> [] then s
      else s\<lparr>site_db_version := (if site_mysql_version s \<noteq> [] \<and> site_db_engine s = ''mysql'' then site_mysql_version s
             else default_version e)\<rparr>)"

definition create_site :: "'e manager_env \<Rightarrow> site \<Rightarrow> 'e manager \<Rightarrow> go_error option \<times> 'e manager" where
  "create_site env s w =
     (case me_path_block env (site_files_dir s) of
        Some e \<Rightarrow> (Some e, w)
      | None \<Rightarrow>
          (case me_random_hex env w of
             Inl e \<Rightarrow> (Some (''generating db password: '' @ e), w)
           | Inr pw \<Rightarrow>
               (let s = fill_site env (me_uuid env w) pw s
                in case engine_for (site_db_engine s) of
                     None \<Rightarrow> (Some (''unknown database engine '' @ quoted (site_db_engine s)), w)
                   | Some e \<Rightarrow>
                       (let s = fill_version e s
                        in case on_engine (sv_mkdir (me_sv env) (site_files_dir s)) w of
                             (Some x, w) \<Rightarrow> (Some x, w)
                           | (None, w) \<Rightarrow>
                               (case add_site (me_flt env w) (me_now env w) s (sm_db w) of
                                  (s, Some _, d) \<Rightarrow> (Some ''add site'', w\<lparr>sm_db := d\<rparr>)
                                | (s, None, d) \<Rightarrow>
                                    (None, emit_sites_update env (write_config_yaml env s
                                       (w\<lparr>sm_db := d, sm_reg := reg_add (site_db_password s) (sm_reg w)\<rparr>))))))))"

section \<open>Starting and stopping\<close>

definition ensure_multisite :: "'e manager_env \<Rightarrow> site \<Rightarrow> 'e manager \<Rightarrow> go_error option \<times> 'e manager" where
  "ensure_multisite env s w =
     (case on_engine (me_wp_network env s) w of
        (True, w) \<Rightarrow> (None, w)
      | (False, w) \<Rightarrow>
          and_then (\<lambda>w. labelled ''wp core install'' (on_engine (me_wp_install env s) w))
            (\<lambda>w. labelled ''multisite convert'' (on_engine (me_wp_convert env s (site_multisite s)) w)) w)"

definition ensure_multisite_with_hooks :: "'e manager_env \<Rightarrow> site \<Rightarrow> 'e manager \<Rightarrow> go_error option \<times> 'e manager" where
  "ensure_multisite_with_hooks env s =
     and_then (fire_hooks env ''pre-multisite'' s)
       (and_then (ensure_multisite env s) (fire_hooks env ''post-multisite'' s))"

text \<open>\<^verbatim>\<open>routeFor\<close> when LAN access is off asks for no address.\<close>

definition site_route_of :: "'e manager_env \<Rightarrow> site \<Rightarrow> 'e manager \<Rightarrow> site_route \<times> 'e manager" where
  "site_route_of env s w =
     (case (if site_lan_enabled s then on_engine (me_lan_ip env) w else (None, w)) of
        (ipo, w) \<Rightarrow> (route_for (me_cfg env) ipo s, w))"

text \<open>What \<^verbatim>\<open>StartSite\<close> does once the plan has succeeded.\<close>

definition started_up :: "'e manager_env \<Rightarrow> site \<Rightarrow> 'e manager \<Rightarrow> go_error option \<times> 'e manager" where
  "started_up env s w =
     (case save env (s\<lparr>site_started := True\<rparr>) w of
        (s, Some e, w) \<Rightarrow> (Some e, w)
      | (s, None, w) \<Rightarrow>
          (case on_engine (me_wp_install env s) w of
             (Some e, w) \<Rightarrow> (Some (''wp core install: '' @ e), w)
           | (None, w) \<Rightarrow>
               (let w = (if site_multisite s \<noteq> [] then snd (ensure_multisite_with_hooks env s w) else w)
                in fire_hooks env ''post-start'' s (write_config_yaml env s (notify_updated s w)))))"

definition start_locked :: "'e manager_env \<Rightarrow> site \<Rightarrow> 'e manager \<Rightarrow> go_error option \<times> 'e manager" where
  "start_locked env s w =
     (case fire_hooks env ''pre-start'' s w of
        (Some e, w) \<Rightarrow> (Some e, w)
      | (None, w) \<Rightarrow>
          (case site_route_of env s w of
             (r, w) \<Rightarrow>
               (case run_plan env s (start_plan (services_of env) (me_sched env w) r s) w of
                  (Some e, w) \<Rightarrow> (Some e, w)
                | (None, w) \<Rightarrow> started_up env s w)))"

definition start_site :: "'e manager_env \<Rightarrow> string \<Rightarrow> 'e manager \<Rightarrow> go_error option \<times> 'e manager" where
  "start_site env sid w =
     (case fetch env sid w of
        Inl e \<Rightarrow> (Some e, w)
      | Inr None \<Rightarrow> (Some (site_not_found sid), w)
      | Inr (Some s) \<Rightarrow>
          (case me_path_block env (site_files_dir s) of Some e \<Rightarrow> (Some e, w) | None \<Rightarrow> start_locked env s w))"

definition stop_locked :: "'e manager_env \<Rightarrow> site \<Rightarrow> 'e manager \<Rightarrow> go_error option \<times> 'e manager" where
  "stop_locked env s w =
     (case fire_hooks env ''pre-stop'' s w of
        (Some e, w) \<Rightarrow> (Some e, w)
      | (None, w) \<Rightarrow>
          (case run_plan env s (stop_plan (services_of env) (me_sched env w) s) w of
             (Some e, w) \<Rightarrow> (Some e, w)
           | (None, w) \<Rightarrow>
               (case save env (s\<lparr>site_started := False\<rparr>) w of
                  (s, Some e, w) \<Rightarrow> (Some e, w)
                | (s, None, w) \<Rightarrow> fire_hooks env ''post-stop'' s (notify_updated s w))))"

definition stop_site :: "'e manager_env \<Rightarrow> string \<Rightarrow> 'e manager \<Rightarrow> go_error option \<times> 'e manager" where
  "stop_site env sid w =
     (case fetch env sid w of
        Inl e \<Rightarrow> (Some e, w)
      | Inr None \<Rightarrow> (Some (site_not_found sid), w)
      | Inr (Some s) \<Rightarrow> stop_locked env s w)"

section \<open>Deleting\<close>

definition parent_repo_dir :: "'e manager_env \<Rightarrow> site \<Rightarrow> 'e manager \<Rightarrow> string" where
  "parent_repo_dir env s w =
     (if site_parent_site_id s = [] then site_worktree_path s
      else case fetch env (site_parent_site_id s) w of
             Inr (Some p) \<Rightarrow> if site_files_dir p = [] then site_worktree_path s else site_files_dir p
           | _ \<Rightarrow> site_worktree_path s)"

text \<open>The part of \<^verbatim>\<open>DeleteSiteWithOptions\<close> under the mutex; a plan that fails does not keep the row.\<close>

definition delete_locked :: "'e manager_env \<Rightarrow> delete_opts \<Rightarrow> site \<Rightarrow> 'e manager \<Rightarrow> go_error option \<times> 'e manager" where
  "delete_locked env opts s w =
     (let parent = parent_repo_dir env s w; sched = me_sched env w
      in if del_dry_run opts
         then (snd (dry (me_cancelled env w) (''delete-site:'' @ site_slug s)
                 (delete_preview (services_of env) sched opts parent s) w), w)
         else case fire_hooks env ''pre-delete'' s w of
                (Some e, w) \<Rightarrow> (Some e, w)
              | (None, w) \<Rightarrow>
                  (let w = snd (run_plan env s (delete_plan (services_of env) sched opts parent s) w);
                       w = snd (fire_hooks env ''post-delete'' s w)
                   in case delete_site (me_flt env w) (site_id s) (sm_db w) of
                        (Some _, d) \<Rightarrow> (Some ''delete site'', w\<lparr>sm_db := d\<rparr>)
                      | (None, d) \<Rightarrow>
                          (None, emit_sites_update env
                             (w\<lparr>sm_db := d, sm_reg := reg_remove (site_db_password s) (sm_reg w)\<rparr>))))"

definition blocked_by_worktree :: "'e manager_env \<Rightarrow> delete_opts \<Rightarrow> site \<Rightarrow> 'e manager \<Rightarrow> bool \<times> 'e manager" where
  "blocked_by_worktree env opts s w =
     (if \<not> del_dry_run opts \<and> site_worktree_path s \<noteq> [] \<and> \<not> del_force_worktree opts
      then on_engine (sv_dirty (me_sv env) (site_worktree_path s)) w else (False, w))"

text \<open>
  A site takes the worktrees hanging on it along, recursively; their failures are only logged. \<open>fuel\<close> bounds the depth:
  \<open>None\<close> when it did not suffice.
\<close>

function (sequential) delete_site_opts ::
    "nat \<Rightarrow> 'e manager_env \<Rightarrow> delete_opts \<Rightarrow> string \<Rightarrow> 'e manager \<Rightarrow> (go_error option \<times> 'e manager) option"
  and delete_children ::
    "nat \<Rightarrow> 'e manager_env \<Rightarrow> delete_opts \<Rightarrow> string list \<Rightarrow> 'e manager \<Rightarrow> 'e manager option" where
  "delete_site_opts 0 env opts sid w = None"
| "delete_site_opts (Suc fuel) env opts sid w =
     (case fetch env sid w of
        Inl e \<Rightarrow> Some (Some e, w)
      | Inr None \<Rightarrow> Some (None, emit_sites_update env w)
      | Inr (Some s) \<Rightarrow>
          (case blocked_by_worktree env opts s w of
             (True, w) \<Rightarrow> Some (Some (''worktree has uncommitted changes; pass --force to discard: '' @ site_worktree_path s), w)
           | (False, w) \<Rightarrow>
               (let ids = (if del_dry_run opts then []
                           else case sites_by_parent (me_flt env w) sid (sm_db w) of Inl _ \<Rightarrow> [] | Inr cs \<Rightarrow> map site_id cs)
                in case delete_children fuel env (opts\<lparr>del_force_worktree := True\<rparr>) ids w of
                     None \<Rightarrow> None
                   | Some w \<Rightarrow> Some (delete_locked env opts s w))))"
| "delete_children fuel env opts [] w = Some w"
| "delete_children fuel env opts (c # cs) w =
     (case delete_site_opts fuel env opts c w of None \<Rightarrow> None | Some (_, w) \<Rightarrow> delete_children fuel env opts cs w)"
  by pat_completeness auto
termination
  by (relation "measures [\<lambda>x. case x of Inl (f, _) \<Rightarrow> f | Inr (f, _) \<Rightarrow> f,
        \<lambda>x. case x of Inl _ \<Rightarrow> 0 | Inr (_, _, _, cs, _) \<Rightarrow> Suc (length cs)]") auto

section \<open>Changing a stopped site\<close>

record versions_change =
  vc_php :: string
  vc_engine :: string
  vc_db :: string
  vc_redis :: string

definition unsafe_transition :: go_error where "unsafe_transition = ''unsafe version transition; use MigrateEngine''"

text \<open>The struct after the change, \<open>None\<close> when nothing changes.\<close>

definition changed_versions :: "versions_change \<Rightarrow> site \<Rightarrow> go_error + site option" where
  "changed_versions ch s =
     (let php = (vc_php ch \<noteq> [] \<and> vc_php ch \<noteq> site_php_version s);
          s1 = (if php then s\<lparr>site_php_version := vc_php ch\<rparr> else s);
          redis = (vc_redis ch \<noteq> [] \<and> vc_redis ch \<noteq> site_redis_version s);
          s2 = (if redis then s1\<lparr>site_redis_version := vc_redis ch\<rparr> else s1)
      in if vc_engine ch \<noteq> [] \<and> vc_engine ch \<noteq> site_db_engine s then Inl unsafe_transition
         else if vc_db ch \<noteq> [] \<and> vc_db ch \<noteq> site_db_version s
         then (if \<not> upgrade_allowed (resolve_engine s2) (site_db_version s) (vc_db ch) then Inl unsafe_transition
               else let s3 = s2\<lparr>site_db_version := vc_db ch\<rparr>
                    in Inr (Some (if site_db_engine s = ''mysql'' then s3\<lparr>site_mysql_version := vc_db ch\<rparr> else s3)))
         else if php \<or> redis then Inr (Some s2) else Inr None)"

definition update_versions_locked :: "'e manager_env \<Rightarrow> versions_change \<Rightarrow> site \<Rightarrow> 'e manager \<Rightarrow> go_error option \<times> 'e manager" where
  "update_versions_locked env ch s w =
     (case changed_versions ch s of
        Inl e \<Rightarrow> (Some e, w)
      | Inr None \<Rightarrow> (None, w)
      | Inr (Some s) \<Rightarrow>
          (case fire_hooks env ''pre-versions-change'' s w of
             (Some e, w) \<Rightarrow> (Some e, w)
           | (None, w) \<Rightarrow>
               (let w = snd (group_wait (sv_rt (services_of env)) (me_sched env w 0) (remove_group (site_containers (services_of env) s)) w)
                in case save env s w of
                     (s, Some e, w) \<Rightarrow> (Some (''updating site: '' @ e), w)
                   | (s, None, w) \<Rightarrow>
                       fire_hooks env ''post-versions-change'' s (write_config_yaml env s (notify_updated s w)))))"

definition update_versions :: "'e manager_env \<Rightarrow> string \<Rightarrow> versions_change \<Rightarrow> 'e manager \<Rightarrow> go_error option \<times> 'e manager" where
  "update_versions env sid ch w =
     (case fetch env sid w of
        Inl e \<Rightarrow> (Some e, w)
      | Inr None \<Rightarrow> (Some (site_not_found sid), w)
      | Inr (Some s) \<Rightarrow>
          if site_started s then (Some ''site must be stopped to change versions'', w) else update_versions_locked env ch s w)"

text \<open>The settings of a stopped site; \<open>update_public_dir\<close> and \<open>set_publish_db_port\<close> do not take the mutex.\<close>

definition update_public_dir :: "'e manager_env \<Rightarrow> string \<Rightarrow> string \<Rightarrow> 'e manager \<Rightarrow> go_error option \<times> 'e manager" where
  "update_public_dir env sid dir w =
     (case fetch env sid w of
        Inl e \<Rightarrow> (Some e, w)
      | Inr None \<Rightarrow> (Some (site_not_found sid), w)
      | Inr (Some s) \<Rightarrow>
          if site_started s then (Some ''site must be stopped to change public directory'', w)
          else if dir = site_public_dir s then (None, w)
          else (case save env (s\<lparr>site_public_dir := dir\<rparr>) w of
                  (s, Some e, w) \<Rightarrow> (Some (''updating site: '' @ e), w)
                | (s, None, w) \<Rightarrow> (None, write_config_yaml env s (notify_updated s w))))"

definition set_publish_db_port :: "'e manager_env \<Rightarrow> string \<Rightarrow> bool \<Rightarrow> 'e manager \<Rightarrow> go_error option \<times> 'e manager" where
  "set_publish_db_port env sid on w =
     (case fetch env sid w of
        Inl e \<Rightarrow> (Some e, w)
      | Inr None \<Rightarrow> (Some (site_not_found sid), w)
      | Inr (Some s) \<Rightarrow>
          if site_started s then (Some ''site must be stopped to change DB host-port publish'', w)
          else (case save env (s\<lparr>site_publish_db_port := on\<rparr>) w of
                  (s, Some e, w) \<Rightarrow> (Some e, w)
                | (s, None, w) \<Rightarrow> (None, write_config_yaml env s w)))"

definition store_spx :: "'e manager_env \<Rightarrow> site \<Rightarrow> 'e manager \<Rightarrow> go_error option \<times> 'e manager" where
  "store_spx env s w =
     (case save env s w of
        (s, Some e, w) \<Rightarrow> (Some (''updating site: '' @ e), w)
      | (s, None, w) \<Rightarrow> (None, notify_updated s (write_config_yaml env s w)))"

definition set_spx_locked :: "'e manager_env \<Rightarrow> bool \<Rightarrow> site \<Rightarrow> 'e manager \<Rightarrow> go_error option \<times> 'e manager" where
  "set_spx_locked env on s w =
     (if site_started s then (Some ''site must be stopped to change SPX profiling'', w)
      else if site_spx_enabled s = on \<and> (\<not> on \<or> site_spx_key s \<noteq> []) then (None, w)
      else let s = s\<lparr>site_spx_enabled := on\<rparr>
           in if on \<and> site_spx_key s = []
              then (case me_spx_key env w of Inl e \<Rightarrow> (Some e, w) | Inr k \<Rightarrow> store_spx env (s\<lparr>site_spx_key := k\<rparr>) w)
              else store_spx env s w)"

definition set_spx_enabled :: "'e manager_env \<Rightarrow> string \<Rightarrow> bool \<Rightarrow> 'e manager \<Rightarrow> go_error option \<times> 'e manager" where
  "set_spx_enabled env sid on w =
     (case fetch env sid w of
        Inl e \<Rightarrow> (Some e, w)
      | Inr None \<Rightarrow> (Some (site_not_found sid), w)
      | Inr (Some s) \<Rightarrow> set_spx_locked env on s w)"

definition rotate_spx_key :: "'e manager_env \<Rightarrow> string \<Rightarrow> 'e manager \<Rightarrow> go_error option \<times> 'e manager" where
  "rotate_spx_key env sid w =
     (case fetch env sid w of
        Inl e \<Rightarrow> (Some e, w)
      | Inr None \<Rightarrow> (Some (site_not_found sid), w)
      | Inr (Some s) \<Rightarrow>
          if site_started s then (Some ''site must be stopped to rotate SPX key'', w)
          else (case me_spx_key env w of Inl e \<Rightarrow> (Some e, w) | Inr k \<Rightarrow> store_spx env (s\<lparr>site_spx_key := k\<rparr>) w))"

section \<open>Start-up\<close>

fun reconcile_rows :: "'e manager_env \<Rightarrow> site list \<Rightarrow> 'e manager \<Rightarrow> 'e manager" where
  "reconcile_rows env [] w = w"
| "reconcile_rows env (r # rs) w =
     (let w = (if site_db_password r \<noteq> [] then w\<lparr>sm_reg := reg_add (site_db_password r) (sm_reg w)\<rparr> else w);
          w = (if site_started r then snd (snd (save env (r\<lparr>site_started := False\<rparr>) w)) else w)
      in reconcile_rows env rs w)"

definition reconcile_state :: "'e manager_env \<Rightarrow> 'e manager \<Rightarrow> go_error option \<times> 'e manager" where
  "reconcile_state env w =
     (case get_sites (me_flt env w) (sm_db w) of
        Inl _ \<Rightarrow> (Some ''get sites'', w)
      | Inr rows \<Rightarrow> (None, emit_sites_update env (reconcile_rows env rows w)))"

end
