(* ===== verification/Lifecycle_Props.thy ===== *)
theory Lifecycle_Props
  imports Lifecycle
begin

text \<open>
  What the site manager guarantees: the containers after a start, the rows the operations write, the extent and the end of
  a cascading deletion, the database invariant over any sequence of operations, and what the read before the mutex costs.
\<close>

section \<open>Steps touch only what the services act on\<close>

definition outside :: "'e manager \<Rightarrow> db \<times> registry \<times> site list \<times> site list list" where
  "outside w = (sm_db w, sm_reg w, sm_updated w, sm_lists w)"

lemma on_engine_keeps:
  "keeps outside (on_engine f)" "keeps v f \<Longrightarrow> keeps (\<lambda>w. v (sm_eng w)) (on_engine f)"
  by (simp_all add: keeps_def on_engine_def outside_def split_beta)

lemma on_engine_outside: "on_engine f w = (r, w') \<Longrightarrow> outside w' = outside w"
  using on_engine_keeps(1) unfolding keeps_def by (metis snd_conv)

lemma lift_services_keep:
  "services_keep outside (lift_services sv)"
  "services_keep v sv \<Longrightarrow> services_keep (\<lambda>w. v (sm_eng w)) (lift_services sv)"
  by (simp_all add: services_keep_def lift_services_def on_engine_keeps)

lemma perform_keeps:
  assumes "\<forall>c sp. keeps v (rt_ensure rt c sp)" "\<forall>c n. keeps v (rt_start rt c n)" "\<forall>c n t. keeps v (rt_stop rt c n t)"
    "\<forall>c n. keeps v (rt_remove rt c n)" "\<forall>c n. keeps v (rt_pull rt c n)" "\<forall>c n t. keeps v (rt_wait_ready rt c n t)"
  shows "keeps v (perform rt c k)"
  using assms by (cases k) (simp_all add: keeps_def labelled_def split_beta split: sum.split)

lemma group_wait_keeps:
  assumes "\<And>c k. keeps v (perform rt c k)"
  shows "keeps v (group_wait rt sched gs)"
proof -
  have turn: "v (snd (snd (group_turn rt i g))) = v (snd (snd g))" for i g
  proof -
    obtain hs e w where g: "g = (hs, e, w)" by (metis prod_cases3)
    have "v (snd (perform rt (e \<noteq> None) k w)) = v w" for k using assms by (simp add: keeps_def)
    then show ?thesis by (simp add: group_turn_def g split: list.split prod.split option.split) (metis snd_conv)
  qed
  have "v (snd (snd (fold (group_turn rt) is g))) = v (snd (snd g))" for "is" g
    by (induction "is" arbitrary: g) (simp_all add: turn)
  then show ?thesis by (simp add: keeps_def group_wait_def)
qed

lemma lift_runtime_keeps: "keeps outside (perform (lift_runtime rt) c k)"
  by (rule perform_keeps) (simp_all add: lift_runtime_def on_engine_keeps)

lemma group_step_keeps:
  assumes "\<And>c k. keeps v (perform rt c k)"
  shows "v (fst (safe_apply c (group_step rt n sched gs us undo) w)) = v w"
    "v (fst (safe_rollback c (group_step rt n sched gs us undo) w)) = v w"
  using group_wait_keeps [OF assms] by (simp_all add: safe_group_step keeps_def split_beta)

text \<open>Every step of the three plans leaves the database, the registry and the notifications alone.\<close>

lemma quiet_rollbacks:
  assumes k: "services_keep v sv"
  shows "v (fst (safe_rollback c (ensure_spx_step sv s) w)) = v w"
    "v (fst (safe_rollback c (ensure_volume_step sv s) w)) = v w"
    "v (fst (safe_rollback c (ensure_marker_step sv s) w)) = v w"
    "v (fst (safe_rollback c (chown_step sv s) w)) = v w"
    "v (fst (safe_rollback c (write_marker_step sv s) w)) = v w"
    "v (fst (safe_rollback c (register_routes_step sv r) w)) = v w"
    "v (fst (safe_rollback c (remove_routes_step sv slug) w)) = v w"
    "v (fst (safe_rollback c (remove_site_configs_step sv s) w)) = v w"
    "v (fst (safe_rollback c (remove_network_step sv s) w)) = v w"
    "v (fst (safe_rollback c (purge_volume_step sv s) w)) = v w"
    "v (fst (safe_rollback c (remove_worktree_step sv p q b) w)) = v w"
    "v (fst (safe_rollback c (plain_step n f) w)) = v w"
  using k by (simp_all add: ensure_spx_step_def ensure_volume_step_def ensure_marker_step_def chown_step_eq write_marker_step_def
      remove_routes_step_def remove_site_configs_step_def remove_network_step_def purge_volume_step_def register_routes_step_def
      remove_worktree_step_def plain_step_def safe_func_step act_def split_beta services_keep_def keeps_def)

lemma plan_steps_keep:
  assumes k: "services_keep v sv" and p: "\<And>c k. keeps v (perform (sv_rt sv) c k)"
    and st: "st \<in> set (plan_steps (start_plan sv sched r s)) \<union> set (plan_steps (stop_plan sv sched s)) \<union>
      set (plan_steps (delete_plan sv sched opts parent s))"
  shows "v (fst (safe_apply c st w)) = v w \<and> v (fst (safe_rollback c st w)) = v w"
proof -
  have plain: "v (fst (safe_apply c (plain_step n f) w)) = v w" if "keeps v f" for n f
    using plain_step_keeps(1) [OF that] .
  show ?thesis
    using st quiet_steps [OF k] quiet_rollbacks [OF k] group_step_keeps [OF p] k
    by (auto simp: start_plan_def start_steps_def stop_plan_def delete_plan_def delete_steps_def Let_def container_steps
        services_keep_def keeps_def intro!: plain split: if_splits)
qed

section \<open>What a plan leaves of the database\<close>

lemma record_activity_inv: "db_inv d \<Longrightarrow> db_inv (snd (record_activity flt now js scrub so plan r d))"
proof (cases so)
  case (Some s)
  assume "db_inv d"
  then have "db_inv (snd (snd (append_activity flt now js (Some (activity_row scrub now s plan r)) d)))"
    by (rule append_activity_inv)
  then show ?thesis using Some by (auto simp: record_activity_def split: prod.splits option.splits)
qed (simp add: record_activity_def)

definition site_plan :: "'e manager_env \<Rightarrow> 'e manager plan \<Rightarrow> bool" where
  "site_plan env pl \<longleftrightarrow> (\<forall>st\<in>set (plan_steps pl). \<forall>c w. outside (fst (safe_apply c st w)) = outside w \<and>
     outside (fst (safe_rollback c st w)) = outside w)"

lemma site_plans:
  "site_plan env (start_plan (services_of env) sched r s)" "site_plan env (stop_plan (services_of env) sched s)"
  "site_plan env (delete_plan (services_of env) sched opts parent s)"
proof -
  have p: "keeps outside (perform (sv_rt (services_of env)) c k)" for c k
    by (simp add: lift_services_def lift_runtime_keeps)
  note keep = plan_steps_keep [OF lift_services_keep(1) p]
  show "site_plan env (start_plan (services_of env) sched r s)" "site_plan env (stop_plan (services_of env) sched s)"
    "site_plan env (delete_plan (services_of env) sched opts parent s)"
    unfolding site_plan_def by (intro ballI allI keep; blast)+
qed

lemma callbacks_outside:
  assumes "\<And>w r. P (outside w) \<Longrightarrow> P (outside (w\<lparr>sm_db := snd (record_activity (me_flt env w) (clock (me_run env) w)
      (me_json env) (redact_string (me_iter env) (sm_reg w)) (Some s) plan r (sm_db w))\<rparr>))"
  shows "callbacks_keep (manager_callbacks env s plan) (\<lambda>w. P (outside w))"
  using assms by (simp add: callbacks_keep_def manager_callbacks_def fire_def)

lemma run_plan_outside:
  assumes "run_plan env s pl w = (e, w')" "site_plan env pl" "P (outside w)"
    and "\<And>w r. P (outside w) \<Longrightarrow> P (outside (w\<lparr>sm_db := snd (record_activity (me_flt env w) (clock (me_run env) w)
      (me_json env) (redact_string (me_iter env) (sm_reg w)) (Some s) (plan_name pl) r (sm_db w))\<rparr>))"
  shows "P (outside w')"
proof -
  obtain r where r: "run (me_run env) pl (manager_callbacks env s (plan_name pl)) w = (r, w')"
    using assms(1) by (auto simp: run_plan_def split: prod.splits)
  show ?thesis
    by (rule run_keeps [where I = "\<lambda>w. P (outside w)", OF r callbacks_outside [where P = P, OF assms(4)] assms(3)])
      (use assms(2) in \<open>auto simp: site_plan_def\<close>)
qed

text \<open>The rows of sites and the registry, which the recorded activity does not touch.\<close>

definition rows :: "'e manager \<Rightarrow> site list" where "rows w = db_sites (sm_db w)"

lemma run_plan_rows:
  assumes "run_plan env s pl w = (e, w')" "site_plan env pl"
  shows "rows w' = rows w" "sm_reg w' = sm_reg w" "db_inv (sm_db w) \<Longrightarrow> db_inv (sm_db w')"
proof -
  show "rows w' = rows w"
    using run_plan_outside [OF assms, of "\<lambda>x. db_sites (fst x) = rows w"]
    by (simp add: outside_def rows_def record_activity_sites)
  show "sm_reg w' = sm_reg w"
    using run_plan_outside [OF assms, of "\<lambda>x. fst (snd x) = sm_reg w"] by (simp add: outside_def)
  show "db_inv (sm_db w) \<Longrightarrow> db_inv (sm_db w')"
    using run_plan_outside [OF assms, of "\<lambda>x. db_inv (fst x)"] by (simp add: outside_def record_activity_inv)
qed

text \<open>The other parts.\<close>

lemma frames [simp]:
  "rows (emit_sites_update env w) = rows w" "sm_db (emit_sites_update env w) = sm_db w"
  "sm_reg (emit_sites_update env w) = sm_reg w" "sm_eng (emit_sites_update env w) = sm_eng w"
  "sm_db (write_config_yaml env s w) = sm_db w" "sm_reg (write_config_yaml env s w) = sm_reg w"
  "rows (write_config_yaml env s w) = rows w" "rows (notify_updated s w) = rows w"
  "sm_db (notify_updated s w) = sm_db w" "sm_reg (notify_updated s w) = sm_reg w" "sm_eng (notify_updated s w) = sm_eng w"
  by (simp_all add: emit_sites_update_def write_config_yaml_def notify_updated_def rows_def Let_def split: sum.split)

lemma outside_eqD: "outside w' = outside w \<Longrightarrow> sm_db w' = sm_db w" "outside w' = outside w \<Longrightarrow> sm_reg w' = sm_reg w"
  "outside w' = outside w \<Longrightarrow> rows w' = rows w"
  by (simp_all add: outside_def rows_def)

lemma fire_hooks_outside: "fire_hooks env ev s w = (e, w') \<Longrightarrow> outside w' = outside w"
  by (simp add: fire_hooks_def on_engine_outside)

lemma fire_hooks_db [simp]: "sm_db (snd (fire_hooks env ev s w)) = sm_db w" "sm_reg (snd (fire_hooks env ev s w)) = sm_reg w"
  "rows (snd (fire_hooks env ev s w)) = rows w"
  by (simp_all add: fire_hooks_def on_engine_def rows_def split_beta)

lemma and_then_keeps: "keeps v f \<Longrightarrow> keeps v g \<Longrightarrow> keeps v (and_then f g)" by (rule keeps_comb)

lemma multisite_outside: "outside (snd (ensure_multisite_with_hooks env s w)) = outside w"
proof -
  have "keeps outside (ensure_multisite env s)"
  proof -
    have "keeps outside (and_then (\<lambda>w. labelled ''wp core install'' (on_engine (me_wp_install env s) w))
            (\<lambda>w. labelled ''multisite convert'' (on_engine (me_wp_convert env s (site_multisite s)) w)))"
      by (intro and_then_keeps keeps_comb(1) on_engine_keeps(1))
    then show ?thesis
      using on_engine_keeps(1) [of "me_wp_network env s"]
      unfolding keeps_def ensure_multisite_def by (simp add: split_beta split: bool.split)
  qed
  then have "keeps outside (ensure_multisite_with_hooks env s)"
    unfolding ensure_multisite_with_hooks_def fire_hooks_def by (intro and_then_keeps on_engine_keeps(1))
  then show ?thesis by (simp add: keeps_def)
qed

lemma route_outside: "site_route_of env s w = (r, w') \<Longrightarrow> outside w' = outside w"
  by (auto simp: site_route_of_def dest: on_engine_outside split: prod.splits if_splits)

lemma save_cases:
  assumes "save env s w = (s', e, w')"
  obtains (saved) "e = None" "s' = mirror_mysql_version (s\<lparr>site_updated_at := me_now env w\<rparr>)" "w' = w\<lparr>sm_db := sql_update_site s' (sm_db w)\<rparr>"
  | (failed) t where "e = Some t" "w' = w"
  using assms unfolding save_def update_site_def Let_def by (auto split: prod.splits sum.splits dest: exec_Inr)

lemma save_inv: "db_inv (sm_db w) \<Longrightarrow> save env s w = (s', e, w') \<Longrightarrow> db_inv (sm_db w') \<and> sm_reg w' = sm_reg w"
  using update_site_inv [of "sm_db w" "me_flt env w" "me_now env w" s]
  by (auto simp: save_def split: prod.splits)

section \<open>Starting and stopping a site\<close>

definition row_of :: "string \<Rightarrow> 'e manager \<Rightarrow> site option" where
  "row_of sid w = find (\<lambda>r. site_id r = sid) (rows w)"

text \<open>One row replaced by a struct with its id, the creation time kept.\<close>

definition replace_row :: "site \<Rightarrow> site list \<Rightarrow> site list" where
  "replace_row s rs = map (\<lambda>r. if site_id r = site_id s then s\<lparr>site_created_at := site_created_at r\<rparr> else r) rs"

lemma rows_saved: "rows (w\<lparr>sm_db := sql_update_site s (sm_db w)\<rparr>) = replace_row s (rows w)"
  by (simp add: rows_def sql_update_site_def replace_row_def)

text \<open>What the struct becomes on its way into its row.\<close>

definition stored :: "'e manager_env \<Rightarrow> 'e manager \<Rightarrow> site \<Rightarrow> site" where
  "stored env w s = mirror_mysql_version (s\<lparr>site_updated_at := me_now env w\<rparr>)"

lemma started_up_rows:
  assumes "started_up env s w = (e, w')"
  shows "rows w' = rows w \<and> e \<noteq> None \<or> rows w' = replace_row (stored env w (s\<lparr>site_started := True\<rparr>)) (rows w)"
proof -
  obtain s' e1 w1 where sv: "save env (s\<lparr>site_started := True\<rparr>) w = (s', e1, w1)" by (metis prod_cases3)
  from sv show ?thesis
  proof (cases rule: save_cases)
    case saved
    obtain e2 w2 where wp: "on_engine (me_wp_install env s') w1 = (e2, w2)" by (metis surj_pair)
    have r2: "rows w2 = rows w1" using on_engine_outside [OF wp] by (rule outside_eqD)
    have r1: "rows w1 = replace_row (stored env w (s\<lparr>site_started := True\<rparr>)) (rows w)"
      using saved rows_saved [where w = w and s = s'] by (simp add: stored_def)
    have r3: "rows (snd (ensure_multisite_with_hooks env s' w2)) = rows w2" using multisite_outside by (rule outside_eqD)
    have "rows w' = rows w2"
    proof (cases e2)
      case None
      then have "fire_hooks env ''post-start'' s' (write_config_yaml env s' (notify_updated s'
          (if site_multisite s' \<noteq> [] then snd (ensure_multisite_with_hooks env s' w2) else w2))) = (e, w')"
        using assms sv saved(1) wp by (simp add: started_up_def Let_def)
      from outside_eqD(3) [OF fire_hooks_outside [OF this]] r3 show ?thesis by (simp split: if_splits)
    qed (use assms sv saved(1) wp in \<open>simp add: started_up_def\<close>)
    with r1 r2 show ?thesis by simp
  next
    case (failed t)
    then show ?thesis using assms sv by (auto simp: started_up_def)
  qed
qed

lemma start_locked_rows:
  assumes "start_locked env s w = (e, w')"
  shows "rows w' = rows w \<and> e \<noteq> None \<or> (\<exists>v. rows w' = replace_row (stored env v (s\<lparr>site_started := True\<rparr>)) (rows w))"
proof -
  obtain e1 w1 where h: "fire_hooks env ''pre-start'' s w = (e1, w1)" by (metis surj_pair)
  have r1: "rows w1 = rows w" using fire_hooks_outside [OF h] by (rule outside_eqD)
  show ?thesis
  proof (cases e1)
    case None
    obtain r w2 where rt: "site_route_of env s w1 = (r, w2)" by (metis surj_pair)
    have r2: "rows w2 = rows w" using route_outside [OF rt] r1 by (metis outside_eqD(3))
    obtain e3 w3 where p: "run_plan env s (start_plan (services_of env) (me_sched env w2) r s) w2 = (e3, w3)" by (metis surj_pair)
    have r3: "rows w3 = rows w" using run_plan_rows(1) [OF p site_plans(1)] r2 by simp
    show ?thesis
    proof (cases e3)
      case NoneP: None
      then have "started_up env s w3 = (e, w')" using assms h None rt p by (simp add: start_locked_def)
      from started_up_rows [OF this] r3 show ?thesis by auto
    qed (use assms h None rt p r3 in \<open>auto simp: start_locked_def\<close>)
  qed (use assms h r1 in \<open>auto simp: start_locked_def\<close>)
qed

lemma stop_locked_rows:
  assumes "stop_locked env s w = (e, w')"
  shows "rows w' = rows w \<and> e \<noteq> None \<or> (\<exists>v. rows w' = replace_row (stored env v (s\<lparr>site_started := False\<rparr>)) (rows w))"
proof -
  obtain e1 w1 where h: "fire_hooks env ''pre-stop'' s w = (e1, w1)" by (metis surj_pair)
  have r1: "rows w1 = rows w" using fire_hooks_outside [OF h] by (rule outside_eqD)
  show ?thesis
  proof (cases e1)
    case None
    obtain e3 w3 where p: "run_plan env s (stop_plan (services_of env) (me_sched env w1) s) w1 = (e3, w3)" by (metis surj_pair)
    have r3: "rows w3 = rows w" using run_plan_rows(1) [OF p site_plans(2)] r1 by simp
    show ?thesis
    proof (cases e3)
      case NoneP: None
      obtain s' e4 w4 where sv: "save env (s\<lparr>site_started := False\<rparr>) w3 = (s', e4, w4)" by (metis prod_cases3)
      from sv show ?thesis
      proof (cases rule: save_cases)
        case saved
        have "w' = snd (fire_hooks env ''post-stop'' s' (notify_updated s' w4))"
          using assms h None p NoneP sv saved by (simp add: stop_locked_def)
        then have "rows w' = replace_row s' (rows w)" using saved rows_saved [where w = w3 and s = s'] r3 by simp
        then show ?thesis using saved by (auto simp: stored_def)
      next
        case (failed t)
        then show ?thesis using assms h None p NoneP sv r3 by (auto simp: stop_locked_def)
      qed
    qed (use assms h None p r3 in \<open>auto simp: stop_locked_def\<close>)
  qed (use assms h r1 in \<open>auto simp: stop_locked_def\<close>)
qed

lemma find_replace_row:
  "find (\<lambda>r. site_id r = x) (replace_row t rs) =
     (if site_id t = x then map_option (\<lambda>r. t\<lparr>site_created_at := site_created_at r\<rparr>) (find (\<lambda>r. site_id r = x) rs)
      else find (\<lambda>r. site_id r = x) rs)"
  by (induction rs) (auto simp: replace_row_def)

lemma stored_simps [simp]:
  "site_id (stored env w s) = site_id s" "site_started (stored env w s) = site_started s"
  "site_public_dir (stored env w s) = site_public_dir s" "site_db_engine (stored env w s) = site_db_engine s"
  "site_db_version (stored env w s) = site_db_version s" "site_db_password (stored env w s) = site_db_password s"
  "site_parent_site_id (stored env w s) = site_parent_site_id s" "site_slug (stored env w s) = site_slug s"
  by (simp_all add: stored_def mirror_mysql_version_def)

lemma fetch_row:
  assumes "fetch env sid w = Inr (Some s)"
  obtains r where "row_of sid w = Some r" "s = hydrate_legacy_db_fields r" "site_id s = sid"
proof -
  obtain r where r: "row_of sid w = Some r" "s = hydrate_legacy_db_fields r"
    using assms by (auto simp: fetch_def get_site_def row_of_def rows_def split: sum.splits dest: exec_Inr)
  moreover have "site_id s = sid"
    using r by (auto simp: row_of_def find_Some_iff hydrate_legacy_db_fields_def Let_def)
  ultimately show thesis by (rule that)
qed

section \<open>The containers after a start\<close>

text \<open>Hooks, WP-CLI, the address detection and the files written beside leave the containers alone.\<close>

definition surroundings_keep :: "('e \<Rightarrow> 'v) \<Rightarrow> 'e manager_env \<Rightarrow> bool" where
  "surroundings_keep v env \<longleftrightarrow>
     services_keep v (me_sv env) \<and> (\<forall>ev s. keeps v (me_hook env ev s)) \<and> keeps v (me_lan_ip env) \<and>
     (\<forall>s. keeps v (me_wp_install env s)) \<and> (\<forall>s. keeps v (me_wp_network env s)) \<and>
     (\<forall>s m. keeps v (me_wp_convert env s m)) \<and> (\<forall>s hs e. v (me_write_config env s hs e) = v e)"

lemma on_engine_eq: "on_engine f w = (r, w') \<longleftrightarrow> (\<exists>e. f (sm_eng w) = (r, e) \<and> w' = w\<lparr>sm_eng := e\<rparr>)"
  by (auto simp: on_engine_def split: prod.splits)

lemma lift_runtime_simps:
  "rt_ensure (lift_runtime rt) c sp w = (x, w') \<longleftrightarrow> (\<exists>e. rt_ensure rt c sp (sm_eng w) = (x, e) \<and> w' = w\<lparr>sm_eng := e\<rparr>)"
  "rt_start (lift_runtime rt) c n w = (y, w') \<longleftrightarrow> (\<exists>e. rt_start rt c n (sm_eng w) = (y, e) \<and> w' = w\<lparr>sm_eng := e\<rparr>)"
  "rt_stop (lift_runtime rt) c n t w = (y, w') \<longleftrightarrow> (\<exists>e. rt_stop rt c n t (sm_eng w) = (y, e) \<and> w' = w\<lparr>sm_eng := e\<rparr>)"
  "rt_remove (lift_runtime rt) c n w = (y, w') \<longleftrightarrow> (\<exists>e. rt_remove rt c n (sm_eng w) = (y, e) \<and> w' = w\<lparr>sm_eng := e\<rparr>)"
  by (auto simp: lift_runtime_def on_engine_eq)

context container_runtime begin

lemma lifted: "container_runtime (\<lambda>w. view (sm_eng w)) hash (lift_runtime rt)"
proof
  fix c sp n t w w' i e
  show "\<exists>b. view (sm_eng w') = (view (sm_eng w))(cs_name sp \<mapsto> (Some (hash sp), b))"
    if "rt_ensure (lift_runtime rt) c sp w = (Inr i, w')"
    using that ensure_ok [of c sp "sm_eng w"] by (auto simp: lift_runtime_simps)
  show "(view (sm_eng w'))(cs_name sp := None) = (view (sm_eng w))(cs_name sp := None)"
    if "rt_ensure (lift_runtime rt) c sp w = (Inl e, w')"
    using that ensure_err [of c sp "sm_eng w"] by (auto simp: lift_runtime_simps)
  show "\<exists>h b. view (sm_eng w) n = Some (h, b) \<and> view (sm_eng w') = (view (sm_eng w))(n \<mapsto> (h, True))"
    if "rt_start (lift_runtime rt) c n w = (None, w')"
    using that start_ok [of c n "sm_eng w"] by (auto simp: lift_runtime_simps)
  show "view (sm_eng w') = view (sm_eng w)" if "rt_start (lift_runtime rt) c n w = (Some e, w')"
    using that start_err [of c n "sm_eng w"] by (auto simp: lift_runtime_simps)
  show "view (sm_eng w') = (view (sm_eng w))(n := map_option (\<lambda>(h, b). (h, False)) (view (sm_eng w) n))"
    if "rt_stop (lift_runtime rt) c n t w = (None, w')"
    using that stop_ok [of c n t "sm_eng w"] by (auto simp: lift_runtime_simps)
  show "view (sm_eng w') = view (sm_eng w)" if "rt_stop (lift_runtime rt) c n t w = (Some e, w')"
    using that stop_err [of c n t "sm_eng w"] by (auto simp: lift_runtime_simps)
  show "view (sm_eng w') = (view (sm_eng w))(n := None)" if "rt_remove (lift_runtime rt) c n w = (None, w')"
    using that remove_ok [of c n "sm_eng w"] by (auto simp: lift_runtime_simps)
  show "view (sm_eng w') = view (sm_eng w)" if "rt_remove (lift_runtime rt) c n w = (Some e, w')"
    using that remove_err [of c n "sm_eng w"] by (auto simp: lift_runtime_simps)
  show "view (sm_eng (snd (rt_pull (lift_runtime rt) c n w))) = view (sm_eng w)"
    "view (sm_eng (snd (rt_wait_ready (lift_runtime rt) c n t w))) = view (sm_eng w)"
    using pull_view [of c n "sm_eng w"] wait_view [of c n t "sm_eng w"]
    by (simp_all add: lift_runtime_def on_engine_def split_beta)
qed

end

lemma callbacks_engine: "callbacks_keep (manager_callbacks env s plan) (\<lambda>w. v (sm_eng w) = x)"
  by (simp add: callbacks_keep_def manager_callbacks_def fire_def)

lemma services_of_simps [simp]:
  "sv_rt (services_of env) = lift_runtime (sv_rt (me_sv env))" "sv_env (services_of env) = sv_env (me_sv env)"
  "sv_home (services_of env) = sv_home (me_sv env)" "sv_dec_marker (services_of env) = sv_dec_marker (me_sv env)"
  "read_marker (services_of env) s = on_engine (read_marker (me_sv env) s)"
  by (simp_all add: lift_services_def read_marker_def)

abbreviation specs_of :: "'e manager_env \<Rightarrow> site \<Rightarrow> container_spec list" where
  "specs_of env s \<equiv> service_specs (sv_env (me_sv env)) (sv_home (me_sv env)) s"

lemma keeps_engine: "keeps v f \<Longrightarrow> on_engine f w = (r, w') \<Longrightarrow> v (sm_eng w') = v (sm_eng w)"
  unfolding on_engine_eq keeps_def by (metis manager.select_convs(3) manager.surjective manager.update_convs(3) snd_conv)

lemma multisite_engine:
  assumes "surroundings_keep v env"
  shows "v (sm_eng (snd (ensure_multisite_with_hooks env s w))) = v (sm_eng w)"
proof -
  let ?v = "\<lambda>w. v (sm_eng w)"
  have k2: "keeps ?v (on_engine f)" if "keeps v f" for f :: "'a \<Rightarrow> bool \<times> 'a" using that by (rule on_engine_keeps(2))
  have "keeps ?v (and_then (\<lambda>w. labelled ''wp core install'' (on_engine (me_wp_install env s) w))
            (\<lambda>w. labelled ''multisite convert'' (on_engine (me_wp_convert env s (site_multisite s)) w)))"
    by (intro and_then_keeps keeps_comb(1) on_engine_keeps(2)) (use assms in \<open>auto simp: surroundings_keep_def\<close>)
  then have "keeps ?v (ensure_multisite env s)"
    using k2 [of "me_wp_network env s"] assms
    unfolding keeps_def ensure_multisite_def surroundings_keep_def by (simp add: split_beta split: bool.split)
  then have "keeps ?v (ensure_multisite_with_hooks env s)"
    unfolding ensure_multisite_with_hooks_def fire_hooks_def
    by (intro and_then_keeps on_engine_keeps(2)) (use assms in \<open>auto simp: surroundings_keep_def\<close>)
  then show ?thesis by (simp add: keeps_def)
qed

lemma started_up_engine:
  assumes k: "surroundings_keep v env" and st: "started_up env s w = (e, w')"
  shows "v (sm_eng w') = v (sm_eng w)"
proof -
  obtain s' e1 w1 where sv: "save env (s\<lparr>site_started := True\<rparr>) w = (s', e1, w1)" by (metis prod_cases3)
  have r1: "sm_eng w1 = sm_eng w" using sv by (auto simp: save_def split: prod.splits)
  show ?thesis
  proof (cases e1)
    case None
    obtain e2 w2 where wp: "on_engine (me_wp_install env s') w1 = (e2, w2)" by (metis surj_pair)
    have r2: "v (sm_eng w2) = v (sm_eng w)" using keeps_engine [where v = v, OF _ wp] k r1 by (simp add: surroundings_keep_def)
    show ?thesis
    proof (cases e2)
      case NoneE: None
      have f: "fire_hooks env ''post-start'' s' (write_config_yaml env s' (notify_updated s'
          (if site_multisite s' \<noteq> [] then snd (ensure_multisite_with_hooks env s' w2) else w2))) = (e, w')"
        using st sv None wp NoneE by (simp add: started_up_def Let_def)
      have c: "v (sm_eng (write_config_yaml env s' u)) = v (sm_eng u)" for u
        using k by (simp add: write_config_yaml_def surroundings_keep_def Let_def)
      show ?thesis
        using keeps_engine [where v = v, OF _ f [unfolded fire_hooks_def]] k c r2 multisite_engine [OF k, of s' w2]
        by (simp add: surroundings_keep_def split: if_splits)
    qed (use st sv None wp r2 in \<open>simp add: started_up_def\<close>)
  qed (use st sv r1 in \<open>simp add: started_up_def\<close>)
qed

context container_runtime begin

text \<open>The containers after \<open>start_locked\<close>: up when it succeeds.\<close>

lemma start_locked_up:
  assumes k: "surroundings_keep view env" and rt: "sv_rt (me_sv env) = rt" and st: "start_locked env s w = (None, w')"
  shows "brought_up (specs_of env s) (sm_eng w) (sm_eng w')"
proof -
  have sk: "services_keep (\<lambda>w. view (sm_eng w)) (services_of env)"
    using k by (intro lift_services_keep(2)) (simp add: surroundings_keep_def)
  obtain e1 w1 where h: "fire_hooks env ''pre-start'' s w = (e1, w1)" by (metis surj_pair)
  have e1: "e1 = None" using st h by (cases e1) (simp_all add: start_locked_def)
  have v1: "view (sm_eng w1) = view (sm_eng w)"
    using keeps_engine [where v = view, OF _ h [unfolded fire_hooks_def]] k by (simp add: surroundings_keep_def)
  obtain r w2 where ro: "site_route_of env s w1 = (r, w2)" by (metis surj_pair)
  have v2: "view (sm_eng w2) = view (sm_eng w1)"
  proof (cases "site_lan_enabled s")
    case True
    then obtain i where "on_engine (me_lan_ip env) w1 = (i, w2)" using ro by (auto simp: site_route_of_def split: prod.splits)
    from keeps_engine [where v = view, OF _ this] k show ?thesis by (simp add: surroundings_keep_def)
  qed (use ro in \<open>simp add: site_route_of_def\<close>)
  obtain e3 w3 where p: "run_plan env s (start_plan (services_of env) (me_sched env w2) r s) w2 = (e3, w3)" by (metis surj_pair)
  have e3: "e3 = None" using st h e1 ro p by (cases e3) (simp_all add: start_locked_def)
  then obtain res where run: "run (me_run env) (start_plan (services_of env) (me_sched env w2) r s)
      (manager_callbacks env s (plan_name (start_plan (services_of env) (me_sched env w2) r s))) w2 = (res, w3)"
      "res_final_error res = None"
    using p by (auto simp: run_plan_def split: prod.splits)
  have rt': "sv_rt (services_of env) = lift_runtime rt" using rt by simp
  have up: "container_runtime.brought_up (\<lambda>w. view (sm_eng w)) hash (specs_of env s) w2 w3"
    using container_runtime.start_brings_up [OF lifted sk rt' callbacks_engine run] by simp
  have su: "started_up env s w3 = (None, w')" using st h e1 ro p e3 by (simp add: start_locked_def)
  have "view (sm_eng w') = view (sm_eng w3)" by (rule started_up_engine [OF k su])
  with up v1 v2 show ?thesis
    unfolding brought_up_def container_runtime.brought_up_def [OF lifted] by simp
qed

text \<open>A foreign marker: nothing happens to the containers, whatever the outcome is called.\<close>

lemma start_locked_blocked:
  assumes k: "surroundings_keep view env" and rt: "sv_rt (me_sv env) = rt" and st: "start_locked env s w = (e, w')"
    and marker: "\<And>eng. marker_verdict (me_sv env) s (fst (read_marker (me_sv env) s eng)) \<noteq> None"
  shows "e \<noteq> None \<and> view (sm_eng w') = view (sm_eng w) \<and> rows w' = rows w"
proof -
  have sk: "services_keep (\<lambda>w. view (sm_eng w)) (services_of env)"
    using k by (intro lift_services_keep(2)) (simp add: surroundings_keep_def)
  have mk: "marker_verdict (services_of env) s (fst (read_marker (services_of env) s u)) \<noteq> None" for u
  proof -
    have "marker_verdict (services_of env) s x = marker_verdict (me_sv env) s x" for x
      by (cases x; cases "snd x") (simp_all add: marker_verdict_def)
    moreover have "fst (read_marker (services_of env) s u) = fst (read_marker (me_sv env) s (sm_eng u))"
      by (simp add: on_engine_def split_beta)
    ultimately show ?thesis using marker [of "sm_eng u"] by simp
  qed
  obtain e1 w1 where h: "fire_hooks env ''pre-start'' s w = (e1, w1)" by (metis surj_pair)
  have v1: "view (sm_eng w1) = view (sm_eng w)" "rows w1 = rows w"
    using keeps_engine [where v = view, OF _ h [unfolded fire_hooks_def]] k outside_eqD(3) [OF fire_hooks_outside [OF h]]
    by (simp_all add: surroundings_keep_def)
  show ?thesis
  proof (cases e1)
    case None
    obtain r w2 where ro: "site_route_of env s w1 = (r, w2)" by (metis surj_pair)
    have v2: "view (sm_eng w2) = view (sm_eng w1)" "rows w2 = rows w1"
    proof -
      show "view (sm_eng w2) = view (sm_eng w1)"
      proof (cases "site_lan_enabled s")
        case True
        then obtain i where "on_engine (me_lan_ip env) w1 = (i, w2)" using ro by (auto simp: site_route_of_def split: prod.splits)
        from keeps_engine [where v = view, OF _ this] k show ?thesis by (simp add: surroundings_keep_def)
      qed (use ro in \<open>simp add: site_route_of_def\<close>)
      show "rows w2 = rows w1" using route_outside [OF ro] by (rule outside_eqD(3))
    qed
    obtain e3 w3 where p: "run_plan env s (start_plan (services_of env) (me_sched env w2) r s) w2 = (e3, w3)" by (metis surj_pair)
    then obtain res where run: "run (me_run env) (start_plan (services_of env) (me_sched env w2) r s)
        (manager_callbacks env s (plan_name (start_plan (services_of env) (me_sched env w2) r s))) w2 = (res, w3)"
        "e3 = res_final_error res"
      by (auto simp: run_plan_def split: prod.splits)
    have rt': "sv_rt (services_of env) = lift_runtime rt" using rt by simp
    have b: "view (sm_eng w3) = view (sm_eng w2) \<and> res_final_error res \<noteq> None"
      by (rule container_runtime.start_blocked_by_marker [OF lifted sk rt' callbacks_engine mk run(1)])
    then obtain x where "e3 = Some x" using run(2) by auto
    then have "e = Some x" "w' = w3" using st h None ro p by (simp_all add: start_locked_def)
    then show ?thesis using b v1 v2 run_plan_rows(1) [OF p site_plans(1)] by simp
  qed (use st h v1 in \<open>auto simp: start_locked_def\<close>)
qed

end

end
