(* ===== verification/Lifecycle_Inv.thy ===== *)
theory Lifecycle_Inv
  imports Lifecycle_Props
begin

text \<open>
  What every sequence of operations of the site manager keeps: the invariant of the database and the registration of every
  stored database password, so that redaction covers it. \<open>refreshes\<close> is the effect of everything but creation, deletion
  and the start-up: ids and passwords of the rows and the registry stay, whatever else changes.
\<close>

section \<open>Operations that leave ids and passwords\<close>

definition credentials :: "'e manager \<Rightarrow> (string \<times> string) list" where
  "credentials w = map (\<lambda>r. (site_id r, site_db_password r)) (rows w)"

definition refreshes :: "'e manager \<Rightarrow> 'e manager \<Rightarrow> bool" where
  "refreshes w w' \<longleftrightarrow> credentials w' = credentials w \<and> sm_reg w' = sm_reg w \<and> (db_inv (sm_db w) \<longrightarrow> db_inv (sm_db w'))"

lemma refreshes_refl [simp]: "refreshes w w" by (simp add: refreshes_def)

lemma refreshes_trans [trans]: "refreshes u v \<Longrightarrow> refreshes v w \<Longrightarrow> refreshes u w" by (auto simp: refreshes_def)

lemma outside_refreshes: "outside w' = outside w \<Longrightarrow> refreshes w w'"
  by (simp add: refreshes_def credentials_def rows_def outside_def)

lemma frame_refreshes [simp]:
  "refreshes w (emit_sites_update env v) = refreshes w v" "refreshes w (write_config_yaml env s v) = refreshes w v"
  "refreshes w (notify_updated s v) = refreshes w v"
  by (simp_all add: refreshes_def credentials_def)

text \<open>The struct still carries the password of the row it will be written to.\<close>

definition current :: "site \<Rightarrow> 'e manager \<Rightarrow> bool" where
  "current s w \<longleftrightarrow> (\<forall>c\<in>set (credentials w). fst c = site_id s \<longrightarrow> snd c = site_db_password s)"

lemma current_refreshes: "refreshes w w' \<Longrightarrow> current s w \<Longrightarrow> current s w'" by (simp add: refreshes_def current_def)

lemma current_same: "site_id t = site_id s \<Longrightarrow> site_db_password t = site_db_password s \<Longrightarrow> current s w \<Longrightarrow> current t w"
  by (simp add: current_def)

lemma fetch_current:
  assumes "db_inv (sm_db w)" "fetch env sid w = Inr (Some s)"
  shows "current s w" "site_id s = sid" "\<exists>r\<in>set (rows w). site_id r = sid \<and> site_db_password r = site_db_password s"
proof -
  obtain r where r: "row_of sid w = Some r" "s = hydrate_legacy_db_fields r" "site_id s = sid" using assms(2) by (rule fetch_row)
  have h: "site_db_password s = site_db_password r" by (simp add: r(2) hydrate_legacy_db_fields_def Let_def)
  have m: "r \<in> set (rows w)" "site_id r = sid" using r(1) by (auto simp: row_of_def find_Some_iff)
  have "q = r" if "q \<in> set (rows w)" "site_id q = sid" for q
    using assms(1) m that by (auto simp: db_inv_def rows_def distinct_map inj_on_def)
  then show "current s w" using h r(3) by (auto simp: current_def credentials_def)
  show "site_id s = sid" by (rule r(3))
  show "\<exists>r\<in>set (rows w). site_id r = sid \<and> site_db_password r = site_db_password s" using m h by auto
qed

lemma save_refreshes:
  assumes "current s w" "save env s w = (s', e, w')"
  shows "refreshes w w'"
  using assms(2)
proof (cases rule: save_cases)
  case saved
  have "rows w' = replace_row s' (rows w)" using saved by (simp add: rows_saved)
  moreover have "site_id s' = site_id s" "site_db_password s' = site_db_password s" by (simp_all add: saved(2) mirror_mysql_version_def)
  ultimately have "credentials w' = credentials w"
    using assms(1) by (auto simp: credentials_def replace_row_def current_def)
  then show ?thesis using save_inv [OF _ assms(2)] saved(3) by (simp add: refreshes_def)
next
  case (failed t)
  then show ?thesis by simp
qed

lemma save_key:
  assumes "save env s w = (s', None, w')"
  shows "site_id s' = site_id s \<and> site_db_password s' = site_db_password s"
  using assms by (cases rule: save_cases) (simp_all add: mirror_mysql_version_def)

lemma hooks_refresh: "refreshes w (snd (fire_hooks env ev s w))"
  by (rule outside_refreshes, rule fire_hooks_outside) (rule prod.collapse [symmetric])

lemma engine_refresh: "refreshes w (snd (on_engine f w))"
  by (rule outside_refreshes, rule on_engine_outside) (rule prod.collapse [symmetric])

lemma plan_refresh: "site_plan env pl \<Longrightarrow> refreshes w (snd (run_plan env s pl w))"
  using run_plan_rows [of env s pl w "fst (run_plan env s pl w)" "snd (run_plan env s pl w)"] by (simp add: refreshes_def credentials_def)

lemma route_refresh: "refreshes w (snd (site_route_of env s w))"
  by (rule outside_refreshes, rule route_outside) (rule prod.collapse [symmetric])

lemma started_up_refresh:
  assumes "current s w"
  shows "refreshes w (snd (started_up env s w))"
proof -
  obtain s' e1 w1 where sv: "save env (s\<lparr>site_started := True\<rparr>) w = (s', e1, w1)" by (metis prod_cases3)
  have r1: "refreshes w w1" by (rule save_refreshes [OF _ sv]) (use assms in \<open>simp add: current_def\<close>)
  obtain e2 w2 where wp: "on_engine (me_wp_install env s') w1 = (e2, w2)" by (metis surj_pair)
  have r2: "refreshes w1 w2" using engine_refresh [of w1 "me_wp_install env s'"] wp by simp
  define v where "v = (if site_multisite s' \<noteq> [] then snd (ensure_multisite_with_hooks env s' w2) else w2)"
  have r3: "refreshes w2 v" by (simp add: v_def outside_refreshes [OF multisite_outside])
  have r4: "refreshes v (snd (fire_hooks env ''post-start'' s' (write_config_yaml env s' (notify_updated s' v))))"
    by (rule refreshes_trans [OF _ hooks_refresh]) simp
  show ?thesis
    using refreshes_trans [OF r1 r2] refreshes_trans [OF refreshes_trans [OF r1 r2] refreshes_trans [OF r3 r4]] r1 sv wp
    by (cases e1; cases e2) (simp_all add: started_up_def Let_def v_def)
qed

lemma start_refresh:
  assumes "db_inv (sm_db w)"
  shows "refreshes w (snd (start_site env sid w))"
proof -
  have l: "refreshes v (snd (start_locked env s v))" if "current s v" for s v
  proof -
    obtain e1 w1 where h: "fire_hooks env ''pre-start'' s v = (e1, w1)" by (metis surj_pair)
    have r1: "refreshes v w1" using hooks_refresh [of v env "''pre-start''" s] h by simp
    obtain r w2 where ro: "site_route_of env s w1 = (r, w2)" by (metis surj_pair)
    have r2: "refreshes v w2" using refreshes_trans [OF r1] route_refresh [of w1 env s] ro by simp
    obtain e3 w3 where p: "run_plan env s (start_plan (services_of env) (me_sched env w2) r s) w2 = (e3, w3)" by (metis surj_pair)
    have r3: "refreshes v w3" using refreshes_trans [OF r2] plan_refresh [OF site_plans(1)] p by (metis snd_conv)
    have "refreshes v (snd (started_up env s w3))"
      using refreshes_trans [OF r3 started_up_refresh] current_refreshes [OF r3 that] by blast
    then show ?thesis using h r1 ro p r3 by (cases e1; cases e3) (simp_all add: start_locked_def)
  qed
  then show ?thesis
    using fetch_current(1) [OF assms] by (auto simp: start_site_def split: sum.split option.split)
qed

lemma stop_refresh:
  assumes "db_inv (sm_db w)"
  shows "refreshes w (snd (stop_site env sid w))"
proof -
  have l: "refreshes v (snd (stop_locked env s v))" if c: "current s v" for s v
  proof -
    obtain e1 w1 where h: "fire_hooks env ''pre-stop'' s v = (e1, w1)" by (metis surj_pair)
    have r1: "refreshes v w1" using hooks_refresh [of v env "''pre-stop''" s] h by simp
    obtain e3 w3 where p: "run_plan env s (stop_plan (services_of env) (me_sched env w1) s) w1 = (e3, w3)" by (metis surj_pair)
    have r3: "refreshes v w3" using refreshes_trans [OF r1] plan_refresh [OF site_plans(2)] p by (metis snd_conv)
    obtain s' x w4 where sv: "save env (s\<lparr>site_started := False\<rparr>) w3 = (s', x, w4)" by (metis prod_cases3)
    have r4: "refreshes v w4"
      using refreshes_trans [OF r3 save_refreshes [OF _ sv]] current_refreshes [OF r3 c] by (simp add: current_def)
    have "refreshes v (snd (fire_hooks env ''post-stop'' s' (notify_updated s' w4)))"
      by (rule refreshes_trans [OF _ hooks_refresh]) (simp add: r4)
    then show ?thesis using h r1 p r3 sv r4 by (cases e1; cases e3; cases x) (simp_all add: stop_locked_def)
  qed
  then show ?thesis
    using fetch_current(1) [OF assms] by (auto simp: stop_site_def split: sum.split option.split)
qed

lemma group_refresh: "refreshes w (snd (group_wait (sv_rt (services_of env)) sched gs w))"
proof -
  have "keeps outside (group_wait (lift_runtime (sv_rt (me_sv env))) sched gs)" by (rule group_wait_keeps) (rule lift_runtime_keeps)
  then show ?thesis by (intro outside_refreshes) (simp add: keeps_def lift_services_def)
qed

lemma changed_versions_key:
  "changed_versions ch s = Inr (Some t) \<Longrightarrow> site_id t = site_id s \<and> site_db_password t = site_db_password s"
  by (auto simp: changed_versions_def Let_def split: if_splits)

lemma versions_refresh:
  assumes "db_inv (sm_db w)"
  shows "refreshes w (snd (update_versions env sid ch w))"
proof -
  have l: "refreshes v (snd (update_versions_locked env ch s v))" if c: "current s v" for s v
  proof (cases "changed_versions ch s")
    case (Inr so)
    show ?thesis
    proof (cases so)
      case (Some t)
      have ct: "current t v" using changed_versions_key [of ch s t] Inr Some c by (auto intro: current_same)
      obtain e1 w1 where h: "fire_hooks env ''pre-versions-change'' t v = (e1, w1)" by (metis surj_pair)
      have r1: "refreshes v w1" using hooks_refresh [of v env "''pre-versions-change''" t] h by simp
      define u where "u = snd (group_wait (sv_rt (services_of env)) (me_sched env w1 0) (remove_group (site_containers (services_of env) t)) w1)"
      have r2: "refreshes v u" unfolding u_def by (rule refreshes_trans [OF r1 group_refresh])
      obtain s' x w4 where sv: "save env t u = (s', x, w4)" by (metis prod_cases3)
      have r4: "refreshes v w4" using refreshes_trans [OF r2 save_refreshes [OF current_refreshes [OF r2 ct] sv]] .
      have "refreshes v (snd (fire_hooks env ''post-versions-change'' s' (write_config_yaml env s' (notify_updated s' w4))))"
        by (rule refreshes_trans [OF _ hooks_refresh]) (simp add: r4)
      then show ?thesis using Inr Some h r1 sv r4 by (cases e1; cases x) (simp_all add: update_versions_locked_def u_def)
    qed (use Inr in \<open>simp add: update_versions_locked_def\<close>)
  qed (simp add: update_versions_locked_def)
  with fetch_current(1) [OF assms] have "refreshes w (snd (update_versions_locked env ch s w))"
    if "fetch env sid w = Inr (Some s)" for s using that by blast
  then show ?thesis by (auto simp: update_versions_def split: sum.split option.split)
qed

lemma save_then_refresh:
  assumes "current t w" "\<And>s' v. refreshes w v \<Longrightarrow> refreshes w (f s' v)"
  shows "refreshes w (snd (case save env t w of (s, Some e, w) \<Rightarrow> (Some (g e), w) | (s, None, w) \<Rightarrow> (None, f s w)))"
proof -
  obtain s' x v where sv: "save env t w = (s', x, v)" by (metis prod_cases3)
  then show ?thesis using save_refreshes [OF assms(1) sv] assms(2) by (cases x) simp_all
qed

lemma settings_refresh:
  assumes "db_inv (sm_db w)"
  shows "refreshes w (snd (update_public_dir env sid dir w))" "refreshes w (snd (set_publish_db_port env sid on w))"
    "refreshes w (snd (set_spx_enabled env sid on w))" "refreshes w (snd (rotate_spx_key env sid w))"
proof -
  note cur = fetch_current(1) [OF assms]
  have key: "current t w" if "current s w" "site_id t = site_id s" "site_db_password t = site_db_password s" for s t
    using that by (auto intro: current_same)
  have st: "refreshes w (snd (store_spx env t w))" if "current t w" for t
    unfolding store_spx_def by (rule save_then_refresh [OF that]) simp
  show "refreshes w (snd (update_public_dir env sid dir w))"
    unfolding update_public_dir_def
    by (auto split: sum.split option.split intro!: save_then_refresh intro: key [OF cur] refreshes_trans)
  show "refreshes w (snd (set_publish_db_port env sid on w))"
    unfolding set_publish_db_port_def
    by (auto split: sum.split option.split intro!: save_then_refresh [where g = "\<lambda>x. x"] intro: key [OF cur] refreshes_trans)
  show "refreshes w (snd (set_spx_enabled env sid on w))"
    unfolding set_spx_enabled_def set_spx_locked_def Let_def
    by (auto split: sum.split option.split intro!: st intro: key [OF cur])
  show "refreshes w (snd (rotate_spx_key env sid w))"
    unfolding rotate_spx_key_def by (auto split: sum.split option.split intro!: st intro: key [OF cur])
qed

section \<open>Deleting\<close>

lemma dirty_outside: "blocked_by_worktree env opts s w = (b, w') \<Longrightarrow> outside w' = outside w"
  by (auto simp: blocked_by_worktree_def dest: on_engine_outside split: if_splits)

definition without_row :: "string \<Rightarrow> site list \<Rightarrow> site list" where
  "without_row sid rs = filter (\<lambda>r. site_id r \<noteq> sid) rs"

text \<open>What the part of a deletion under the mutex does to the rows and the registry.\<close>

lemma delete_locked_effect:
  assumes "delete_locked env opts s w = (e, w')"
  shows "db_inv (sm_db w) \<longrightarrow> db_inv (sm_db w')"
    "rows w' = rows w \<and> sm_reg w' = sm_reg w \<and> (e = None \<longrightarrow> del_dry_run opts) \<or>
     rows w' = without_row (site_id s) (rows w) \<and> sm_reg w' = reg_remove (site_db_password s) (sm_reg w) \<and>
     e = None \<and> \<not> del_dry_run opts"
proof -
  obtain e1 w1 where h: "fire_hooks env ''pre-delete'' s w = (e1, w1)" by (metis surj_pair)
  have r1: "rows w1 = rows w" "sm_reg w1 = sm_reg w" "sm_db w1 = sm_db w"
    using outside_eqD [OF fire_hooks_outside [OF h]] by auto
  obtain e2 w2 where p: "run_plan env s (delete_plan (services_of env) (me_sched env w) opts (parent_repo_dir env s w) s) w1 = (e2, w2)"
    by (metis surj_pair)
  note pl = run_plan_rows [OF p site_plans(3)]
  obtain e3 w3 where q: "fire_hooks env ''post-delete'' s w2 = (e3, w3)" by (metis surj_pair)
  have r3: "rows w3 = rows w2" "sm_reg w3 = sm_reg w2" "sm_db w3 = sm_db w2"
    using outside_eqD [OF fire_hooks_outside [OF q]] by auto
  obtain x d where d: "delete_site (me_flt env w3) (site_id s) (sm_db w3) = (x, d)" by (metis surj_pair)
  have inv: "db_inv (sm_db w3) \<longrightarrow> db_inv d" using delete_site_inv [of "sm_db w3" "me_flt env w3" "site_id s"] d by simp
  have ds: "x = None \<longrightarrow> db_sites d = without_row (site_id s) (db_sites (sm_db w3))" "x \<noteq> None \<longrightarrow> d = sm_db w3"
    using d by (auto simp: delete_site_def sql_delete_site_def exec_def without_row_def split: option.splits)
  have res: "(e, w') = (if del_dry_run opts then (e, w)
      else case e1 of Some t \<Rightarrow> (Some t, w1)
        | None \<Rightarrow> (case x of Some _ \<Rightarrow> (Some ''delete site'', w3\<lparr>sm_db := d\<rparr>)
            | None \<Rightarrow> (None, emit_sites_update env (w3\<lparr>sm_db := d, sm_reg := reg_remove (site_db_password s) (sm_reg w3)\<rparr>))))"
    using assms [symmetric] unfolding delete_locked_def Let_def h
    by (cases "del_dry_run opts"; cases e1; cases x)
      (simp_all only: p q d snd_conv prod.case option.case if_True if_False simp_thms, simp_all)
  show "db_inv (sm_db w) \<longrightarrow> db_inv (sm_db w')"
    using res inv pl(3) r1 r3 by (auto split: if_splits option.splits)
  show "rows w' = rows w \<and> sm_reg w' = sm_reg w \<and> (e = None \<longrightarrow> del_dry_run opts) \<or>
     rows w' = without_row (site_id s) (rows w) \<and> sm_reg w' = reg_remove (site_db_password s) (sm_reg w) \<and>
     e = None \<and> \<not> del_dry_run opts"
  proof -
    have w3: "db_sites (sm_db w3) = rows w" "sm_reg w3 = sm_reg w" using pl(1,2) r1 r3 by (simp_all add: rows_def)
    then show ?thesis using res ds r1 by (cases "del_dry_run opts"; cases e1; cases x) (simp_all add: rows_def)
  qed
qed

lemma without_row_sub: "set (without_row sid rs) \<subseteq> set rs" by (auto simp: without_row_def)

text \<open>
  The cascade: what a single deletion keeps of the state, knowing \<open>K\<close> of the struct it read, every deletion reached keeps,
  if \<open>K\<close> is still known when the worktrees are gone. \<open>A\<close> is a set of ids closed under the worktrees of a site.
\<close>

lemma children_ids:
  assumes "i \<in> set (case sites_by_parent (me_flt env u) sid (sm_db u) of Inl _ \<Rightarrow> [] | Inr cs \<Rightarrow> map site_id cs)"
  shows "\<exists>q\<in>set (rows u). site_parent_site_id q = sid \<and> sid \<noteq> [] \<and> i = site_id q"
proof -
  obtain cs where cs: "sites_by_parent (me_flt env u) sid (sm_db u) = Inr cs" "i \<in> site_id ` set cs"
    using assms by (cases "sites_by_parent (me_flt env u) sid (sm_db u)") auto
  then have "sid \<noteq> []" by (auto simp: sites_by_parent_def)
  with cs(1) have "cs = map hydrate_legacy_db_fields (filter (\<lambda>s. site_parent_site_id s = sid) (db_sites (sm_db u)))"
    by (auto simp: sites_by_parent_def split: sum.splits dest!: exec_Inr)
  with cs(2) \<open>sid \<noteq> []\<close> show ?thesis by (auto simp: rows_def hydrate_legacy_db_fields_def Let_def)
qed

lemma delete_keeps:
  assumes frame: "\<And>w w'. refreshes w w' \<Longrightarrow> rows w' = rows w \<Longrightarrow> I w \<Longrightarrow> I w'"
    and read: "\<And>w sid s. I w \<Longrightarrow> sid \<in> A \<Longrightarrow> fetch env sid w = Inr (Some s) \<Longrightarrow> K s w"
    and child: "\<And>w sid r. I w \<Longrightarrow> sid \<in> A \<Longrightarrow> r \<in> set (rows w) \<Longrightarrow> site_parent_site_id r = sid \<Longrightarrow> sid \<noteq> [] \<Longrightarrow> site_id r \<in> A"
    and sub: "\<And>w w' s. K s w \<Longrightarrow> set (rows w') \<subseteq> set (rows w) \<Longrightarrow> K s w'"
    and del: "\<And>opts s w. I w \<Longrightarrow> K s w \<Longrightarrow> I (snd (delete_locked env opts s w))"
  shows "delete_site_opts fuel env opts sid w = Some r \<Longrightarrow> I w \<Longrightarrow> sid \<in> A \<Longrightarrow> I (snd r) \<and> set (rows (snd r)) \<subseteq> set (rows w)"
proof (induction fuel arbitrary: opts sid w r)
  case (Suc fuel)
  have many: "I v \<and> set (rows v) \<subseteq> set (rows u)"
    if "delete_children fuel env o2 ids u = Some v" "I u" "set ids \<subseteq> A" for o2 ids u v
    using that
  proof (induction ids arbitrary: u)
    case (Cons c cs)
    obtain e x where q: "delete_site_opts fuel env o2 c u = Some (e, x)" using Cons.prems(1) by (auto split: option.splits)
    then have v: "delete_children fuel env o2 cs x = Some v" using Cons.prems(1) by simp
    have "I x \<and> set (rows x) \<subseteq> set (rows u)" using Suc.IH [OF q] Cons.prems(2,3) by simp
    then show ?case using Cons.IH [OF v] Cons.prems(3) by auto
  qed simp
  note I = Suc.prems(2) and A = Suc.prems(3)
  show ?case
  proof (cases "fetch env sid w")
    case (Inl e)
    then show ?thesis using Suc.prems(1) I by auto
  next
    case (Inr so)
    show ?thesis
    proof (cases so)
      case None
      then have "r = (None, emit_sites_update env w)" using Suc.prems(1) Inr by simp
      then show ?thesis using frame [of w "emit_sites_update env w"] I by simp
    next
      case (Some s)
      obtain b u where b: "blocked_by_worktree env opts s w = (b, u)" by (metis surj_pair)
      have o: "refreshes w u" "rows u = rows w"
        using outside_refreshes [OF dirty_outside [OF b]] outside_eqD(3) [OF dirty_outside [OF b]] .
      have Iu: "I u" using frame [OF o I] .
      show ?thesis
      proof (cases b)
        case True
        then show ?thesis using Suc.prems(1) Inr Some b Iu o by auto
      next
        case False
        let ?ids = "if del_dry_run opts then [] else case sites_by_parent (me_flt env u) sid (sm_db u) of Inl _ \<Rightarrow> [] | Inr cs \<Rightarrow> map site_id cs"
        obtain v where v: "delete_children fuel env (opts\<lparr>del_force_worktree := True\<rparr>) ?ids u = Some v"
            and r: "r = delete_locked env opts s v"
          using Suc.prems(1) Inr Some b False by (auto simp: Let_def split: option.splits)
        have "set ?ids \<subseteq> A"
        proof
          fix i
          assume "i \<in> set ?ids"
          then have "i \<in> set (case sites_by_parent (me_flt env u) sid (sm_db u) of Inl _ \<Rightarrow> [] | Inr cs \<Rightarrow> map site_id cs)"
            by (simp split: if_splits)
          from children_ids [OF this] show "i \<in> A" using child [OF Iu A] by blast
        qed
        then have Iv: "I v \<and> set (rows v) \<subseteq> set (rows u)" using many [OF v Iu] by blast
        have kw: "K s w" using read [OF I A] Inr Some by simp
        have "set (rows v) \<subseteq> set (rows w)" using Iv o(2) by simp
        from sub [OF kw this] Iv have I': "I (snd r)" unfolding r by (intro del) simp_all
        have "delete_locked env opts s v = (fst r, snd r)" by (simp add: r)
        from delete_locked_effect(2) [OF this] have "rows (snd r) = rows v \<or> rows (snd r) = without_row (site_id s) (rows v)"
          by blast
        then have "set (rows (snd r)) \<subseteq> set (rows v)" using without_row_sub by (metis subset_refl)
        also have "\<dots> \<subseteq> set (rows w)" using Iv o(2) by simp
        finally show ?thesis using I' by blast
      qed
    qed
  qed
qed simp

section \<open>The credentials invariant\<close>

text \<open>
  Every stored password long enough for the registry is registered, no two sites share one, and what is registered is
  plain, so that redaction removes it.
\<close>

definition long_secret :: "string \<Rightarrow> bool" where "long_secret p \<longleftrightarrow> min_secret_len \<le> length p"

definition unshared :: "(string \<times> string) list \<Rightarrow> bool" where
  "unshared cs \<longleftrightarrow> (\<forall>c\<in>set cs. \<forall>k\<in>set cs. long_secret (snd c) \<and> snd c = snd k \<longrightarrow> fst c = fst k)"

definition manager_inv :: "'e manager \<Rightarrow> bool" where
  "manager_inv w \<longleftrightarrow> db_inv (sm_db w) \<and> finite (reg_values (sm_reg w)) \<and> (\<forall>v\<in>reg_values (sm_reg w). plain_secret v) \<and>
     (\<forall>c\<in>set (credentials w). long_secret (snd c) \<longrightarrow> snd c \<in> reg_values (sm_reg w)) \<and>
     unshared (credentials w)"

lemma manager_inv_refreshes: "refreshes w w' \<Longrightarrow> manager_inv w \<Longrightarrow> manager_inv w'"
  by (simp add: manager_inv_def refreshes_def)

text \<open>Passwords from the random source are hexadecimal, so plain, and not in use.\<close>

definition fresh_passwords :: "'e manager_env \<Rightarrow> bool" where
  "fresh_passwords env \<longleftrightarrow>
     (\<forall>w pw. me_random_hex env w = Inr pw \<longrightarrow> plain_secret pw \<and> pw \<notin> snd ` set (credentials w))"

lemma fill_simps:
  "site_id (fill_site env u pw s) = u" "site_db_password (fill_site env u pw s) = pw"
  "site_id (fill_version e s) = site_id s" "site_db_password (fill_version e s) = site_db_password s"
  by (simp_all add: fill_site_def fill_version_def Let_def)

lemma create_site_cases:
  assumes "create_site env s w = (e, w')" "db_inv (sm_db w)"
  obtains (same) "refreshes w w'" "e \<noteq> None"
  | (added) pw where "me_random_hex env w = Inr pw" "credentials w' = credentials w @ [(me_uuid env w, pw)]" "e = None"
      "sm_reg w' = reg_add pw (sm_reg w)" "db_inv (sm_db w')"
proof (cases "me_path_block env (site_files_dir s)")
  case None
  show thesis
  proof (cases "me_random_hex env w")
    case (Inr pw)
    let ?s = "fill_site env (me_uuid env w) pw s"
    show thesis
    proof (cases "engine_for (site_db_engine ?s)")
      case NoneE: None
      then have "e \<noteq> None" "w' = w" using assms(1) None Inr by (auto simp: create_site_def Let_def)
      then show thesis using same by simp
    next
      case en: (Some en)
      let ?t = "fill_version en ?s"
      obtain x v where m: "on_engine (sv_mkdir (me_sv env) (site_files_dir ?t)) w = (x, v)" by (metis surj_pair)
      have o: "outside v = outside w" using on_engine_outside [OF m] .
      then have db: "sm_db v = sm_db w" "sm_reg v = sm_reg w" using outside_eqD by auto
      show thesis
      proof (cases x)
        case (Some y)
        then have "e \<noteq> None" "w' = v" using assms(1) None Inr en m by (auto simp: create_site_def Let_def)
        then show thesis using same outside_refreshes [OF o] by simp
      next
        case NoneX: None
        obtain t y d where a: "add_site (me_flt env v) (me_now env v) ?t (sm_db v) = (t, y, d)" by (metis prod_cases3)
        have inv: "db_inv d" using add_site_inv [of "sm_db v" "me_flt env v" "me_now env v" ?t] a assms(2) db by simp
        show thesis
        proof (cases y)
          case None2: None
          then have "db_sites d = db_sites (sm_db v) @ [t]" "site_id t = me_uuid env w" "site_db_password t = pw"
            using a by (auto simp: add_site_def Let_def sql_insert_site_def mirror_mysql_version_def fill_simps split: sum.splits if_splits dest!: exec_Inr)
          moreover have "(e, w') = (None, emit_sites_update env (write_config_yaml env t
              (v\<lparr>sm_db := d, sm_reg := reg_add (site_db_password t) (sm_reg v)\<rparr>)))"
            using assms(1) None Inr en m NoneX a None2 by (simp add: create_site_def Let_def)
          ultimately show thesis
            using added [OF Inr] db inv by (simp add: credentials_def) (simp add: rows_def)
        next
          case (Some z)
          then have "d = sm_db v" using a by (auto simp: add_site_def Let_def split: sum.splits)
          moreover have "(e, w') = (Some ''add site'', v\<lparr>sm_db := d\<rparr>)"
            using assms(1) None Inr en m NoneX a Some by (simp add: create_site_def Let_def)
          ultimately have "e \<noteq> None" "w' = v" by simp_all
          then show thesis using same outside_refreshes [OF o] by simp
        qed
      qed
    qed
  next
    case (Inl x)
    then have "e \<noteq> None" "w' = w" using assms(1) None by (auto simp: create_site_def)
    then show thesis using same by simp
  qed
next
  case (Some x)
  then have "create_site env s w = (Some x, w)" by (simp add: create_site_def)
  then have "e \<noteq> None" "w' = w" using assms(1) by simp_all
  then show thesis using same by simp
qed

lemma plain_long: "plain_secret p \<Longrightarrow> long_secret p" by (simp add: plain_secret_def long_secret_def)

lemma create_keeps:
  assumes "fresh_passwords env" "manager_inv w"
  shows "manager_inv (snd (create_site env s w))"
proof -
  obtain e w' where c: "create_site env s w = (e, w')" by (metis surj_pair)
  have d: "db_inv (sm_db w)" using assms(2) by (simp add: manager_inv_def)
  show ?thesis
  proof (cases rule: create_site_cases [OF c d])
    case 1
    then show ?thesis using manager_inv_refreshes assms(2) c by (metis snd_conv)
  next
    case (2 pw)
    have pw: "plain_secret pw" "pw \<notin> snd ` set (credentials w)" using assms(1) 2(1) by (simp_all add: fresh_passwords_def)
    have "reg_values (sm_reg w') = insert pw (reg_values (sm_reg w))"
      using plain_long [OF pw(1)] 2(4) by (simp add: reg_add_def long_secret_def)
    then have "manager_inv w'"
      using assms(2) 2 pw unfolding manager_inv_def unshared_def by (auto simp: image_iff)
    then show ?thesis using c by simp
  qed
qed

definition owns_password :: "site \<Rightarrow> 'e manager \<Rightarrow> bool" where
  "owns_password s w \<longleftrightarrow> (\<forall>r\<in>set (rows w). long_secret (site_db_password r) \<and> site_db_password r = site_db_password s \<longrightarrow> site_id r = site_id s)"

lemma delete_locked_keeps:
  assumes "manager_inv w" "owns_password s w"
  shows "manager_inv (snd (delete_locked env opts s w))"
proof -
  obtain e w' where d: "delete_locked env opts s w = (e, w')" by (metis surj_pair)
  have inv: "db_inv (sm_db w')" using delete_locked_effect(1) [OF d] assms(1) by (simp add: manager_inv_def)
  from delete_locked_effect(2) [OF d] show ?thesis
  proof
    assume "rows w' = rows w \<and> sm_reg w' = sm_reg w \<and> (e = None \<longrightarrow> del_dry_run opts)"
    then show ?thesis using assms(1) inv d by (simp add: manager_inv_def credentials_def)
  next
    assume r: "rows w' = without_row (site_id s) (rows w) \<and> sm_reg w' = reg_remove (site_db_password s) (sm_reg w) \<and>
        e = None \<and> \<not> del_dry_run opts"
    have sub: "set (credentials w') \<subseteq> set (credentials w)" using r by (auto simp: credentials_def without_row_def)
    have reg: "reg_values (sm_reg w') \<subseteq> reg_values (sm_reg w)" "\<And>v. v \<in> reg_values (sm_reg w) \<Longrightarrow> v \<noteq> site_db_password s \<Longrightarrow> v \<in> reg_values (sm_reg w')"
      using r by (auto simp: reg_remove_def)
    have own: "snd c \<noteq> site_db_password s" if "c \<in> set (credentials w')" "long_secret (snd c)" for c
      using that assms(2) r by (auto simp: credentials_def without_row_def owns_password_def)
    have un: "unshared (credentials w')"
      using assms(1) sub unfolding manager_inv_def unshared_def by (meson subsetD)
    have "snd c \<in> reg_values (sm_reg w')" if "c \<in> set (credentials w')" "long_secret (snd c)" for c
      using reg(2) own [OF that] that sub assms(1) unfolding manager_inv_def by (meson subsetD)
    then have "manager_inv w'"
      using assms(1) inv un reg(1) finite_subset [OF reg(1)] unfolding manager_inv_def by (meson subsetD)
    then show ?thesis by (simp add: d)
  qed
qed

lemma fetched_owns:
  assumes "manager_inv u" "fetch env sid u = Inr (Some s)"
  shows "owns_password s u"
proof -
  have d: "db_inv (sm_db u)" using assms(1) by (simp add: manager_inv_def)
  obtain q where q: "q \<in> set (rows u)" "site_id q = sid" "site_db_password q = site_db_password s"
    using fetch_current(3) [OF d assms(2)] by blast
  have un: "unshared (credentials u)" using assms(1) by (simp add: manager_inv_def)
  have "site_id r = site_id q"
    if "r \<in> set (rows u)" "long_secret (site_db_password r)" "site_db_password r = site_db_password q" for r
  proof -
    have "(site_id r, site_db_password r) \<in> set (credentials u)" "(site_id q, site_db_password q) \<in> set (credentials u)"
      using that(1) q(1) by (simp_all add: credentials_def)
    with un that(2,3) show ?thesis unfolding unshared_def by (metis fst_conv snd_conv)
  qed
  then show ?thesis unfolding owns_password_def using q(2,3) fetch_current(2) [OF d assms(2)] by metis
qed

lemma owns_sub: "owns_password s u \<Longrightarrow> set (rows v) \<subseteq> set (rows u) \<Longrightarrow> owns_password s v"
  unfolding owns_password_def by (meson subsetD)

lemma delete_keeps_inv:
  assumes "delete_site_opts fuel env opts sid w = Some r" "manager_inv w"
  shows "manager_inv (snd r)"
proof -
  have "manager_inv (snd r) \<and> set (rows (snd r)) \<subseteq> set (rows w)"
  proof (rule delete_keeps [where I = manager_inv and K = owns_password and A = UNIV, OF _ _ _ _ _ assms])
  qed (rule UNIV_I | erule (1) manager_inv_refreshes | erule (1) fetched_owns | erule (1) owns_sub | erule (1) delete_locked_keeps)+
  then show ?thesis ..
qed

section \<open>Start-up and any sequence of operations\<close>

text \<open>What the database of an earlier run may look like before the start-up; the registry is empty then.\<close>

definition bootable :: "'e manager \<Rightarrow> bool" where
  "bootable w \<longleftrightarrow> db_inv (sm_db w) \<and> finite (reg_values (sm_reg w)) \<and> (\<forall>v\<in>reg_values (sm_reg w). plain_secret v) \<and>
     (\<forall>c\<in>set (credentials w). long_secret (snd c) \<longrightarrow> plain_secret (snd c)) \<and> unshared (credentials w)"

lemma bootable_register:
  assumes "bootable w" "(i, p) \<in> set (credentials w)"
  shows "bootable (w\<lparr>sm_reg := reg_add p (sm_reg w)\<rparr>)"
proof -
  have "credentials (w\<lparr>sm_reg := reg_add p (sm_reg w)\<rparr>) = credentials w" by (simp add: credentials_def rows_def)
  moreover have "long_secret p \<longrightarrow> plain_secret p" using assms unfolding bootable_def by force
  ultimately show ?thesis using assms(1) by (auto simp: bootable_def reg_add_def long_secret_def)
qed

lemma bootable_refreshes: "refreshes w w' \<Longrightarrow> bootable w \<Longrightarrow> bootable w'"
  by (simp add: bootable_def refreshes_def)

lemma unique_current:
  assumes "db_inv (sm_db w)" "(site_id r, site_db_password r) \<in> set (credentials w)"
  shows "current r w"
proof -
  have d: "distinct (map fst (credentials w))" using assms(1) by (simp add: credentials_def rows_def db_inv_def comp_def)
  show ?thesis unfolding current_def
  proof (intro ballI impI)
    fix c
    assume c: "c \<in> set (credentials w)" "fst c = site_id r"
    have "c = (site_id r, site_db_password r)"
      using d c assms(2) by (auto simp: distinct_map dest: inj_onD [of fst "set (credentials w)" c "(site_id r, site_db_password r)"])
    then show "snd c = site_db_password r" by simp
  qed
qed

lemma reconcile_rows_registers:
  assumes "bootable w" "set (map (\<lambda>r. (site_id r, site_db_password r)) rs) \<subseteq> set (credentials w)"
  shows "bootable (reconcile_rows env rs w) \<and> credentials (reconcile_rows env rs w) = credentials w \<and>
    reg_values (sm_reg w) \<subseteq> reg_values (sm_reg (reconcile_rows env rs w)) \<and>
    (\<forall>r\<in>set rs. long_secret (site_db_password r) \<longrightarrow> site_db_password r \<in> reg_values (sm_reg (reconcile_rows env rs w)))"
  using assms
proof (induction rs arbitrary: w)
  case (Cons r rs)
  define u where "u = (if site_db_password r \<noteq> [] then w\<lparr>sm_reg := reg_add (site_db_password r) (sm_reg w)\<rparr> else w)"
  define v where "v = (if site_started r then snd (snd (save env (r\<lparr>site_started := False\<rparr>) u)) else u)"
  have m: "(site_id r, site_db_password r) \<in> set (credentials w)" using Cons.prems(2) by simp
  have u: "bootable u" "credentials u = credentials w"
    using bootable_register [OF Cons.prems(1) m] Cons.prems(1) by (simp_all add: u_def) (simp add: credentials_def rows_def)
  have ur: "reg_values (sm_reg w) \<subseteq> reg_values (sm_reg u)" "long_secret (site_db_password r) \<longrightarrow> site_db_password r \<in> reg_values (sm_reg u)"
    by (auto simp: u_def reg_add_def long_secret_def min_secret_len_def)
  have "current (r\<lparr>site_started := False\<rparr>) u"
    using unique_current [of u r] u m by (simp add: bootable_def current_def)
  then have "refreshes u (snd (snd (save env (r\<lparr>site_started := False\<rparr>) u)))" by (rule save_refreshes) (simp add: prod_eq_iff)
  then have vr: "refreshes u v" by (simp add: v_def)
  have v: "bootable v" "credentials v = credentials w" "sm_reg v = sm_reg u"
    using bootable_refreshes [OF vr u(1)] vr u(2) by (simp_all add: refreshes_def)
  have ih: "bootable (reconcile_rows env rs v) \<and> credentials (reconcile_rows env rs v) = credentials v \<and>
    reg_values (sm_reg v) \<subseteq> reg_values (sm_reg (reconcile_rows env rs v)) \<and>
    (\<forall>r\<in>set rs. long_secret (site_db_password r) \<longrightarrow> site_db_password r \<in> reg_values (sm_reg (reconcile_rows env rs v)))"
    by (rule Cons.IH [OF v(1)]) (use Cons.prems(2) v(2) in simp)
  have e: "reconcile_rows env (r # rs) w = reconcile_rows env rs v" by (simp add: u_def v_def Let_def)
  show ?case unfolding e using ih v ur by auto
qed simp

lemma get_sites_keys:
  assumes "get_sites flt d = Inr rs"
  shows "set (map (\<lambda>r. (site_id r, site_db_password r)) rs) = set (map (\<lambda>r. (site_id r, site_db_password r)) (db_sites d))"
proof -
  have "rs = map hydrate_legacy_db_fields (db_sites d)" using assms by (auto simp: get_sites_def split: sum.splits dest!: exec_Inr)
  moreover have "site_id (hydrate_legacy_db_fields r) = site_id r" "site_db_password (hydrate_legacy_db_fields r) = site_db_password r" for r
    by (simp_all add: hydrate_legacy_db_fields_def Let_def)
  ultimately show ?thesis by (simp add: image_image)
qed

lemma reconcile_establishes:
  assumes "reconcile_state env w = (None, w')" "bootable w"
  shows "manager_inv w'"
proof -
  obtain rs where g: "get_sites (me_flt env w) (sm_db w) = Inr rs" and w': "w' = emit_sites_update env (reconcile_rows env rs w)"
    using assms(1) by (auto simp: reconcile_state_def split: sum.splits)
  note k = get_sites_keys [OF g]
  let ?v = "reconcile_rows env rs w"
  have r: "bootable ?v" "credentials ?v = credentials w"
    "\<forall>r\<in>set rs. long_secret (site_db_password r) \<longrightarrow> site_db_password r \<in> reg_values (sm_reg ?v)"
    using reconcile_rows_registers [OF assms(2), of rs env] k by (simp_all add: credentials_def rows_def)
  have "snd c \<in> reg_values (sm_reg ?v)" if c: "c \<in> set (credentials w)" "long_secret (snd c)" for c
  proof -
    have "c \<in> set (map (\<lambda>r. (site_id r, site_db_password r)) rs)" using c(1) k by (simp add: credentials_def rows_def)
    then show ?thesis using c(2) r(3) by auto
  qed
  then have "manager_inv ?v" using r(1,2) by (simp add: manager_inv_def bootable_def)
  then show ?thesis unfolding w' by (rule manager_inv_refreshes [rotated]) simp
qed

text \<open>One operation of the manager, whatever its arguments and whether or not it fails.\<close>

inductive manager_step :: "'e manager_env \<Rightarrow> 'e manager \<Rightarrow> 'e manager \<Rightarrow> bool" for env where
  step_create: "manager_step env w (snd (create_site env s w))"
| step_start: "manager_step env w (snd (start_site env sid w))"
| step_stop: "manager_step env w (snd (stop_site env sid w))"
| step_delete: "delete_site_opts fuel env opts sid w = Some r \<Longrightarrow> manager_step env w (snd r)"
| step_versions: "manager_step env w (snd (update_versions env sid ch w))"
| step_public_dir: "manager_step env w (snd (update_public_dir env sid dir w))"
| step_db_port: "manager_step env w (snd (set_publish_db_port env sid on w))"
| step_spx: "manager_step env w (snd (set_spx_enabled env sid on w))"
| step_spx_key: "manager_step env w (snd (rotate_spx_key env sid w))"

inductive manager_runs :: "'e manager_env \<Rightarrow> 'e manager \<Rightarrow> 'e manager \<Rightarrow> bool" for env where
  runs_refl: "manager_runs env w w"
| runs_step: "manager_runs env u v \<Longrightarrow> manager_step env v w \<Longrightarrow> manager_runs env u w"

lemma step_keeps:
  assumes "manager_step env w w'" "fresh_passwords env" "manager_inv w"
  shows "manager_inv w'"
proof -
  have d: "db_inv (sm_db w)" using assms(3) by (simp add: manager_inv_def)
  note by_refresh = manager_inv_refreshes [OF _ assms(3)]
  show ?thesis using assms(1)
  proof cases
    case (step_create s)
    then show ?thesis using create_keeps [OF assms(2,3)] by simp
  next
    case (step_delete fuel opts sid r)
    then show ?thesis using delete_keeps_inv [OF step_delete(2) assms(3)] by simp
  qed (simp_all add: by_refresh start_refresh [OF d] stop_refresh [OF d] versions_refresh [OF d] settings_refresh [OF d])
qed

lemma runs_keep: "manager_runs env w w' \<Longrightarrow> fresh_passwords env \<Longrightarrow> manager_inv w \<Longrightarrow> manager_inv w'"
  by (induction rule: manager_runs.induct) (auto intro: step_keeps)

lemma manager_redacts:
  assumes "manager_inv w" "iterates iter" "r \<in> set (rows w)" "long_secret (site_db_password r)"
  shows "\<not> contains (redact_string iter (sm_reg w) t) (site_db_password r)"
proof (rule redact_string_removes)
  show "reg_ready iter (sm_reg w)" using assms(1,2) by (simp add: manager_inv_def reg_ready_def)
  show "site_db_password r \<in> reg_values (sm_reg w)" using assms(1,3,4) by (auto simp: manager_inv_def credentials_def)
qed

section \<open>How far a deletion reaches\<close>

text \<open>A set of ids closed under the worktrees of its members, and a measure the links to the parent go up in.\<close>

definition family :: "string set \<Rightarrow> site list \<Rightarrow> bool" where
  "family A rs \<longleftrightarrow> (\<forall>r\<in>set rs. site_parent_site_id r \<noteq> [] \<and> site_parent_site_id r \<in> A \<longrightarrow> site_id r \<in> A)"

definition descends :: "(string \<Rightarrow> nat) \<Rightarrow> site list \<Rightarrow> bool" where
  "descends rank rs \<longleftrightarrow> (\<forall>r\<in>set rs. site_parent_site_id r \<noteq> [] \<longrightarrow> rank (site_id r) < rank (site_parent_site_id r))"

lemma delete_locked_rows:
  "rows (snd (delete_locked env opts s w)) = rows w \<or> rows (snd (delete_locked env opts s w)) = without_row (site_id s) (rows w)"
  using delete_locked_effect(2) [of env opts s w "fst (delete_locked env opts s w)" "snd (delete_locked env opts s w)"] by auto

lemma delete_shrinks: "delete_site_opts fuel env opts sid w = Some r \<Longrightarrow> set (rows (snd r)) \<subseteq> set (rows w)"
  using delete_keeps [where I = "\<lambda>_. True" and K = "\<lambda>_ _. True" and A = UNIV] by blast

lemma delete_outside_family:
  assumes "delete_site_opts fuel env opts sid w = Some r" "sid \<in> A" "family A (rows w)"
  shows "filter (\<lambda>x. site_id x \<notin> A) (rows (snd r)) = filter (\<lambda>x. site_id x \<notin> A) (rows w)"
proof -
  define I where "I u \<longleftrightarrow> family A (rows u) \<and> filter (\<lambda>x. site_id x \<notin> A) (rows u) = filter (\<lambda>x. site_id x \<notin> A) (rows w)" for u :: "'a manager"
  define K where "K s u \<longleftrightarrow> site_id s \<in> A" for s :: site and u :: "'a manager"
  have "I (snd r) \<and> set (rows (snd r)) \<subseteq> set (rows w)"
  proof (rule delete_keeps [where I = I and K = K and A = A, OF _ _ _ _ _ assms(1)])
    fix u :: "'a manager" and sid s
    assume "sid \<in> A" "fetch env sid u = Inr (Some s)"
    then show "K s u" by (auto simp: K_def elim: fetch_row)
  next
    fix u :: "'a manager" and sid q
    assume "I u" "sid \<in> A" "q \<in> set (rows u)" "site_parent_site_id q = sid" "sid \<noteq> []"
    then show "site_id q \<in> A" unfolding I_def family_def by blast
  next
    fix u :: "'a manager" and o2 s
    assume i: "I u" and k: "K s u"
    let ?v = "snd (delete_locked env o2 s u)"
    have "set (rows ?v) \<subseteq> set (rows u)"
      using delete_locked_rows [of env o2 s u] without_row_sub by (metis subset_refl)
    then have "family A (rows ?v)" using i unfolding I_def family_def by blast
    moreover have "filter (\<lambda>x. site_id x \<notin> A) (without_row (site_id s) (rows u)) = filter (\<lambda>x. site_id x \<notin> A) (rows u)"
      using k unfolding without_row_def filter_filter K_def by (intro filter_cong) auto
    ultimately show "I ?v" using delete_locked_rows [of env o2 s u] i by (auto simp: I_def)
  qed (use assms(2,3) in \<open>simp_all add: I_def K_def\<close>)
  then show ?thesis by (simp add: I_def)
qed

lemma delete_gone:
  assumes "delete_site_opts fuel env opts sid w = Some (e, w')"
  shows "if del_dry_run opts then rows w' = rows w else e = None \<longrightarrow> sid \<notin> site_id ` set (rows w')"
proof (cases fuel)
  case (Suc n)
  show ?thesis
  proof (cases "fetch env sid w")
    case (Inl x)
    then show ?thesis using assms Suc by auto
  next
    case (Inr so)
    show ?thesis
    proof (cases so)
      case None
      then have "e = None" "w' = emit_sites_update env w" using assms Suc Inr by simp_all
      moreover have "sid \<notin> site_id ` set (rows w)"
        using Inr None by (auto simp: fetch_def get_site_def rows_def find_None_iff split: sum.splits option.splits dest!: exec_Inr)
      ultimately show ?thesis by simp
    next
      case (Some s)
      have sid: "site_id s = sid" using Inr Some by (auto elim: fetch_row)
      obtain b u where b: "blocked_by_worktree env opts s w = (b, u)" by (metis surj_pair)
      have o: "rows u = rows w" using outside_eqD(3) [OF dirty_outside [OF b]] .
      show ?thesis
      proof (cases b)
        case True
        then show ?thesis using assms Suc Inr Some b o by auto
      next
        case False
        obtain v where v: "delete_locked env opts s v = (e, w')" "del_dry_run opts \<longrightarrow> v = u"
        proof (cases "del_dry_run opts")
          case True
          then show thesis using that [of u] assms Suc Inr Some b False by simp
        next
          case nd: False
          then show thesis using that assms Suc Inr Some b False by (auto simp: Let_def split: option.splits)
        qed
        show ?thesis
        proof (cases "del_dry_run opts")
          case True
          then have "w' = v" using v(1) by (auto simp: delete_locked_def Let_def)
          then show ?thesis using True v(2) o by simp
        next
          case False
          then have "e = None \<longrightarrow> rows w' = without_row sid (rows v)"
            using delete_locked_effect(2) [OF v(1)] sid by blast
          then show ?thesis using False by (auto simp: without_row_def)
        qed
      qed
    qed
  qed
qed (use assms in simp)

lemma delete_terminates:
  "descends rank (rows w) \<Longrightarrow> rank sid < fuel \<Longrightarrow> \<exists>r. delete_site_opts fuel env opts sid w = Some r"
proof (induction fuel arbitrary: sid w opts)
  case (Suc fuel)
  have many: "\<exists>v. delete_children fuel env o2 ids u = Some v"
    if "descends rank (rows u)" "\<forall>i\<in>set ids. rank i < fuel" for o2 ids u
    using that
  proof (induction ids arbitrary: u)
    case (Cons c cs)
    obtain e x where q: "delete_site_opts fuel env o2 c u = Some (e, x)" using Suc.IH [of u c o2] Cons.prems by auto
    have "descends rank (rows x)" using delete_shrinks [OF q] Cons.prems(1) by (auto simp: descends_def)
    from Cons.IH [OF this] Cons.prems(2) q show ?case by simp
  qed simp
  show ?case
  proof (cases "fetch env sid w")
    case (Inr so)
    show ?thesis
    proof (cases so)
      case (Some s)
      obtain b u where b: "blocked_by_worktree env opts s w = (b, u)" by (metis surj_pair)
      have o: "rows u = rows w" using outside_eqD(3) [OF dirty_outside [OF b]] .
      let ?ids = "if del_dry_run opts then [] else case sites_by_parent (me_flt env u) sid (sm_db u) of Inl _ \<Rightarrow> [] | Inr cs \<Rightarrow> map site_id cs"
      have "\<forall>i\<in>set ?ids. rank i < fuel"
      proof
        fix i
        assume "i \<in> set ?ids"
        then have "i \<in> set (case sites_by_parent (me_flt env u) sid (sm_db u) of Inl _ \<Rightarrow> [] | Inr cs \<Rightarrow> map site_id cs)"
          by (simp split: if_splits)
        from children_ids [OF this] Suc.prems o show "rank i < fuel" by (force simp: descends_def)
      qed
      then obtain v where "delete_children fuel env (opts\<lparr>del_force_worktree := True\<rparr>) ?ids u = Some v"
        using many [of u ?ids] Suc.prems(1) o by auto
      then show ?thesis using Inr Some b by (cases b) (simp_all add: Let_def)
    qed (use Inr in simp)
  qed simp
qed simp

end
