(* ===== verification/Lifecycle_Claims.thy ===== *)
theory Lifecycle_Claims
  imports Lifecycle_Inv
begin

text \<open>
  The properties of the site manager, stated of its operations on the engine above the Docker SDK and of any sequence of
  operations, with environments to try them in.
\<close>

section \<open>An environment in which nothing fails\<close>

text \<open>\<open>marker\<close> is what reading the volume marker finds.\<close>

definition idle_services :: "'e runtime \<Rightarrow> volume_marker option \<Rightarrow> 'e services" where
  "idle_services rt marker =
     \<lparr>sv_rt = rt, sv_ensure_network = (\<lambda>sp w. (Inr [], w)), sv_ensure_volume = (\<lambda>sp w. (Inr [], w)),
      sv_remove_networks = (\<lambda>ls. no_effect), sv_remove_volumes = (\<lambda>ls. no_effect),
      sv_chown_volume = (\<lambda>v u g. no_effect), sv_chown_path = (\<lambda>v u g. no_effect),
      sv_one_shot = (\<lambda>n i c ms w. ((\<lparr>or_exit = 0, or_stdout = (if marker = None then [] else ''marker''), or_stderr = []\<rparr>, None), w)),
      sv_exec = (\<lambda>n c i w. (Inr (0, []), w)), sv_upsert_route = (\<lambda>r. no_effect), sv_remove_route = (\<lambda>r. no_effect),
      sv_remove_file = (\<lambda>p w. (None, w)), sv_mkdir = (\<lambda>p. no_effect), sv_write_file = (\<lambda>p b. no_effect),
      sv_path_exists = (\<lambda>p w. False), sv_worktree_remove = (\<lambda>p q b. no_effect), sv_worktree_add = (\<lambda>p q b. no_effect),
      sv_ensure_repo = (\<lambda>r p. no_effect), sv_dirty = (\<lambda>p w. (True, w)), sv_ensure_wordpress = (\<lambda>s. no_effect),
      sv_ensure_wp_config = (\<lambda>s. no_effect), sv_install_autologin = (\<lambda>s. no_effect), sv_generate_config = (\<lambda>s. no_effect),
      sv_snapshot = (\<lambda>s l w. (Inr [], w)), sv_dir = (\<lambda>p. p), sv_env = sample_spec_env, sv_home = ''home'',
      sv_dec_marker = (\<lambda>t. case marker of None \<Rightarrow> Inl ''no marker'' | Some m \<Rightarrow> Inr m), sv_enc_marker = (\<lambda>m. ''marker''),
      sv_now = (\<lambda>w. 0)\<rparr>"

definition idle_env :: "'e services \<Rightarrow> 'e manager_env" where
  "idle_env sv =
     \<lparr>me_sv = sv, me_flt = (\<lambda>w. no_faults), me_now = (\<lambda>w. ''t1''), me_run = \<lparr>ctx_err = (\<lambda>w. None), clock = (\<lambda>w. 0)\<rparr>,
      me_json = (\<lambda>t. True), me_iter = (\<lambda>vs. []), me_sched = (\<lambda>w k. []), me_hook = (\<lambda>ev s. no_effect), me_cfg = None,
      me_lan_ip = (\<lambda>e. (None, e)), me_path_block = (\<lambda>p. None), me_write_config = (\<lambda>s hs e. e),
      me_wp_install = (\<lambda>s. no_effect), me_wp_network = (\<lambda>s e. (True, e)), me_wp_convert = (\<lambda>s m. no_effect),
      me_uuid = (\<lambda>w. ''id'' @ nat_digits (length (db_sites (sm_db w)))), me_random_hex = (\<lambda>w. Inr ''0123456789abcdef''),
      me_spx_key = (\<lambda>w. Inr ''spx''), me_slug = (\<lambda>n. n), me_cancelled = (\<lambda>w k. None)\<rparr>"

definition mem_runtime :: "mem_world runtime" where
  "mem_runtime = docker_runtime (\<lambda>_. mem_daemon True ca_image) (\<lambda>_ _. no_effect) (\<lambda>_ _ _. no_effect)"

definition sample_site :: site where
  "sample_site = empty_site\<lparr>site_id := ''s1'', site_slug := ''one'', site_name := ''one'', site_db_engine := ''mysql'',
     site_db_version := ''8.4'', site_db_password := ''0123456789abcdef''\<rparr>"

definition sample_manager :: "site list \<Rightarrow> 'e \<Rightarrow> 'e manager" where
  "sample_manager ss e = \<lparr>sm_db = empty_db\<lparr>db_sites := ss\<rparr>, sm_reg = new_registry, sm_eng = e, sm_updated = [], sm_lists = []\<rparr>"

definition no_containers :: mem_world where "no_containers = \<lparr>mw_containers = Map.empty, mw_now = 0\<rparr>"


section \<open>Starting\<close>

text \<open>Nothing goes wrong: what the start calls returns no error, no storage failure, no cancellation.\<close>

definition uneventful :: "('e \<Rightarrow> string \<rightharpoonup> docker_container) \<Rightarrow> 'e manager_env \<Rightarrow> site \<Rightarrow> bool" where
  "uneventful cont env s \<longleftrightarrow>
     (\<forall>w. me_flt env w = no_faults) \<and> (\<forall>w. ctx_err (me_run env) w = None) \<and> (\<forall>ev t. succeeds (me_hook env ev t)) \<and>
     (\<forall>t. succeeds (me_wp_install env t)) \<and> me_path_block env (site_files_dir s) = None \<and>
     services_work (me_sv env) s \<and> engine_works (docker_view cont) (sv_rt (me_sv env)) (specs_of env s)"

lemma succeeds_on_engine: "succeeds f \<Longrightarrow> succeeds (on_engine f)"
  by (simp add: succeeds_def on_engine_def split_beta)

lemma forget_on_engine: "forget (on_engine f w) = on_engine (\<lambda>e. forget (f e)) w"
  by (simp add: forget_def on_engine_def split: prod.split sum.split)

lemma lift_works:
  "services_work sv s \<Longrightarrow> services_work (lift_services sv) s"
  "engine_works v rt specs \<Longrightarrow> engine_works (\<lambda>w. v (sm_eng w)) (lift_runtime rt) specs"
proof -
  have r: "read_marker (lift_services sv) s = on_engine (read_marker sv s)" by (simp add: read_marker_def lift_services_def)
  have m: "marker_verdict (lift_services sv) s x = marker_verdict sv s x" for x
    by (cases x; cases "snd x") (simp_all add: marker_verdict_def lift_services_def)
  show "services_work sv s \<Longrightarrow> services_work (lift_services sv) s"
    unfolding services_work_def m r
    by (simp add: lift_services_def succeeds_on_engine forget_on_engine) (simp add: on_engine_def split_beta)
  show "engine_works v rt specs \<Longrightarrow> engine_works (\<lambda>w. v (sm_eng w)) (lift_runtime rt) specs"
    unfolding engine_works_def lift_runtime_def
    by (simp add: succeeds_on_engine) (simp add: on_engine_def split_beta, metis fst_conv surj_pair)
qed

lemma save_no_faults: "me_flt env w = no_faults \<Longrightarrow> fst (snd (save env s w)) = None"
  by (simp add: save_def update_site_def Let_def split_beta)

lemma succeedsD: "succeeds f \<Longrightarrow> f w = (e, w') \<Longrightarrow> e = None"
  unfolding succeeds_def by (metis fst_conv)

text \<open>The engine in memory never gets in the way.\<close>

lemma services_valid: "sp \<in> set (service_specs env home s) \<Longrightarrow> validate_spec sp = None"
  by (cases "site_web_server s = ''apache''"; auto simp: service_specs_def web_spec_def nginx_web_spec_def apache_web_spec_def web_server_spec_def Let_def php_spec_def
      php_mounts_def database_spec_def redis_spec_def base_spec_def validate_spec_def site_container_name_def bind_def mount_kinds_def
      engine_image_def split: engine.splits)

lemma mem_sel:
  "dm_create (mem_daemon b digest) n cfg w = (Inr ''id'', w\<lparr>mw_containers := (mw_containers w)(n \<mapsto>
     \<lparr>dk_id = ''id'', dk_labels = do_labels cfg, dk_running = False\<rparr>)\<rparr>)"
  "dm_done (mem_daemon b digest) w = None" "dm_port_ok (mem_daemon b digest) p q"
  "dm_start (mem_daemon b digest) n = mem_update n (\<lambda>c. Some (c\<lparr>dk_running := True\<rparr>))"
  by (simp_all add: mem_daemon_def)

lemma mem_create: "\<exists>i w'. create_container_from_spec (mem_daemon b digest) sp h w = (Inr i, w')"
proof -
  obtain cfg where cfg: "build_docker_config (dm_goos (mem_daemon b digest)) (dm_port_ok (mem_daemon b digest)) sp h = Inr cfg"
    using find_None_iff [of "\<lambda>p. \<not> dm_port_ok (mem_daemon b digest) (port_proto p) (po_container_port p)" "cs_ports sp"]
    by (simp add: build_docker_config_def mem_sel)
  let ?env = "retrying (mem_daemon b digest) (redacted_create (mem_daemon b digest) sp cfg)
      (Some (recover_name (mem_daemon b digest) (cs_name sp)))"
  obtain v where "redacted_create (mem_daemon b digest) sp cfg w = (Inr ''id'', v)" by (simp add: redacted_create_def mem_sel)
  then have "with_retry ?env w = (Inr ''id'', [Tried None], v)"
    by (intro with_retry_first) (simp_all add: retrying_def mem_sel)
  then show ?thesis using cfg by (simp add: create_container_from_spec_def)
qed

lemma mem_ensure:
  assumes "validate_spec sp = None"
  shows "\<exists>i w'. ensure_container (mem_daemon True digest) sp w = (Inr i, w')"
proof -
  have c: "\<exists>i w'. create_container_from_spec (mem_daemon True digest) sp h v = (Inr i, w')" for h v by (rule mem_create)
  show ?thesis
  proof (cases "mw_containers w (cs_name sp)")
    case None
    then have "dm_inspect (mem_daemon True digest) (cs_name sp) w = (Inl mem_missing, w)" by (simp add: mem_daemon_def)
    then show ?thesis using assms c by (simp add: ensure_container_def Let_def mem_missing_simp)
  next
    case (Some k)
    then have i: "dm_inspect (mem_daemon True digest) (cs_name sp) w = (Inr \<lparr>ci_id = dk_id k, ci_labels = Some (dk_labels k),
        ci_has_healthcheck = False, ci_state = Some (mem_state k)\<rparr>, w)" by (simp add: mem_daemon_def)
    have "\<exists>v. remove_container (mem_daemon True digest) (cs_name sp) w = (None, v)"
      using Some by (simp add: remove_container_def mem_daemon_def mem_update_def)
    then show ?thesis using assms c i by (auto simp: ensure_container_def Let_def)
  qed
qed

lemma mem_start:
  assumes "mw_containers w n \<noteq> None"
  shows "fst (start_container (mem_daemon True digest) n w) = None"
proof -
  obtain k where k: "mw_containers w n = Some k" using assms by blast
  then have r: "container_is_running (mem_daemon True digest) n w = (Inr (dk_running k), w)"
    by (simp add: container_is_running_def mem_daemon_def mem_state_def)
  obtain v where "mem_update n (\<lambda>c. Some (c\<lparr>dk_running := True\<rparr>)) w = (Inr (), v)" using k by (simp add: mem_update_def)
  then have "with_retry (retrying (mem_daemon True digest) (dm_start (mem_daemon True digest) n) None) w = (Inr (), [Tried None], v)"
    by (intro with_retry_first) (simp_all add: retrying_def mem_sel)
  with r show ?thesis by (simp add: start_container_def with_retry_err_def split: bool.split)
qed

lemma mem_works: "engine_works (docker_view mw_containers) mem_runtime (service_specs env home s)"
proof -
  have "\<exists>i w'. ensure_container (mem_daemon True ca_image) sp w = (Inr i, w')" if "sp \<in> set (service_specs env home s)" for sp w
    using mem_ensure [OF services_valid [OF that]] .
  then show ?thesis
    using mem_start by (simp add: engine_works_def mem_runtime_def docker_runtime_def docker_view_def succeeds_def no_effect_def)
qed

lemma idle_uneventful: "uneventful mw_containers (idle_env (idle_services mem_runtime None)) s"
proof -
  have "trim_space [] = []" by code_simp
  then show ?thesis
    using mem_works by (simp add: uneventful_def services_work_def idle_env_def idle_services_def succeeds_def no_effect_def
        marker_verdict_def forget_def read_marker_def)
qed

lemma mem_sv: "sv_rt (me_sv (idle_env (idle_services mem_runtime m))) =
    docker_runtime (\<lambda>_. mem_daemon True ca_image) (\<lambda>_ _. no_effect) (\<lambda>_ _ _. no_effect)"
  by (simp add: idle_env_def idle_services_def mem_runtime_def)

lemma idle_fetch: "\<exists>s. fetch (idle_env sv) (site_id s0) (sample_manager [s0] e) = Inr (Some s)"
  by (simp add: fetch_def get_site_def idle_env_def sample_manager_def)

lemma start_locked_runs:
  assumes rt: "runtime_ok cont digest dm pull wait" "sv_rt (me_sv env) = docker_runtime dm pull wait"
    and u: "uneventful cont env s"
  shows "\<exists>w'. start_locked env s w = (None, w')"
proof -
  obtain e1 w1 where h: "fire_hooks env ''pre-start'' s w = (e1, w1)" by (metis surj_pair)
  have e1: "e1 = None" using succeedsD [OF succeeds_on_engine h [unfolded fire_hooks_def]] u by (simp add: uneventful_def)
  obtain r w2 where ro: "site_route_of env s w1 = (r, w2)" by (metis surj_pair)
  obtain e3 w3 where p: "run_plan env s (start_plan (services_of env) (me_sched env w2) r s) w2 = (e3, w3)" by (metis surj_pair)
  then obtain res where run: "run (me_run env) (start_plan (services_of env) (me_sched env w2) r s)
      (manager_callbacks env s (plan_name (start_plan (services_of env) (me_sched env w2) r s))) w2 = (res, w3)"
      "e3 = res_final_error res"
    by (auto simp: run_plan_def split: prod.splits)
  have works: "services_work (services_of env) s"
      "engine_works (\<lambda>w. docker_view cont (sm_eng w)) (lift_runtime (docker_runtime dm pull wait))
         (service_specs (sv_env (services_of env)) (sv_home (services_of env)) s)"
    using lift_works(1) [of "me_sv env" s] lift_works(2) [of "docker_view cont" "sv_rt (me_sv env)" "specs_of env s"] u rt(2)
    by (simp_all add: uneventful_def)
  have rt': "sv_rt (services_of env) = lift_runtime (docker_runtime dm pull wait)" using rt(2) by simp
  have e3: "e3 = None"
    using container_runtime.start_plan_succeeds [OF container_runtime.lifted [OF docker_runtime_ok [OF rt(1)]] rt' works run(1)]
      u run(2) by (simp add: uneventful_def)
  obtain s' x w4 where sv: "save env (s\<lparr>site_started := True\<rparr>) w3 = (s', x, w4)" by (metis prod_cases3)
  have x: "x = None" using save_no_faults [of env w3 "s\<lparr>site_started := True\<rparr>"] u sv by (simp add: uneventful_def)
  obtain e5 w5 where wp: "on_engine (me_wp_install env s') w4 = (e5, w5)" by (metis surj_pair)
  have e5: "e5 = None" using succeedsD [OF succeeds_on_engine wp] u by (simp add: uneventful_def)
  let ?v = "write_config_yaml env s' (notify_updated s' (if site_multisite s' \<noteq> [] then snd (ensure_multisite_with_hooks env s' w5) else w5))"
  obtain e6 w6 where post: "fire_hooks env ''post-start'' s' ?v = (e6, w6)" by (metis surj_pair)
  have e6: "e6 = None" using succeedsD [OF succeeds_on_engine post [unfolded fire_hooks_def]] u by (simp add: uneventful_def)
  have "started_up env s w3 = (None, w6)" using sv x wp e5 post e6 by (simp add: started_up_def Let_def)
  then show ?thesis using h e1 ro p e3 by (simp add: start_locked_def)
qed

lemma start_runs:
  assumes rt: "runtime_ok cont digest dm pull wait" "sv_rt (me_sv env) = docker_runtime dm pull wait"
    and u: "fetch env sid w = Inr (Some s)" "uneventful cont env s"
  shows "\<exists>w'. start_site env sid w = (None, w')"
  using start_locked_runs [OF rt u(2)] u by (simp add: start_site_def uneventful_def)


lemma sample_id: "site_id sample_site = ''s1''" by (simp add: sample_site_def)

lemma sample_fetch: "fetch (idle_env sv) ''s1'' (sample_manager [sample_site] e) = Inr (Some (hydrate_legacy_db_fields sample_site))"
  using sample_id by (simp add: fetch_def get_site_def idle_env_def sample_manager_def)


text \<open>
  C9. Starting a site succeeds when nothing goes wrong: the hooks, the steps' services and WP-CLI return no error, no storage
  failure, no cancellation, a path and a volume marker that allow it, and an engine that creates, starts, pulls and waits
  without an error.
\<close>

theorem start_site_succeeds:
  assumes "runtime_ok cont digest dm pull wait" "sv_rt (me_sv env) = docker_runtime dm pull wait"
    and "fetch env sid w = Inr (Some s)" "uneventful cont env s"
  shows "\<exists>w'. start_site env sid w = (None, w')"
  by (rule start_runs [OF assms])

lemma start_site_succeeds_witness:
  "\<exists>w'. start_site (idle_env (idle_services mem_runtime None)) ''s1'' (sample_manager [sample_site] no_containers) = (None, w')"
proof -
  let ?env = "idle_env (idle_services mem_runtime None)"
  have sid: "site_id sample_site = ''s1''" by (simp add: sample_site_def)
  obtain s where "fetch ?env ''s1'' (sample_manager [sample_site] no_containers) = Inr (Some s)"
    using idle_fetch [of _ sample_site] sid by metis
  from start_site_succeeds [OF mem_runtime_ok mem_sv this idle_uneventful] show ?thesis .
qed






section \<open>The read before the mutex\<close>

lemma save_row:
  assumes "save env s w = (s', None, w')" "row_of (site_id s) w = Some r"
  obtains t where "row_of (site_id s) w' = Some t" "site_public_dir t = site_public_dir s" "site_started t = site_started s"
  using assms(1)
proof (cases rule: save_cases)
  case saved
  then have "rows w' = replace_row s' (rows w)" by (simp add: rows_saved)
  then have "row_of (site_id s) w' = Some (s'\<lparr>site_created_at := site_created_at r\<rparr>)"
    using assms(2) saved(2) by (simp add: row_of_def find_replace_row mirror_mysql_version_def)
  then show thesis by (rule that) (simp_all add: saved(2) mirror_mysql_version_def)
qed simp

lemma row_frames [simp]:
  "row_of sid (emit_sites_update env w) = row_of sid w" "row_of sid (write_config_yaml env s w) = row_of sid w"
  "row_of sid (notify_updated s w) = row_of sid w"
  by (simp_all add: row_of_def)

text \<open>
  C35. A change of the public directory that returns between the read of the row in \<^verbatim>\<open>StartSite\<close> and its mutex is lost: the
  start writes the struct it read back into the row.
\<close>

theorem start_undoes_public_dir:
  assumes f: "fetch env sid w = Inr (Some s)" and ch: "update_public_dir env sid dir w = (None, w1)" "dir \<noteq> site_public_dir s"
    and st: "start_locked env s w1 = (None, w2)"
  shows "site_public_dir (the (row_of sid w1)) = dir \<and> site_public_dir (the (row_of sid w2)) = site_public_dir s"
proof -
  obtain r where r: "row_of sid w = Some r" "site_id s = sid" using f by (rule fetch_row)
  obtain s' x v where sv: "save env (s\<lparr>site_public_dir := dir\<rparr>) w = (s', x, v)" by (metis prod_cases3)
  have x: "x = None" "w1 = write_config_yaml env s' (notify_updated s' v)"
    using ch f sv by (cases x; auto simp: update_public_dir_def split: if_splits)+
  obtain t where t: "row_of sid v = Some t" "site_public_dir t = dir"
    using save_row [of env "s\<lparr>site_public_dir := dir\<rparr>" w s' v r] sv x(1) r by auto
  obtain u where "rows w2 = replace_row (stored env u (s\<lparr>site_started := True\<rparr>)) (rows w1)"
    using start_locked_rows [OF st] by auto
  moreover have "row_of sid w1 = Some t" using t x(2) by simp
  ultimately have "row_of sid w2 = Some ((stored env u (s\<lparr>site_started := True\<rparr>))\<lparr>site_created_at := site_created_at t\<rparr>)"
    using r(2) by (simp add: row_of_def find_replace_row)
  with t x(2) show ?thesis by simp
qed

lemma start_undoes_public_dir_witness:
  "\<exists>w1 w2. update_public_dir (idle_env (idle_services mem_runtime None)) ''s1'' ''web'' (sample_manager [sample_site] no_containers) = (None, w1) \<and>
     start_locked (idle_env (idle_services mem_runtime None)) (hydrate_legacy_db_fields sample_site) w1 = (None, w2) \<and>
     site_public_dir (the (row_of ''s1'' w1)) = ''web'' \<and> site_public_dir (the (row_of ''s1'' w2)) = []"
proof -
  let ?env = "idle_env (idle_services mem_runtime None)" and ?s = "hydrate_legacy_db_fields sample_site"
    and ?w = "sample_manager [sample_site] no_containers"
  have f: "fetch ?env ''s1'' ?w = Inr (Some ?s)" by (rule sample_fetch)
  have h: "site_public_dir ?s = []" "\<not> site_started ?s" by code_simp+
  obtain w1 where w1: "update_public_dir ?env ''s1'' ''web'' ?w = (None, w1)"
  proof -
    obtain s' x v where sv: "save ?env (?s\<lparr>site_public_dir := ''web''\<rparr>) ?w = (s', x, v)" by (metis prod_cases3)
    have "me_flt ?env ?w = no_faults" by (simp add: idle_env_def)
    from save_no_faults [OF this, of "?s\<lparr>site_public_dir := ''web''\<rparr>"] sv have "x = None" by simp
    then show thesis using that f h sv by (simp add: update_public_dir_def)
  qed
  obtain w2 where w2: "start_locked ?env ?s w1 = (None, w2)" using start_locked_runs [OF mem_runtime_ok mem_sv idle_uneventful] by blast
  from start_undoes_public_dir [OF f w1 _ w2] h w1 w2 show ?thesis by auto
qed

section \<open>Any sequence of operations\<close>








text \<open>
  C13. A deletion ends when the links from a worktree to its parent go up in some measure: it needs no more levels than the
  measure of the site.
\<close>

theorem delete_ends:
  assumes "descends rank (rows w)" "rank sid < fuel"
  shows "\<exists>e w'. delete_site_opts fuel env opts sid w = Some (e, w')"
  using delete_terminates [OF assms] by fastforce

definition sample_family :: "site list" where
  "sample_family = [sample_site, sample_site\<lparr>site_id := ''s2'', site_parent_site_id := ''s1''\<rparr>, sample_site\<lparr>site_id := ''s3''\<rparr>]"

definition plain_delete :: delete_opts where
  "plain_delete = \<lparr>del_purge_volume = False, del_skip_snapshot = True, del_force_worktree = False, del_dry_run = False\<rparr>"

lemma sample_parents:
  "map site_id sample_family = [''s1'', ''s2'', ''s3'']" "map site_parent_site_id sample_family = [[], ''s1'', []]"
  by code_simp+

lemma sample_descends: "descends (\<lambda>i. if i = ''s1'' then 1 else 0) (rows (sample_manager sample_family e))"
  by (simp add: descends_def sample_manager_def rows_def sample_family_def sample_site_def empty_site_def)

lemma delete_ends_witness:
  "\<exists>e w'. delete_site_opts 2 (idle_env (idle_services mem_runtime None)) plain_delete ''s1'' (sample_manager sample_family no_containers) =
     Some (e, w')"
  by (rule delete_ends [OF sample_descends]) simp

text \<open>
  C12. A deletion removes nothing outside the family of the site: rows that are not among it and the worktrees below it are as
  they were, in their order. A dry run removes no row, and a deletion without an error removes the site's.
\<close>

theorem delete_removes_the_family:
  assumes "delete_site_opts fuel env opts sid w = Some (e, w')" "sid \<in> A" "family A (rows w)"
  shows "filter (\<lambda>r. site_id r \<notin> A) (rows w') = filter (\<lambda>r. site_id r \<notin> A) (rows w) \<and>
    (if del_dry_run opts then rows w' = rows w else e = None \<longrightarrow> sid \<notin> site_id ` set (rows w'))"
  using delete_outside_family [OF assms] delete_gone [OF assms(1)] by simp

lemma delete_removes_the_family_witness:
  "\<exists>e w'. delete_site_opts 2 (idle_env (idle_services mem_runtime None)) plain_delete ''s1'' (sample_manager sample_family no_containers) =
     Some (e, w') \<and> map site_id (filter (\<lambda>r. site_id r \<notin> {''s1'', ''s2''}) (rows w')) = [''s3'']"
proof -
  let ?env = "idle_env (idle_services mem_runtime None)" and ?w = "sample_manager sample_family no_containers"
  obtain r where r: "delete_site_opts 2 ?env plain_delete ''s1'' ?w = Some r"
    using delete_terminates [OF sample_descends, where sid = "''s1''" and fuel = 2] by fastforce
  then obtain e w' where d: "delete_site_opts 2 ?env plain_delete ''s1'' ?w = Some (e, w')" by (cases r) simp
  have "family {''s1'', ''s2''} (rows ?w)"
    by (simp add: family_def sample_manager_def rows_def sample_family_def sample_site_def empty_site_def)
  from delete_removes_the_family [OF d _ this] have
    "filter (\<lambda>r. site_id r \<notin> {''s1'', ''s2''}) (rows w') = filter (\<lambda>r. site_id r \<notin> {''s1'', ''s2''}) sample_family"
    by (simp add: sample_manager_def rows_def)
  moreover have "map site_id (filter (\<lambda>r. site_id r \<notin> {''s1'', ''s2''}) sample_family) = [''s3'']" by code_simp
  ultimately show ?thesis using d by metis
qed

end
