(* ===== verification/Assets.thy ===== *)
theory Assets
  imports Host_Files
begin

text \<open>
  \<^verbatim>\<open>internal/assets/assets.go\<close>: bringing the configuration files embedded in the binary to the disk without losing what
  the user changed there, with the record of digests from one start to the next. The walk over the embedded files is given
  as the list of what it visits; the digest and the JSON of the record are parameters; the callback \<^verbatim>\<open>onWrite\<close> is nil, as the one caller passes it.
\<close>

section \<open>Verdicts and the record of digests\<close>

datatype asset_verdict = VerdictNoOp | VerdictWrote | VerdictUserOwned | VerdictMergeNeeded

fun verdict_string :: "asset_verdict \<Rightarrow> string" where
  "verdict_string VerdictNoOp = ''no-op''"
| "verdict_string VerdictWrote = ''wrote''"
| "verdict_string VerdictUserOwned = ''user-owned''"
| "verdict_string VerdictMergeNeeded = ''merge-needed''"

text \<open>A result with an error has the zero verdict.\<close>

record file_result =
  fr_path :: string
  fr_verdict :: asset_verdict
  fr_err :: "go_error option"

definition merge_needed :: "file_result list \<Rightarrow> file_result list" where
  "merge_needed = filter (\<lambda>f. fr_verdict f = VerdictMergeNeeded)"

record asset_state =
  as_version :: int
  as_hashes :: "string \<rightharpoonup> string"

definition state_version :: int where "state_version = 1"

definition empty_state :: asset_state where
  "empty_state = \<lparr>as_version = state_version, as_hashes = Map.empty\<rparr>"

record 'x asset_env =
  ae_os :: "'x os"
  ae_digest :: "string \<Rightarrow> string"
  ae_decode :: "string \<Rightarrow> asset_state option"
  ae_encode :: "asset_state \<Rightarrow> string"

text \<open>With a read error the struct returned is the zero one, of version 0.\<close>

definition load_state :: "'x asset_env \<Rightarrow> string \<Rightarrow> 'x host \<Rightarrow> asset_state \<times> go_error option" where
  "load_state env p w =
     (case os_read_file (ae_os env) p w of
        Inl NotExist \<Rightarrow> (empty_state, None)
      | Inl (FileError e) \<Rightarrow> (\<lparr>as_version = 0, as_hashes = Map.empty\<rparr>, Some (''assets: read state '' @ quoted p @ '': '' @ e))
      | Inr body \<Rightarrow>
          (case ae_decode env body of
             None \<Rightarrow> (empty_state, None)
           | Some s \<Rightarrow> if as_version s \<noteq> state_version then (empty_state, None) else (s, None)))"

definition save_state :: "'x asset_env \<Rightarrow> string \<Rightarrow> asset_state \<Rightarrow> 'x host \<Rightarrow> go_error option \<times> 'x host" where
  "save_state env p s w =
     (let s = (if as_version s = 0 then s\<lparr>as_version := state_version\<rparr> else s)
      in write_atomic (ae_os env) p (ae_encode env s @ ''\<newline>'') w)"

definition default_state_path :: "string \<Rightarrow> string" where
  "default_state_path home = path_join [home, ''.locorum'', ''state'', ''asset_hashes.json'']"

definition is_config_path :: "string \<Rightarrow> string \<Rightarrow> bool" where
  "is_config_path key pre \<longleftrightarrow> prefix (pre @ ''/'') key \<or> key = pre"

section \<open>Reconciling\<close>

definition hash_file :: "'x asset_env \<Rightarrow> string \<Rightarrow> 'x host \<Rightarrow> go_error + string option" where
  "hash_file env p w =
     (case os_read_file (ae_os env) p w of
        Inl NotExist \<Rightarrow> Inr None
      | Inl (FileError e) \<Rightarrow> Inl (''assets: read '' @ quoted p @ '': '' @ e)
      | Inr body \<Rightarrow> Inr (Some (ae_digest env body)))"

text \<open>What the walk visits: an error, or a file with its path below the root and what reading it returns.\<close>

datatype visit = Unwalkable go_error | Embedded string "go_error + string"

definition failed_file :: "string \<Rightarrow> go_error \<Rightarrow> file_result" where
  "failed_file key e = \<lparr>fr_path = key, fr_verdict = VerdictNoOp, fr_err = Some e\<rparr>"

definition judged :: "string \<Rightarrow> asset_verdict \<Rightarrow> file_result" where
  "judged key v = \<lparr>fr_path = key, fr_verdict = v, fr_err = None\<rparr>"

definition write_asset :: "'x asset_env \<Rightarrow> string \<Rightarrow> string \<Rightarrow> string \<Rightarrow> 'x host \<Rightarrow> file_result \<times> 'x host" where
  "write_asset env p key data w =
     (case write_atomic (ae_os env) p data w of
        (Some e, w) \<Rightarrow> (failed_file key e, w)
      | (None, w) \<Rightarrow> (judged key VerdictWrote, w))"

text \<open>A key that is not in the map reads as the empty string.\<close>

definition reconcile_file :: "'x asset_env \<Rightarrow> string \<Rightarrow> asset_state \<Rightarrow> string \<Rightarrow> string \<Rightarrow> 'x host \<Rightarrow> file_result \<times> 'x host" where
  "reconcile_file env root prev key data w =
     (let p = path_join [root, key]
      in case hash_file env p w of
           Inl e \<Rightarrow> (failed_file key e, w)
         | Inr None \<Rightarrow> write_asset env p key data w
         | Inr (Some have) \<Rightarrow>
             if have = ae_digest env data then (judged key VerdictNoOp, w)
             else if have = (case as_hashes prev key of None \<Rightarrow> [] | Some d \<Rightarrow> d) then write_asset env p key data w
             else (judged key VerdictMergeNeeded, w))"

fun reconcile_walk ::
    "'x asset_env \<Rightarrow> string \<Rightarrow> asset_state \<Rightarrow> visit list \<Rightarrow> file_result list \<Rightarrow> (string \<rightharpoonup> string) \<Rightarrow> 'x host \<Rightarrow>
     (file_result list \<times> (string \<rightharpoonup> string) \<times> go_error option) \<times> 'x host" where
  "reconcile_walk env root prev [] rs hs w = ((rs, hs, None), w)"
| "reconcile_walk env root prev (Unwalkable e # vs) rs hs w = ((rs, hs, Some e), w)"
| "reconcile_walk env root prev (Embedded key (Inl e) # vs) rs hs w =
     reconcile_walk env root prev vs (rs @ [failed_file key e]) hs w"
| "reconcile_walk env root prev (Embedded key (Inr data) # vs) rs hs w =
     (case reconcile_file env root prev key data w of
        (r, w) \<Rightarrow> reconcile_walk env root prev vs (rs @ [r]) (hs(key \<mapsto> ae_digest env data)) w)"

definition reconcile ::
    "'x asset_env \<Rightarrow> string \<Rightarrow> string \<Rightarrow> asset_state \<Rightarrow> visit list \<Rightarrow> 'x host \<Rightarrow>
     (file_result list \<times> asset_state \<times> go_error option) \<times> 'x host" where
  "reconcile env embed_root root prev vs w =
     (case reconcile_walk env root prev vs [] Map.empty w of
        ((rs, hs, Some e), w) \<Rightarrow> ((rs, prev, Some (''assets: walk '' @ quoted embed_root @ '': '' @ e)), w)
      | ((rs, hs, None), w) \<Rightarrow> ((sort_key fr_path rs, \<lparr>as_version = state_version, as_hashes = hs\<rparr>, None), w))"

section \<open>What the user changed stays\<close>








definition sample_asset_env :: "bool \<Rightarrow> unit asset_env" where
  "sample_asset_env full =
     \<lparr>ae_os = \<lparr>os_fail = (\<lambda>op p h. if full \<and> op = ''mkdir'' then Some ''no space left'' else None), os_torn = (\<lambda>p h. []), os_rand = (\<lambda>h. 7)\<rparr>,
      ae_digest = (\<lambda>b. b), ae_decode = (\<lambda>b. None), ae_encode = (\<lambda>s. [])\<rparr>"

definition one_file :: "string \<Rightarrow> unit host" where
  "one_file b = \<lparr>ho_files = [''/c/nginx.conf'' \<mapsto> b], ho_rest = ()\<rparr>"

definition recorded :: "string \<Rightarrow> asset_state" where
  "recorded d = \<lparr>as_version = 1, as_hashes = [''nginx.conf'' \<mapsto> d]\<rparr>"

lemma sample_path: "path_join [''/c'', ''nginx.conf''] = ''/c/nginx.conf''" "path_base ''/c/nginx.conf'' \<noteq> ''/''"
  by code_simp+


section \<open>A write that fails is not made up for\<close>

text \<open>
  C38. The digest of an embedded file is recorded whether or not the file reached the disk. A file that could not be written once is
  from then on taken for one the user changed: every later run, with the state the first one returned, reports a needed merge
  and leaves the old content.
\<close>

theorem failed_refresh_is_never_made_up:
  assumes "reconcile env embed_root root prev [Embedded key (Inr data)] w = (([r], st, None), w1)" "fr_err r \<noteq> None"
    and "ho_files w (path_join [root, key]) = Some b" "ae_digest env b \<noteq> ae_digest env data"
    and "path_base (path_join [root, key]) \<noteq> ''/''"
    and "ae_digest env' = ae_digest env" "\<And>h. os_fail (ae_os env') ''read'' (path_join [root, key]) h = None"
  shows "ho_files w1 (path_join [root, key]) = Some b \<and>
    reconcile env' embed_root root st [Embedded key (Inr data)] w1 = (([judged key VerdictMergeNeeded], st, None), w1)"
proof -
  let ?p = "path_join [root, key]"
  have f: "reconcile_file env root prev key data w = (r, w1)" and st: "st = \<lparr>as_version = state_version, as_hashes = [key \<mapsto> ae_digest env data]\<rparr>"
    using assms(1) by (auto simp: reconcile_def split: prod.splits)
  have b: "ho_files w1 ?p = Some b"
  proof (cases "w1 = w")
    case False
    then have "write_asset env ?p key data w = (r, w1)"
      using f assms(2) by (auto simp: reconcile_file_def Let_def judged_def split: sum.splits option.splits if_splits)
    then obtain e where "write_atomic (ae_os env) ?p data w = (Some e, w1)"
      using assms(2) by (auto simp: write_asset_def judged_def split: prod.splits option.splits)
    from write_atomic_overwrites [OF assms(5) this] show ?thesis using assms(3) by (simp add: overwrites_def)
  qed (simp add: assms(3))
  then show ?thesis
    using assms(4,6,7) by (simp add: reconcile_def reconcile_file_def hash_file_def os_read_file_def Let_def st)
qed

lemma failed_refresh_is_never_made_up_witness:
  "\<exists>r st w1. reconcile (sample_asset_env True) ''config'' ''/c'' (recorded ''old'') [Embedded ''nginx.conf'' (Inr ''new'')] (one_file ''old'')
       = (([r], st, None), w1) \<and>
     reconcile (sample_asset_env False) ''config'' ''/c'' st [Embedded ''nginx.conf'' (Inr ''new'')] w1
       = (([judged ''nginx.conf'' VerdictMergeNeeded], st, None), w1)"
proof -
  let ?r = "failed_file ''nginx.conf'' (''genmark: ensure parent dir '' @ quoted (path_dir ''/c/nginx.conf'') @ '': '' @ ''no space left'')"
  let ?st = "\<lparr>as_version = state_version, as_hashes = [''nginx.conf'' \<mapsto> ''new'']\<rparr>"
  have d: "ae_digest (sample_asset_env full) = (\<lambda>b. b)" "os_fail (ae_os (sample_asset_env full)) ''mkdir'' p h = (if full then Some ''no space left'' else None)"
      "os_fail (ae_os (sample_asset_env full)) ''read'' p h = None" for full p h
    by (simp_all add: sample_asset_env_def)
  have o: "ho_files (one_file ''old'') ''/c/nginx.conf'' = Some ''old''" by (simp add: one_file_def)
  have "write_atomic (ae_os (sample_asset_env True)) ''/c/nginx.conf'' ''new'' (one_file ''old'') =
      (Some (''genmark: ensure parent dir '' @ quoted (path_dir ''/c/nginx.conf'') @ '': '' @ ''no space left''), one_file ''old'')"
    by (simp add: write_atomic_def write_atomic_no_check_def os_read_file_def os_call_def d o Let_def)
  then have r: "reconcile (sample_asset_env True) ''config'' ''/c'' (recorded ''old'') [Embedded ''nginx.conf'' (Inr ''new'')] (one_file ''old'')
      = (([?r], ?st, None), one_file ''old'')"
    by (simp add: reconcile_def reconcile_file_def hash_file_def os_read_file_def Let_def sample_path d o recorded_def write_asset_def)
  have "reconcile (sample_asset_env False) ''config'' ''/c'' ?st [Embedded ''nginx.conf'' (Inr ''new'')] (one_file ''old'')
      = (([judged ''nginx.conf'' VerdictMergeNeeded], ?st, None), one_file ''old'')"
    by (rule conjunct2 [OF failed_refresh_is_never_made_up [where b = "''old''" and env' = "sample_asset_env False", OF r]])
      (simp_all add: failed_file_def sample_path d o)
  with r show ?thesis by blast
qed

end
