(* ===== verification/Go_Time.thy ===== *)
theory Go_Time
  imports Go_Prelude
begin

text \<open>
  What the code uses of \<^verbatim>\<open>time.Time.Format\<close> and \<^verbatim>\<open>time.Parse\<close> with the layout \<^verbatim>\<open>20060102T150405Z\<close> in UTC: the
  proleptic Gregorian calendar over nanoseconds since the Unix epoch, the fixed-width fields, and the parser with its range
  checks. Formatting and parsing again gives the second the time lies in.
\<close>

section \<open>The calendar\<close>

definition leap_year :: "int \<Rightarrow> bool" where
  "leap_year y \<longleftrightarrow> y mod 4 = 0 \<and> (y mod 100 \<noteq> 0 \<or> y mod 400 = 0)"

text \<open>Days before each month of a year that is not a leap year, the thirteenth entry its length.\<close>

definition days_before :: "nat list" where
  "days_before = [0, 31, 59, 90, 120, 151, 181, 212, 243, 273, 304, 334, 365]"

definition days_in_month :: "bool \<Rightarrow> nat \<Rightarrow> nat" where
  "days_in_month leap m = (if m = 2 \<and> leap then 29 else days_before ! m - days_before ! (m - 1))"

text \<open>Years and days within the year, from the days since the first of January of the year 1.\<close>

definition year_day :: "int \<Rightarrow> int \<times> nat" where
  "year_day d =
     (let a = d div 146097; d = d mod 146097;
          b = min 3 (d div 36524); d = d - 36524 * b;
          c = d div 1461; d = d - 1461 * c;
          e = min 3 (d div 365); d = d - 365 * e
      in (400 * a + 100 * b + 4 * c + e + 1, nat d))"

text \<open>Month and day, from the day of the year counted from 0.\<close>

definition month_day :: "bool \<Rightarrow> nat \<Rightarrow> nat \<times> nat" where
  "month_day leap yd =
     (if leap \<and> yd = 59 then (2, 29)
      else let d = (if leap \<and> 59 < yd then yd - 1 else yd);
               m = length (takeWhile (\<lambda>k. k \<le> d) days_before)
           in (m, d - days_before ! (m - 1) + 1))"

definition date_of_days :: "int \<Rightarrow> int \<times> nat \<times> nat" where
  "date_of_days d = (case year_day d of (y, yd) \<Rightarrow> (y, month_day (leap_year y) yd))"

definition days_of_year :: "int \<Rightarrow> int" where
  "days_of_year y = (let k = y - 1 in 365 * k + k div 4 - k div 100 + k div 400)"

definition days_of_date :: "int \<Rightarrow> nat \<Rightarrow> nat \<Rightarrow> int" where
  "days_of_date y m d =
     days_of_year y + int (days_before ! (m - 1)) + (if leap_year y \<and> 3 \<le> m then 1 else 0) + int d - 1"

lemma year_day_split:
  assumes "year_day d = (y, yd)"
  shows "days_of_year y + int yd = d \<and> yd < 366 \<and> (yd = 365 \<longrightarrow> leap_year y)"
proof -
  define a where "a = d div 146097"
  define r where "r = d mod 146097"
  define b where "b = min 3 (r div 36524)"
  define s where "s = r - 36524 * b"
  define c where "c = s div 1461"
  define t where "t = s - 1461 * c"
  define e where "e = min 3 (t div 365)"
  define u where "u = t - 365 * e"
  have y: "y = 400 * a + 100 * b + 4 * c + e + 1" "yd = nat u"
    using assms unfolding year_day_def Let_def a_def [symmetric] r_def [symmetric] b_def [symmetric] s_def [symmetric]
      c_def [symmetric] t_def [symmetric] e_def [symmetric] u_def [symmetric] by simp_all
  have d: "d = 146097 * a + r" "0 \<le> r" "r < 146097" by (simp_all add: a_def r_def)
  have b: "0 \<le> b" "b \<le> 3" "0 \<le> s" "b = 3 \<longrightarrow> s < 36525" "b < 3 \<longrightarrow> s < 36524"
    using d(2,3) by (auto simp: b_def s_def min_def)
  have c: "0 \<le> c" "c \<le> 24" "0 \<le> t" "t < 1461" "c = 24 \<and> b < 3 \<longrightarrow> t < 1460"
    using b by (auto simp: c_def t_def)
  have e: "0 \<le> e" "e \<le> 3" "0 \<le> u" "e < 3 \<longrightarrow> u < 365" "e = 3 \<longrightarrow> u = t - 1095" "u < 366"
    using c(3,4) by (auto simp: e_def u_def min_def)
  have k4: "(400 * a + 100 * b + 4 * c + e) div 4 = 100 * a + 25 * b + c"
    using e(1,2) by (intro int_div_pos_eq [where r = e]) simp_all
  have k100: "(400 * a + 100 * b + 4 * c + e) div 100 = 4 * a + b"
    using c(1,2) e(1,2) by (intro int_div_pos_eq [where r = "4 * c + e"]) simp_all
  have k400: "(400 * a + 100 * b + 4 * c + e) div 400 = a"
    using b(1,2) c(1,2) e(1,2) by (intro int_div_pos_eq [where r = "100 * b + 4 * c + e"]) simp_all
  have "days_of_year y = 365 * (400 * a + 100 * b + 4 * c + e) + (100 * a + 25 * b + c) - (4 * a + b) + a"
    unfolding days_of_year_def Let_def y(1) add_diff_cancel_right' k4 k100 k400 by simp
  then have "days_of_year y + u = d" using d(1) s_def t_def u_def by simp
  moreover have "u = 365 \<longrightarrow> leap_year y"
  proof
    assume "u = 365"
    then have e3: "e = 3" "t = 1460" using e(2,4,5) by auto
    then have "c \<noteq> 24 \<or> b = 3" using c(5) b(2) by auto
    have y4: "y = 400 * a + 100 * b + 4 * (c + 1)" using y(1) e3 by simp
    show "leap_year y"
    proof (cases "c = 24")
      case True
      then have "y = 400 * (a + 1)" using \<open>c \<noteq> 24 \<or> b = 3\<close> y4 by simp
      then show ?thesis by (simp add: leap_year_def)
    next
      case False
      have "y mod 100 = 4 * (c + 1)"
        using False c(1,2) unfolding y4 by (intro int_mod_pos_eq [where q = "4 * a + b"]) auto
      moreover have "y mod 4 = 0" unfolding y4 by presburger
      ultimately show ?thesis using c(1) by (simp add: leap_year_def)
    qed
  qed
  ultimately show ?thesis using y(2) e(3,6) by auto
qed

text \<open>The month part is a finite check.\<close>

lemma month_number:
  assumes "d < 365"
  obtains m where "m = length (takeWhile (\<lambda>k. k \<le> d) days_before)" "1 \<le> m" "m \<le> 12"
    "days_before ! (m - 1) \<le> d" "d < days_before ! m"
proof -
  let ?P = "\<lambda>k. k \<le> d"
  define m where "m = length (takeWhile ?P days_before)"
  have len: "length days_before = 13" by (simp add: days_before_def)
  have one: "1 \<le> m" by (simp add: m_def days_before_def)
  have "days_before ! (m - 1) \<in> set (takeWhile ?P days_before)"
  proof -
    have lt: "m - 1 < length (takeWhile ?P days_before)" using one unfolding m_def by linarith
    show ?thesis using nth_mem [OF lt] takeWhile_nth [OF lt] by simp
  qed
  then have low: "days_before ! (m - 1) \<le> d" using set_takeWhileD [of _ ?P days_before] by blast
  have "m \<noteq> 13"
  proof
    assume "m = 13"
    then show False using low assms by (simp add: days_before_def)
  qed
  then have m12: "m \<le> 12" using length_takeWhile_le [of ?P days_before] len by (simp add: m_def)
  then have "d < days_before ! m" using nth_length_takeWhile [of ?P days_before] len by (simp add: m_def)
  with one m12 low show thesis using that m_def by blast
qed

lemma month_cases: "1 \<le> m \<Longrightarrow> m \<le> 12 \<Longrightarrow> m \<in> set [1 :: nat, 2, 3, 4, 5, 6, 7, 8, 9, 10, 11, 12]"
  unfolding list.set insert_iff empty_iff by presburger

lemma month_day_split:
  assumes "month_day leap yd = (m, d)" "yd < 366" "yd = 365 \<longrightarrow> leap"
  shows "1 \<le> m \<and> m \<le> 12 \<and> 1 \<le> d \<and> d \<le> days_in_month leap m \<and>
    days_before ! (m - 1) + (if leap \<and> 3 \<le> m then 1 else 0) + d = yd + 1"
proof (cases "leap \<and> yd = 59")
  case True
  then have "m = 2" "d = 29" using assms(1) by (simp_all add: month_day_def)
  then show ?thesis using True by (simp add: days_in_month_def days_before_def)
next
  case False
  define k where "k = (if leap \<and> 59 < yd then yd - 1 else yd)"
  have "k < 365" using assms(2,3) False by (auto simp: k_def)
  then obtain n where n: "n = length (takeWhile (\<lambda>j. j \<le> k) days_before)" "1 \<le> n" "n \<le> 12"
      "days_before ! (n - 1) \<le> k" "k < days_before ! n" by (rule month_number)
  have md: "m = n" "d = k - days_before ! (n - 1) + 1"
    using assms(1) False n(1) by (auto simp: month_day_def k_def Let_def)
  have r: "leap \<Longrightarrow> 3 \<le> n \<longleftrightarrow> 59 < yd"
    using month_cases [OF n(2,3)] n(4,5) False by (auto simp: days_before_def k_def split: if_splits)
  have "d \<le> days_in_month leap n" using n(4,5) md(2) by (auto simp: days_in_month_def days_before_def)
  moreover have "days_before ! (n - 1) + (if leap \<and> 3 \<le> n then 1 else 0) + d = yd + 1"
    using r n(4) md(2) by (auto simp: k_def)
  ultimately show ?thesis using n(2,3) md by simp
qed

lemma date_split:
  assumes "date_of_days n = (y, m, d)"
  shows "days_of_date y m d = n \<and> 1 \<le> m \<and> m \<le> 12 \<and> 1 \<le> d \<and> d \<le> days_in_month (leap_year y) m"
proof -
  obtain yd where yd: "year_day n = (y, yd)" "month_day (leap_year y) yd = (m, d)"
    using assms by (auto simp: date_of_days_def split: prod.splits)
  note s = year_day_split [OF yd(1)]
  note m = month_day_split [OF yd(2) conjunct1 [OF conjunct2 [OF s]] conjunct2 [OF conjunct2 [OF s]]]
  have "int (days_before ! (m - 1)) + (if leap_year y \<and> 3 \<le> m then 1 else 0) + int d = int yd + 1"
    using m arg_cong [of _ _ int] by (auto split: if_splits)
  then have "days_of_date y m d = n" using s unfolding days_of_date_def by linarith
  with m show ?thesis by simp
qed

section \<open>Formatting\<close>

definition pad_digits :: "nat \<Rightarrow> nat \<Rightarrow> string" where
  "pad_digits w n = (let ds = nat_digits n in replicate (w - length ds) CHR ''0'' @ ds)"

definition year_digits :: "int \<Rightarrow> string" where
  "year_digits y = (if y < 0 then ''-'' @ pad_digits 4 (nat (- y)) else pad_digits 4 (nat y))"

definition compact_stamp :: "gtime \<Rightarrow> string" where
  "compact_stamp t =
     (let sec = t div second; n = nat (sec mod 86400)
      in case date_of_days (sec div 86400 + 719162) of
           (y, m, d) \<Rightarrow> year_digits y @ pad_digits 2 m @ pad_digits 2 d @ ''T'' @ pad_digits 2 (n div 3600) @
             pad_digits 2 (n div 60 mod 60) @ pad_digits 2 (n mod 60) @ ''Z'')"

section \<open>Parsing\<close>

text \<open>\<^verbatim>\<open>getnum\<close>: two digits, or one when they need not be two.\<close>

definition get_num :: "bool \<Rightarrow> string \<Rightarrow> (nat \<times> string) option" where
  "get_num fixed s =
     (case s of
        [] \<Rightarrow> None
      | a # r \<Rightarrow>
          if \<not> is_digit a then None
          else (case r of
                  [] \<Rightarrow> if fixed then None else Some (byte a - 48, r)
                | b # q \<Rightarrow>
                    if is_digit b then Some ((byte a - 48) * 10 + (byte b - 48), q)
                    else if fixed then None else Some (byte a - 48, r)))"

definition get_below :: "bool \<Rightarrow> nat \<Rightarrow> string \<Rightarrow> (nat \<times> string) option" where
  "get_below fixed lim s = (case get_num fixed s of Some (n, r) \<Rightarrow> if n < lim then Some (n, r) else None | None \<Rightarrow> None)"

definition get_year :: "string \<Rightarrow> (nat \<times> string) option" where
  "get_year s = (if 4 \<le> length s \<and> list_all is_digit (take 4 s) then Some (digits_val (take 4 s), drop 4 s) else None)"

definition skip_char :: "char \<Rightarrow> string \<Rightarrow> string option" where
  "skip_char c s = (case s of a # r \<Rightarrow> if a = c then Some r else None | [] \<Rightarrow> None)"

text \<open>A fraction after the seconds is accepted although the layout has none; digits after the ninth are dropped.\<close>

definition get_fraction :: "string \<Rightarrow> nat \<times> string" where
  "get_fraction s =
     (case s of
        c # r \<Rightarrow>
          if (c = CHR ''.'' \<or> c = CHR '','') \<and> r \<noteq> [] \<and> is_digit (hd r)
          then let ds = takeWhile is_digit r; k = take 9 ds in (digits_val k * 10 ^ (9 - length k), dropWhile is_digit r)
          else (0, s)
      | [] \<Rightarrow> (0, s))"

definition stamp_time :: "nat \<Rightarrow> nat \<Rightarrow> nat \<Rightarrow> nat \<Rightarrow> nat \<Rightarrow> nat \<Rightarrow> nat \<Rightarrow> gtime" where
  "stamp_time y m d h i sec ns =
     ((days_of_date (int y) m d - 719162) * 86400 + int h * 3600 + int i * 60 + int sec) * second + int ns"

definition parse_compact :: "string \<Rightarrow> gtime option" where
  "parse_compact s =
     Option.bind (get_year s) (\<lambda>(y, s).
     Option.bind (get_below True 13 s) (\<lambda>(m, s).
     if m = 0 then None else
     Option.bind (get_num True s) (\<lambda>(d, s).
     Option.bind (skip_char CHR ''T'' s) (\<lambda>s.
     Option.bind (get_below False 24 s) (\<lambda>(h, s).
     Option.bind (get_below True 60 s) (\<lambda>(i, s).
     Option.bind (get_below True 60 s) (\<lambda>(sec, s).
     case get_fraction s of (ns, s) \<Rightarrow>
     Option.bind (skip_char CHR ''Z'' s) (\<lambda>s.
     if s \<noteq> [] \<or> d < 1 \<or> days_in_month (leap_year (int y)) m < d then None
     else Some (stamp_time y m d h i sec ns)))))))))"

section \<open>Round trip\<close>

lemma nat_digits_two: "10 \<le> n \<Longrightarrow> n < 100 \<Longrightarrow> nat_digits n = [digit_char (n div 10), digit_char (n mod 10)]"
  by (simp add: nat_digits.simps [of n] nat_digits.simps [of "n div 10"])

lemma pad_two:
  assumes "n < 100"
  shows "pad_digits 2 n = [digit_char (n div 10), digit_char (n mod 10)]"
proof (cases "n < 10")
  case True
  have "digit_char 0 = CHR ''0''" by code_simp
  then show ?thesis using True by (simp add: pad_digits_def nat_digits.simps [of n])
next
  case False
  then show ?thesis using nat_digits_two [of n] assms by (simp add: pad_digits_def)
qed

lemma get_num_pad: "n < 100 \<Longrightarrow> get_num fixed (pad_digits 2 n @ r) = Some (n, r)"
  by (simp add: pad_two get_num_def digit_char_is_digit digit_char_val)

lemma get_below_pad: "n < lim \<Longrightarrow> lim \<le> 100 \<Longrightarrow> get_below fixed lim (pad_digits 2 n @ r) = Some (n, r)"
  by (simp add: get_below_def get_num_pad)

lemma nat_digits_length: "n < 10 ^ w \<Longrightarrow> 0 < w \<Longrightarrow> length (nat_digits n) \<le> w"
proof (induction w arbitrary: n)
  case (Suc w)
  show ?case
  proof (cases "n < 10")
    case True
    then show ?thesis by (simp add: nat_digits.simps [of n])
  next
    case False
    then have w: "0 < w" using Suc.prems by (cases w) auto
    have "n div 10 < 10 ^ w" using Suc.prems(1) by (simp add: less_mult_imp_div_less mult.commute)
    then show ?thesis using Suc.IH [OF _ w] False by (simp add: nat_digits.simps [of n])
  qed
qed simp

lemma digits_val_zeros: "digits_val (replicate k CHR ''0'' @ s) = digits_val s"
  by (induction k) (simp_all add: digits_val_def)

lemma get_year_pad:
  assumes "n < 10000"
  shows "get_year (pad_digits 4 n @ r) = Some (n, r)"
proof -
  have l: "length (nat_digits n) \<le> 4" using nat_digits_length [of n 4] assms by simp
  then have "length (pad_digits 4 n) = 4" by (simp add: pad_digits_def Let_def)
  moreover have "list_all is_digit (pad_digits 4 n)"
    using nat_digits_props [of n] by (auto simp: pad_digits_def Let_def list_all_iff is_digit_def)
  moreover have "digits_val (pad_digits 4 n) = n"
    using nat_digits_props [of n] by (simp add: pad_digits_def Let_def digits_val_zeros)
  ultimately show ?thesis by (simp add: get_year_def)
qed

lemma seconds_split: "(n :: nat) = n div 3600 * 3600 + n div 60 mod 60 * 60 + n mod 60"
proof -
  have "n = 60 * (n div 60) + n mod 60" "n div 60 = 60 * (n div 60 div 60) + n div 60 mod 60" by simp_all
  moreover have "n div 60 div 60 = n div 3600" by (simp add: div_mult2_eq [symmetric])
  ultimately show ?thesis by linarith
qed

theorem parse_compact_stamp:
  assumes "date_of_days (t div second div 86400 + 719162) = (y, m, d)" "0 \<le> y" "y < 10000"
  shows "parse_compact (compact_stamp t) = Some (t div second * second)"
proof -
  let ?s = "t div second"
  let ?n = "nat (?s mod 86400)"
  note s = date_split [OF assms(1)]
  have n: "?n < 86400" by (simp add: nat_less_iff)
  have h: "?n div 3600 < 24" "?n div 60 mod 60 < 60" "?n mod 60 < 60" using n by (simp_all add: less_mult_imp_div_less)
  have yd: "year_digits y = pad_digits 4 (nat y)" "nat y < 10000" "int (nat y) = y" using assms(2,3) by (simp_all add: year_digits_def)
  have db: "days_in_month l k \<le> 31" if "1 \<le> k" "k \<le> 12" for l k
  proof -
    have "\<forall>l \<in> {False, True}. \<forall>k \<in> set [1..<13]. days_in_month l k \<le> 31" by code_simp
    then show ?thesis using that by (cases l) auto
  qed
  then have d: "d \<le> 31" using s le_trans by blast
  have sum: "(days_of_date y m d - 719162) * 86400 + int (?n div 3600) * 3600 + int (?n div 60 mod 60) * 60 + int (?n mod 60) = ?s"
  proof -
    have "int (?n div 3600) * 3600 + int (?n div 60 mod 60) * 60 + int (?n mod 60) = int ?n"
      using arg_cong [OF seconds_split [of ?n], of int] by simp
    moreover have "int ?n = ?s mod 86400" by simp
    moreover have "(days_of_date y m d - 719162) * 86400 = ?s div 86400 * 86400" using s by simp
    ultimately show ?thesis using div_mult_mod_eq [of ?s 86400] by linarith
  qed
  have st: "stamp_time (nat y) m d (?n div 3600) (?n div 60 mod 60) (?n mod 60) 0 = ?s * second"
    unfolding stamp_time_def yd(3) sum by simp
  have "compact_stamp t = pad_digits 4 (nat y) @ pad_digits 2 m @ pad_digits 2 d @ CHR ''T'' # pad_digits 2 (?n div 3600) @
      pad_digits 2 (?n div 60 mod 60) @ pad_digits 2 (?n mod 60) @ ''Z''"
    by (simp add: compact_stamp_def assms(1) yd(1) Let_def)
  then show ?thesis
    using s d h yd by (simp add: parse_compact_def get_year_pad get_below_pad get_num_pad skip_char_def get_fraction_def st)
qed

end
