(* ===== verification/Snapshots.thy ===== *)
theory Snapshots
  imports Lifecycle Host_Files Go_Time "HOL-Library.Product_Lexorder"
begin

text \<open>
  \<^verbatim>\<open>internal/sites/snapshot.go\<close> with the dump and the load of \<^verbatim>\<open>internal/dbengine\<close>: names of snapshots, taking and restoring
  one, the checksum beside it, listing, deleting and the retention sweep. The compressors and the digest are parameters,
  and so is what a command in the database container prints and returns. Opening a file and reading it is one call here, and the
  file system has no symbolic links.
\<close>

section \<open>Surroundings\<close>

record 'x snap_env =
  sn_mgr :: "'x host manager_env"
  sn_os :: "'x os"
  sn_clock :: "'x host \<Rightarrow> gtime"
  sn_dump :: "string \<Rightarrow> string list \<Rightarrow> 'x host \<Rightarrow> (string \<times> (go_error + int)) \<times> 'x host"
  sn_load :: "string \<Rightarrow> string list \<Rightarrow> string \<times> go_error option \<Rightarrow> 'x host \<Rightarrow> (go_error + int) \<times> 'x host"
  sn_compress :: "string \<Rightarrow> string \<Rightarrow> string"
  sn_decompress :: "string \<Rightarrow> string \<Rightarrow> go_error + (string \<times> go_error option)"
  sn_digest :: "string \<Rightarrow> string"
  sn_cwd :: string
  sn_entries :: "string \<Rightarrow> 'x host \<Rightarrow> go_error + string list"
  sn_tie :: "string \<Rightarrow> nat"
  sn_iter :: "string set \<Rightarrow> string list"
  sn_policy :: "string \<Rightarrow> (int \<times> duration) option"
  sn_policy_json :: "int \<times> duration \<Rightarrow> string"

definition snapshots_root :: string where "snapshots_root = ''snapshots''"

definition snapshots_path :: "'x snap_env \<Rightarrow> string" where
  "snapshots_path env = path_join [sv_home (me_sv (sn_mgr env)), ''.locorum'', snapshots_root]"

definition snapshots_dir :: "'x snap_env \<Rightarrow> 'x host \<Rightarrow> go_error + string" where
  "snapshots_dir env h =
     (case os_fail (sn_os env) ''mkdir'' (snapshots_path env) h of
        Some e \<Rightarrow> Inl (''ensure snapshots dir: '' @ e)
      | None \<Rightarrow> Inr (snapshots_path env))"

definition should_auto_snapshot :: "'x snap_env \<Rightarrow> bool" where
  "should_auto_snapshot env = (case me_cfg (sn_mgr env) of None \<Rightarrow> True | Some c \<Rightarrow> auto_snapshot_before_destructive c)"

section \<open>Names\<close>

definition word_char :: "char \<Rightarrow> bool" where "word_char c \<longleftrightarrow> is_lower c \<or> is_digit c"

definition label_ok :: "string \<Rightarrow> bool" where
  "label_ok s \<longleftrightarrow> s \<noteq> [] \<and> word_char (hd s) \<and> length s \<le> 32 \<and> list_all (\<lambda>c. word_char c \<or> c = CHR ''_'') s"

definition tag_char :: "char \<Rightarrow> bool" where
  "tag_char c \<longleftrightarrow> is_lower c \<or> is_upper c \<or> is_digit c \<or> c \<in> {CHR ''.'', CHR ''_'', CHR ''-''}"

definition snapshot_sep :: string where "snapshot_sep = ''--''"
definition ext_gzip :: string where "ext_gzip = ''.sql.gz''"
definition ext_zstd :: string where "ext_zstd = ''.sql.zst''"
definition default_codec :: string where "default_codec = ''zstd''"

definition build_snapshot_name :: "string \<Rightarrow> string \<Rightarrow> string \<Rightarrow> string \<Rightarrow> gtime \<Rightarrow> string \<Rightarrow> string" where
  "build_snapshot_name slug label engine version t codec =
     (let engine = filter word_char (to_lower engine);
          engine = (if engine = [] then ''mysql'' else engine);
          version = filter tag_char version;
          version = (if version = [] then ''unknown'' else version);
          stem = join snapshot_sep [slug, label, compact_stamp t, engine @ ''-'' @ version]
      in if codec = ''gzip'' then stem @ ext_gzip else stem @ ext_zstd)"

record snapshot_info =
  si_filename :: string
  si_host_path :: string
  si_slug :: string
  si_label :: string
  si_engine :: string
  si_version :: string
  si_created :: gtime
  si_size :: int
  si_compression :: string
  si_has_checksum :: bool

fun split_dashes :: "string \<Rightarrow> string list" where
  "split_dashes [] = [[]]"
| "split_dashes [a] = [[a]]"
| "split_dashes (a # b # s) =
     (if a = CHR ''-'' \<and> b = CHR ''-'' then [] # split_dashes s
      else (case split_dashes (b # s) of [] \<Rightarrow> [[a]] | p # ps \<Rightarrow> (a # p) # ps))"

definition all_lower_alpha :: "string \<Rightarrow> bool" where "all_lower_alpha s \<longleftrightarrow> s \<noteq> [] \<and> list_all is_lower s"

definition split_engine_version :: "string \<Rightarrow> string \<times> string" where
  "split_engine_version s =
     (let e = takeWhile (\<lambda>c. c \<noteq> CHR ''-'') s
      in if e = [] \<or> e = s then (if all_lower_alpha s then (s, []) else ([], []))
         else if all_lower_alpha e then (e, drop (Suc (length e)) s) else ([], []))"

definition parse_stem :: "string \<Rightarrow> string \<Rightarrow> string \<Rightarrow> snapshot_info option" where
  "parse_stem name codec stem =
     (case split_dashes stem of
        [slug, label, ts, ev] \<Rightarrow>
          if slug = [] \<or> label = [] then None
          else (case parse_compact ts of
                  None \<Rightarrow> None
                | Some t \<Rightarrow>
                    (case split_engine_version ev of
                       (e, v) \<Rightarrow>
                         if e = [] then None
                         else Some \<lparr>si_filename = name, si_host_path = [], si_slug = slug, si_label = label, si_engine = e,
                           si_version = v, si_created = t, si_size = 0, si_compression = codec, si_has_checksum = False\<rparr>))
      | _ \<Rightarrow> None)"

definition parse_snapshot_name :: "string \<Rightarrow> snapshot_info option" where
  "parse_snapshot_name name =
     (if suffix ext_zstd name then parse_stem name ''zstd'' (take (length name - length ext_zstd) name)
      else if suffix ext_gzip name then parse_stem name ''gzip'' (take (length name - length ext_gzip) name)
      else None)"

section \<open>Dump and load\<close>

definition dump_tool :: "engine \<Rightarrow> string" where
  "dump_tool e = (case e of MySQL \<Rightarrow> ''mysqldump'' | MariaDB \<Rightarrow> ''mariadb-dump'')"

definition dump_command :: "engine \<Rightarrow> string list" where
  "dump_command e =
     [''sh'', ''-c'',
      (case e of MySQL \<Rightarrow> ''MYSQL_PWD=\"$MYSQL_ROOT_PASSWORD\" mysqldump -uroot ''
       | MariaDB \<Rightarrow> ''MYSQL_PWD=\"$MARIADB_ROOT_PASSWORD\" mariadb-dump -uroot '') @
      ''--single-transaction --quick --default-character-set=utf8mb4 '' @
      ''--add-drop-table --routines --triggers --events --hex-blob '' @ ''--no-tablespaces wordpress'']"

text \<open>The dump and the error, on every path; a write that fails while the tool runs is a failure of its execution.\<close>

definition engine_snapshot :: "'x snap_env \<Rightarrow> site \<Rightarrow> 'x host \<Rightarrow> (string \<times> go_error option) \<times> 'x host" where
  "engine_snapshot env s h =
     (let e = resolve_engine s
      in case sn_dump env (site_container_name (site_slug s) ''database'') (dump_command e) h of
           ((data, r), h) \<Rightarrow>
             ((data, case r of
                 Inl x \<Rightarrow> Some (dump_tool e @ '' exec: '' @ x)
               | Inr exit \<Rightarrow>
                   if exit \<noteq> 0 then Some (dump_tool e @ '' exited '' @ itoa exit)
                   else if data = [] then Some (dump_tool e @ '' produced no output'' @
                     (case e of MySQL \<Rightarrow> '' '' @ em_dash @ '' database empty or unreachable'' | MariaDB \<Rightarrow> []))
                   else None), h))"

definition load_command :: "engine \<Rightarrow> string list" where
  "load_command e =
     [''sh'', ''-c'',
      (case e of MySQL \<Rightarrow> ''MYSQL_PWD=\"$MYSQL_ROOT_PASSWORD\" mysql -uroot --default-character-set=utf8mb4 wordpress''
       | MariaDB \<Rightarrow> ''MYSQL_PWD=\"$MARIADB_ROOT_PASSWORD\" mariadb -uroot --default-character-set=utf8mb4 wordpress'')]"

definition engine_restore :: "'x snap_env \<Rightarrow> site \<Rightarrow> string \<times> go_error option \<Rightarrow> 'x host \<Rightarrow> go_error option \<times> 'x host" where
  "engine_restore env s r h =
     (let e = resolve_engine s
      in case sn_load env (site_container_name (site_slug s) ''database'') (load_command e) r h of
           (Inl x, h) \<Rightarrow> (Some (engine_kind e @ '' restore: '' @ x), h)
         | (Inr exit, h) \<Rightarrow> (if exit \<noteq> 0 then Some (engine_kind e @ '' restore exited '' @ itoa exit) else None, h))"

section \<open>The checksum beside the snapshot\<close>

definition sidecar :: "string \<Rightarrow> string" where "sidecar p = p @ ''.sha256''"

definition checksum_body :: "string \<Rightarrow> string \<Rightarrow> string" where
  "checksum_body p digest = digest @ ''  '' @ path_base p @ ''\<newline>''"

definition write_checksum :: "'x os \<Rightarrow> string \<Rightarrow> string \<Rightarrow> 'x host \<Rightarrow> go_error option \<times> 'x host" where
  "write_checksum fs p digest h =
     (case os_create_temp fs (path_dir p) ''.locorum-cs-'' ''.tmp'' h of
        (Inl e, h) \<Rightarrow> (Some (''create tmp: '' @ e), h)
      | (Inr tmp, h) \<Rightarrow>
          (case temp_stages fs tmp [([], os_write fs tmp (checksum_body p digest)), ([], os_call fs ''sync'' tmp),
               ([], os_call fs ''close'' tmp), ([], os_call fs ''chmod'' tmp)] h of
             (Some e, h) \<Rightarrow> (Some e, h)
           | (None, h) \<Rightarrow> os_rename fs tmp (sidecar p) h))"

datatype verify_error = NoSidecar | VerifyError go_error

definition verify_checksum :: "'x snap_env \<Rightarrow> string \<Rightarrow> 'x host \<Rightarrow> verify_error option" where
  "verify_checksum env p h =
     (case os_read_file (sn_os env) (sidecar p) h of
        Inl NotExist \<Rightarrow> Some NoSidecar
      | Inl (FileError e) \<Rightarrow> Some (VerifyError (''read sidecar: '' @ e))
      | Inr body \<Rightarrow>
          (let want = trim_space (takeWhile (\<lambda>c. c \<noteq> CHR '' '') body)
           in if length want \<noteq> 64 then Some (VerifyError ''malformed checksum sidecar'')
              else (case os_read_file (sn_os env) p h of
                      Inl NotExist \<Rightarrow> Some (VerifyError ''open snapshot: no such file or directory'')
                    | Inl (FileError e) \<Rightarrow> Some (VerifyError (''open snapshot: '' @ e))
                    | Inr b \<Rightarrow>
                        let have = sn_digest env b
                        in if have \<noteq> want
                           then Some (VerifyError (''checksum mismatch: expected '' @ want @ '', got '' @ have)) else None)))"

section \<open>Taking a snapshot\<close>

definition final_path :: "string \<Rightarrow> site \<Rightarrow> string \<Rightarrow> gtime \<Rightarrow> string" where
  "final_path dir s label t =
     path_join [dir, build_snapshot_name (site_slug s) label (engine_kind (resolve_engine s)) (site_db_version s) t default_codec]"

definition snapshot_stages :: "'x snap_env \<Rightarrow> string \<Rightarrow> string \<Rightarrow> string \<Rightarrow> 'x stage list" where
  "snapshot_stages env tmp final data =
     (let fs = sn_os env
      in [(''flush compressor: '', os_write fs tmp (sn_compress env default_codec data)), (''sync: '', os_call fs ''sync'' tmp),
          (''close tmp: '', os_call fs ''close'' tmp), (''chmod: '', os_call fs ''chmod'' tmp),
          (''rename: '', os_rename fs tmp final)])"

text \<open>The part between the hooks: the digest is that of the dump, the file holds the dump compressed.\<close>

definition take_snapshot :: "'x snap_env \<Rightarrow> site \<Rightarrow> string \<Rightarrow> 'x host \<Rightarrow> (go_error + string) \<times> 'x host" where
  "take_snapshot env s label h =
     (let fs = sn_os env
      in case snapshots_dir env h of
           Inl e \<Rightarrow> (Inl e, h)
         | Inr dir \<Rightarrow>
             (let final = final_path dir s label (sn_clock env h)
              in case os_create_temp fs dir ''.locorum-snap-'' ''.tmp'' h of
                   (Inl e, h) \<Rightarrow> (Inl (''create tmp: '' @ e), h)
                 | (Inr tmp, h) \<Rightarrow>
                     (case os_fail fs ''compressor'' tmp h of
                        Some e \<Rightarrow> (Inl (''compressor: '' @ e), snd (os_remove fs tmp h))
                      | None \<Rightarrow>
                          (case engine_snapshot env s h of
                             ((data, Some e), h) \<Rightarrow> (Inl (''engine snapshot: '' @ e), snd (os_remove fs tmp h))
                           | ((data, None), h) \<Rightarrow>
                               (case temp_stages fs tmp (snapshot_stages env tmp final data) h of
                                  (Some e, h) \<Rightarrow> (Inl e, h)
                                | (None, h) \<Rightarrow> (Inr final, snd (write_checksum fs final (sn_digest env data) h)))))))"

definition snapshot_locked :: "'x snap_env \<Rightarrow> site \<Rightarrow> string \<Rightarrow> 'x host manager \<Rightarrow> (go_error + string) \<times> 'x host manager" where
  "snapshot_locked env s label w =
     (case fire_hooks (sn_mgr env) ''pre-snapshot'' s w of
        (Some e, w) \<Rightarrow> (Inl e, w)
      | (None, w) \<Rightarrow>
          (case on_engine (take_snapshot env s label) w of
             (Inl e, w) \<Rightarrow> (Inl e, w)
           | (Inr p, w) \<Rightarrow> (Inr p, snd (fire_hooks (sn_mgr env) ''post-snapshot'' s w))))"

definition site_not_running :: go_error where "site_not_running = ''site is not running''"

definition site_snapshot :: "'x snap_env \<Rightarrow> string \<Rightarrow> string \<Rightarrow> 'x host manager \<Rightarrow> (go_error + string) \<times> 'x host manager" where
  "site_snapshot env sid label w =
     (case fetch (sn_mgr env) sid w of
        Inl e \<Rightarrow> (Inl e, w)
      | Inr None \<Rightarrow> (Inl (site_not_found sid), w)
      | Inr (Some s) \<Rightarrow>
          if \<not> site_started s then (Inl (site_not_running @ '': cannot snapshot''), w)
          else if \<not> label_ok label then (Inl (''invalid snapshot label '' @ quoted label @ '': must match ^[a-z0-9][a-z0-9_]{0,31}$''), w)
          else snapshot_locked env s label w)"

section \<open>Restoring\<close>

record restore_opts =
  ro_allow_mismatch :: bool
  ro_skip_checksum :: bool
  ro_skip_auto :: bool

definition name_mismatch :: "restore_opts \<Rightarrow> site \<Rightarrow> string \<Rightarrow> go_error option" where
  "name_mismatch opts s p =
     (case parse_snapshot_name (path_base p) of
        None \<Rightarrow> None
      | Some i \<Rightarrow>
          if ro_allow_mismatch opts then None
          else if si_engine i \<noteq> [] \<and> si_engine i \<noteq> site_db_engine s then Some (''snapshot engine '' @ si_engine i @
            '' does not match site engine '' @ site_db_engine s @ '' '' @ em_dash @ '' pass AllowEngineMismatch to override'')
          else if si_version i \<noteq> [] \<and> site_db_version s \<noteq> [] \<and> si_version i \<noteq> site_db_version s then
            Some (''snapshot version '' @ si_version i @ '' does not match site version '' @ site_db_version s @ '' '' @
              em_dash @ '' pass AllowEngineMismatch to override'')
          else None)"

definition decompress_reader :: "'x snap_env \<Rightarrow> string \<Rightarrow> string \<Rightarrow> go_error + (string \<times> go_error option)" where
  "decompress_reader env p body =
     (let lower = to_lower p
      in if suffix ext_zstd lower then (case sn_decompress env ''zstd'' body of Inl e \<Rightarrow> Inl (''zstd: '' @ e) | Inr r \<Rightarrow> Inr r)
         else if suffix ext_gzip lower then (case sn_decompress env ''gzip'' body of Inl e \<Rightarrow> Inl (''gzip: '' @ e) | Inr r \<Rightarrow> Inr r)
         else Inl ''unrecognised snapshot extension'')"

text \<open>The part after the safety snapshot.\<close>

definition load_snapshot :: "'x snap_env \<Rightarrow> site \<Rightarrow> string \<Rightarrow> restore_opts \<Rightarrow> 'x host \<Rightarrow> go_error option \<times> 'x host" where
  "load_snapshot env s p opts h =
     (case (if ro_skip_checksum opts then None else verify_checksum env p h) of
        Some (VerifyError e) \<Rightarrow> (Some (''checksum verify: '' @ e), h)
      | _ \<Rightarrow>
          (case os_read_file (sn_os env) p h of
             Inl NotExist \<Rightarrow> (Some ''open snapshot: no such file or directory'', h)
           | Inl (FileError e) \<Rightarrow> (Some (''open snapshot: '' @ e), h)
           | Inr body \<Rightarrow>
               (case decompress_reader env p body of
                  Inl e \<Rightarrow> (Some (''decompress: '' @ e), h)
                | Inr r \<Rightarrow>
                    (case engine_restore env s r h of
                       (Some e, h) \<Rightarrow> (Some (''engine restore: '' @ e), h)
                     | (None, h) \<Rightarrow> (None, h)))))"

definition restore_locked :: "'x snap_env \<Rightarrow> site \<Rightarrow> string \<Rightarrow> restore_opts \<Rightarrow> 'x host manager \<Rightarrow> go_error option \<times> 'x host manager" where
  "restore_locked env s p opts w =
     (let w = (if \<not> ro_skip_auto opts \<and> should_auto_snapshot env then snd (snapshot_locked env s ''pre_restore'' w) else w)
      in on_engine (load_snapshot env s p opts) w)"

definition restore_snapshot :: "'x snap_env \<Rightarrow> string \<Rightarrow> string \<Rightarrow> restore_opts \<Rightarrow> 'x host manager \<Rightarrow> go_error option \<times> 'x host manager" where
  "restore_snapshot env sid p opts w =
     (case fetch (sn_mgr env) sid w of
        Inl e \<Rightarrow> (Some e, w)
      | Inr None \<Rightarrow> (Some (site_not_found sid), w)
      | Inr (Some s) \<Rightarrow>
          if \<not> site_started s then (Some (site_not_running @ '': cannot restore snapshot''), w)
          else (case name_mismatch opts s p of Some e \<Rightarrow> (Some e, w) | None \<Rightarrow> restore_locked env s p opts w))"

section \<open>Listing and deleting\<close>

definition found_snapshot :: "'x snap_env \<Rightarrow> string \<Rightarrow> string \<Rightarrow> 'x host \<Rightarrow> string \<Rightarrow> snapshot_info option" where
  "found_snapshot env dir slug h name =
     (case ho_files h (path_join [dir, name]) of
        None \<Rightarrow> None
      | Some body \<Rightarrow>
          (case parse_snapshot_name name of
             None \<Rightarrow> None
           | Some i \<Rightarrow>
               if slug \<noteq> [] \<and> si_slug i \<noteq> slug then None
               else let p = path_join [dir, name]
                    in Some (i\<lparr>si_host_path := p,
                         si_size := (if os_fail (sn_os env) ''info'' p h = None then int (length body) else 0),
                         si_has_checksum := os_fail (sn_os env) ''stat'' (sidecar p) h = None \<and> ho_files h (sidecar p) \<noteq> None\<rparr>)))"

text \<open>\<^verbatim>\<open>sort.Slice\<close> is not stable: \<open>sn_tie\<close> decides between snapshots of the same second.\<close>

definition newest_snapshots :: "'x snap_env \<Rightarrow> snapshot_info list \<Rightarrow> snapshot_info list" where
  "newest_snapshots env = sort_key (\<lambda>i. (- si_created i, sn_tie env (si_filename i)))"

definition list_snapshots :: "'x snap_env \<Rightarrow> string \<Rightarrow> 'x host \<Rightarrow> go_error + snapshot_info list" where
  "list_snapshots env slug h =
     (case snapshots_dir env h of
        Inl e \<Rightarrow> Inl e
      | Inr dir \<Rightarrow>
          (case sn_entries env dir h of
             Inl e \<Rightarrow> Inl (''read snapshots: '' @ e)
           | Inr names \<Rightarrow> Inr (newest_snapshots env (List.map_filter (found_snapshot env dir slug h) names))))"

definition delete_snapshot :: "'x snap_env \<Rightarrow> string \<Rightarrow> 'x host \<Rightarrow> go_error option \<times> 'x host" where
  "delete_snapshot env p h =
     (case snapshots_dir env h of
        Inl e \<Rightarrow> (Some e, h)
      | Inr dir \<Rightarrow>
          (case os_fail (sn_os env) ''abs'' p h of
             Some e \<Rightarrow> (Some (''abs path: '' @ e), h)
           | None \<Rightarrow>
               (let q = path_abs (sn_cwd env) p
                in if \<not> prefix (dir @ ''/'') q
                   then (Some (''snapshot path '' @ quoted q @ '' is outside the snapshots dir''), h)
                   else (case os_remove (sn_os env) q h of
                           (Some (FileError e), h) \<Rightarrow> (Some (''remove snapshot: '' @ e), h)
                         | (_, h) \<Rightarrow> (None, snd (os_remove (sn_os env) (sidecar q) h))))))"

section \<open>Retention\<close>

record retention_policy =
  rp_max_per_site :: int
  rp_max_age :: duration

definition default_policy :: retention_policy where
  "default_policy = \<lparr>rp_max_per_site = 20, rp_max_age = 365 * 24 * hour\<rparr>"

definition policy_path :: "string \<Rightarrow> string" where "policy_path dir = path_join [dir, ''.policy.json'']"

definition load_retention_policy :: "'x snap_env \<Rightarrow> 'x host \<Rightarrow> retention_policy" where
  "load_retention_policy env h =
     (case snapshots_dir env h of
        Inl _ \<Rightarrow> default_policy
      | Inr dir \<Rightarrow>
          (case os_read_file (sn_os env) (policy_path dir) h of
             Inl _ \<Rightarrow> default_policy
           | Inr body \<Rightarrow>
               (case sn_policy env body of
                  None \<Rightarrow> default_policy
                | Some (n, a) \<Rightarrow> if n < 0 \<or> a < 0 then default_policy else \<lparr>rp_max_per_site = n, rp_max_age = a\<rparr>)))"

definition save_retention_policy :: "'x snap_env \<Rightarrow> retention_policy \<Rightarrow> 'x host \<Rightarrow> go_error option \<times> 'x host" where
  "save_retention_policy env p h =
     (let fs = sn_os env
      in case snapshots_dir env h of
           Inl e \<Rightarrow> (Some e, h)
         | Inr dir \<Rightarrow>
             (case os_create_temp fs dir ''.policy-'' ''.tmp'' h of
                (Inl e, h) \<Rightarrow> (Some e, h)
              | (Inr tmp, h) \<Rightarrow>
                  (case temp_stages fs tmp [([], os_write fs tmp (sn_policy_json env (rp_max_per_site p, rp_max_age p))),
                       ([], os_call fs ''close'' tmp)] h of
                     (Some e, h) \<Rightarrow> (Some e, h)
                   | (None, h) \<Rightarrow> os_rename fs tmp (policy_path dir) h)))"

definition dropped :: "retention_policy \<Rightarrow> gtime \<Rightarrow> nat \<Rightarrow> snapshot_info \<Rightarrow> bool" where
  "dropped p now i s \<longleftrightarrow>
     0 < rp_max_per_site p \<and> rp_max_per_site p \<le> int i \<or> 0 < rp_max_age p \<and> rp_max_age p < time_sub now (si_created s)"

fun sweep_group :: "'x snap_env \<Rightarrow> retention_policy \<Rightarrow> gtime \<Rightarrow> nat \<Rightarrow> snapshot_info list \<Rightarrow> int \<times> 'x host \<Rightarrow> int \<times> 'x host" where
  "sweep_group env p now i [] nh = nh"
| "sweep_group env p now i (s # ss) (n, h) =
     (if \<not> dropped p now i s then sweep_group env p now (Suc i) ss (n, h)
      else (case delete_snapshot env (si_host_path s) h of
              (Some _, h) \<Rightarrow> sweep_group env p now (Suc i) ss (n, h)
            | (None, h) \<Rightarrow> sweep_group env p now (Suc i) ss (n + 1, h)))"

text \<open>The groups are visited in the order of a map iteration.\<close>

definition sweep_snapshots :: "'x snap_env \<Rightarrow> retention_policy \<Rightarrow> 'x host \<Rightarrow> (go_error + int) \<times> 'x host" where
  "sweep_snapshots env p h =
     (if rp_max_per_site p = 0 \<and> rp_max_age p = 0 then (Inr 0, h)
      else case list_snapshots env [] h of
             Inl e \<Rightarrow> (Inl e, h)
           | Inr all \<Rightarrow>
               (let now = sn_clock env h
                in case fold (\<lambda>slug. sweep_group env p now 0 (filter (\<lambda>i. si_slug i = slug) all))
                     (sn_iter env (set (map si_slug all))) (0, h) of
                   (n, h) \<Rightarrow> (Inr n, h)))"

end
