(* ===== verification/Snapshot_Claims.thy ===== *)
theory Snapshot_Claims
  imports Snapshots Lifecycle_Claims
begin

text \<open>
  What the snapshot code keeps to: names are read back as they were made, deleting never leaves the directory of the
  snapshots, a snapshot is there as a whole or not at all, and, as the code stands, the checksum beside it refuses it.
\<close>

section \<open>Names\<close>

lemma split_dashes_nonempty [simp]: "split_dashes s \<noteq> []"
  by (induction s rule: split_dashes.induct) (auto split: list.splits)

text \<open>No \<^verbatim>\<open>--\<close> inside and no dash at the end.\<close>

definition unsplit :: "string \<Rightarrow> bool" where
  "unsplit s \<longleftrightarrow> split_dashes s = [s] \<and> (s = [] \<or> last s \<noteq> CHR ''-'')"

lemma split_unsplit: "unsplit p \<Longrightarrow> split_dashes (p @ ''--'' @ s) = p # split_dashes s"
proof (induction p rule: split_dashes.induct)
  case (2 a)
  then show ?case by (simp add: unsplit_def)
next
  case (3 a b p)
  have nd: "\<not> (a = CHR ''-'' \<and> b = CHR ''-'')"
  proof
    assume "a = CHR ''-'' \<and> b = CHR ''-''"
    then have "split_dashes (a # b # p) = [] # split_dashes p" by simp
    moreover have "split_dashes (a # b # p) = [a # b # p]" using 3(3) unfolding unsplit_def by blast
    ultimately show False by (metis list.distinct(1) list.inject)
  qed
  have "split_dashes (b # p) = [b # p]" using 3(3) nd by (auto simp: unsplit_def split: list.splits)
  then have "unsplit (b # p)" using 3(3) by (simp add: unsplit_def)
  from 3(2) [OF nd this] nd show ?case by simp
qed simp

lemma no_dash_unsplit: "CHR ''-'' \<notin> set s \<Longrightarrow> unsplit s"
proof -
  assume "CHR ''-'' \<notin> set s"
  moreover have "CHR ''-'' \<notin> set s \<Longrightarrow> split_dashes s = [s]" by (induction s rule: split_dashes.induct) auto
  ultimately show ?thesis using last_in_set [of s] unfolding unsplit_def by metis
qed

lemma label_no_dash: "label_ok l \<Longrightarrow> CHR ''-'' \<notin> set l"
  by (auto simp: label_ok_def list_all_iff word_char_def is_lower_def is_digit_def)

lemma pad_no_dash: "CHR ''-'' \<notin> set (pad_digits w n)"
  using nat_digits_props [of n] by (auto simp: pad_digits_def Let_def list_all_iff is_digit_def)

lemma stamp_no_dash: "0 \<le> fst (date_of_days (t div second div 86400 + 719162)) \<Longrightarrow> CHR ''-'' \<notin> set (compact_stamp t)"
  using pad_no_dash by (simp add: compact_stamp_def Let_def year_digits_def split_beta)

lemma kind_split:
  "split_engine_version (engine_kind e @ ''-'' @ v) = (engine_kind e, v)"
  "filter word_char (to_lower (engine_kind e)) = engine_kind e" "engine_kind e \<noteq> []"
proof -
  show "split_engine_version (engine_kind e @ ''-'' @ v) = (engine_kind e, v)"
    by (cases e) (simp_all add: engine_kind_def split_engine_version_def Let_def all_lower_alpha_def is_lower_def)
  show "filter word_char (to_lower (engine_kind e)) = engine_kind e"
  proof (cases e)
    case MySQL
    have "filter word_char (to_lower ''mysql'') = ''mysql''" by code_simp
    then show ?thesis using MySQL by (simp add: engine_kind_def)
  next
    case MariaDB
    have "filter word_char (to_lower ''mariadb'') = ''mariadb''" by code_simp
    then show ?thesis using MariaDB by (simp add: engine_kind_def)
  qed
  show "engine_kind e \<noteq> []" by (cases e) (simp_all add: engine_kind_def)
qed

lemma kind_version_unsplit: "split_dashes (''-'' @ v) = [''-'' @ v] \<Longrightarrow> split_dashes (engine_kind e @ ''-'' @ v) = [engine_kind e @ ''-'' @ v]"
  by (cases e) (simp_all add: engine_kind_def)

lemma parse_built:
  assumes "slug \<noteq> []" "unsplit slug" "label_ok label" "0 \<le> y" "y < 10000"
    and "date_of_days (t div second div 86400 + 719162) = (y, m, d)"
    and "v \<noteq> []" "list_all tag_char v" "split_dashes (''-'' @ v) = [''-'' @ v]"
  shows "parse_stem name codec (join snapshot_sep [slug, label, compact_stamp t, engine_kind e @ ''-'' @ v]) =
    Some \<lparr>si_filename = name, si_host_path = [], si_slug = slug, si_label = label, si_engine = engine_kind e, si_version = v,
      si_created = t div second * second, si_size = 0, si_compression = codec, si_has_checksum = False\<rparr>"
proof -
  have l: "unsplit label" by (rule no_dash_unsplit [OF label_no_dash [OF assms(3)]])
  have s: "unsplit (compact_stamp t)" by (rule no_dash_unsplit, rule stamp_no_dash) (simp add: assms(4,6))
  have "split_dashes (slug @ ''--'' @ label @ ''--'' @ compact_stamp t @ ''--'' @ engine_kind e @ ''-'' @ v) =
      [slug, label, compact_stamp t, engine_kind e @ ''-'' @ v]"
    unfolding split_unsplit [OF assms(2)] split_unsplit [OF l] split_unsplit [OF s] kind_version_unsplit [OF assms(9)] by simp
  moreover have "label \<noteq> []" using assms(3) by (simp add: label_ok_def)
  ultimately show ?thesis
    using assms(1) parse_compact_stamp [OF assms(6,4,5)] kind_split(1,3)
    by (simp add: parse_stem_def snapshot_sep_def)
qed

text \<open>
  C34. The name of a snapshot reads back: slug, label, second, engine and version come out as they went in, when the slug has no
  double dash and no dash at its end, the label passes the check, the year has four digits and the version is made of the
  characters a name may have, without a double dash or a dash in front.
\<close>

theorem snapshot_name_reads_back:
  assumes "slug \<noteq> []" "unsplit slug" "label_ok label" "0 \<le> y" "y < 10000"
    and "date_of_days (t div second div 86400 + 719162) = (y, m, d)"
    and "v \<noteq> []" "list_all tag_char v" "split_dashes (''-'' @ v) = [''-'' @ v]" "codec = ''gzip'' \<or> codec = ''zstd''"
  shows "parse_snapshot_name (build_snapshot_name slug label (engine_kind e) v t codec) =
    Some \<lparr>si_filename = build_snapshot_name slug label (engine_kind e) v t codec, si_host_path = [], si_slug = slug,
      si_label = label, si_engine = engine_kind e, si_version = v, si_created = t div second * second, si_size = 0,
      si_compression = codec, si_has_checksum = False\<rparr>"
proof -
  let ?stem = "join snapshot_sep [slug, label, compact_stamp t, engine_kind e @ ''-'' @ v]"
  have v: "filter tag_char v = v" using assms(8) by (simp add: list_all_iff)
  have b: "build_snapshot_name slug label (engine_kind e) v t codec = ?stem @ (if codec = ''gzip'' then ext_gzip else ext_zstd)"
    using assms(7) kind_split(2,3) [of e] v by (simp add: build_snapshot_name_def Let_def)
  have s: "suffix ext_gzip (?stem @ ext_gzip)" "suffix ext_zstd (?stem @ ext_zstd)" by (simp_all add: suffix_def del: join.simps)
  have g: "\<not> suffix ext_zstd (x @ ext_gzip)" for x
    by (simp add: ext_zstd_def ext_gzip_def suffix_to_prefix prefix_def)
  have l: "take (length (x @ y) - length y) (x @ y) = x" for x y :: string by simp
  show ?thesis
    using assms(10) parse_built [OF assms(1-9), of _ _ e] g s l unfolding b
    by (auto simp: parse_snapshot_name_def simp del: join.simps append_assoc)
qed

lemma sample_date: "date_of_days (1777248000 * second div second div 86400 + 719162) = (2026, 4, 27)"
  by (simp add: second_def date_of_days_def year_day_def month_day_def leap_year_def days_before_def)

lemma sample_stamp: "compact_stamp (1777248000 * second) = ''20260427T000000Z''"
proof -
  have d: "date_of_days (1777248000 * second div second div 86400 + 719162) = (2026, 4, 27)" by (rule sample_date)
  have c: "digit_char 0 = CHR ''0''" "digit_char 2 = CHR ''2''" "digit_char 4 = CHR ''4''" "digit_char 6 = CHR ''6''" "digit_char 7 = CHR ''7''"
    by code_simp+
  have p: "year_digits 2026 = ''2026''" "pad_digits 2 4 = ''04''" "pad_digits 2 27 = ''27''" "pad_digits 2 0 = ''00''"
    by (simp_all add: year_digits_def pad_digits_def nat_digits.simps c)
  show ?thesis unfolding compact_stamp_def Let_def d by (simp add: p second_def)
qed

lemma snapshot_name_reads_back_witness:
  "parse_snapshot_name ''my-store--pre_delete--20260427T000000Z--mysql-8.4.sql.zst'' =
     Some \<lparr>si_filename = ''my-store--pre_delete--20260427T000000Z--mysql-8.4.sql.zst'', si_host_path = [], si_slug = ''my-store'',
       si_label = ''pre_delete'', si_engine = ''mysql'', si_version = ''8.4'', si_created = 1777248000 * second, si_size = 0,
       si_compression = ''zstd'', si_has_checksum = False\<rparr>"
proof -
  have e: "filter word_char (to_lower (engine_kind MySQL)) = engine_kind MySQL" by (rule kind_split)
  have g: "list_all tag_char ''8.4''" by code_simp
  have n: "build_snapshot_name ''my-store'' ''pre_delete'' (engine_kind MySQL) ''8.4'' (1777248000 * second) ''zstd'' =
      ''my-store--pre_delete--20260427T000000Z--mysql-8.4.sql.zst''"
    unfolding build_snapshot_name_def e using g by (simp add: sample_stamp snapshot_sep_def ext_zstd_def engine_kind_def)
  have u: "unsplit ''my-store''" by code_simp
  have o: "label_ok ''pre_delete''" "list_all tag_char ''8.4''" "split_dashes (''-'' @ ''8.4'') = [''-'' @ ''8.4'']" by code_simp+
  have t: "1777248000 * second div second = 1777248000" by (simp add: second_def)
  show ?thesis
    using snapshot_name_reads_back [OF _ u o(1) _ _ sample_date _ o(2,3), of "''zstd''" MySQL] unfolding n t
    by (simp add: engine_kind_def)
qed

section \<open>Deleting\<close>

lemma remove_only: "ho_files (snd (os_remove fs p h)) q \<noteq> ho_files h q \<Longrightarrow> q = p"
  by (auto simp: os_remove_def split: option.splits if_splits)

lemma delete_removes_at:
  assumes "ho_files (snd (delete_snapshot env p h)) q \<noteq> ho_files h q"
  shows "prefix (snapshots_path env @ ''/'') (path_abs (sn_cwd env) p) \<and>
    (q = path_abs (sn_cwd env) p \<or> q = sidecar (path_abs (sn_cwd env) p))"
proof -
  let ?r = "path_abs (sn_cwd env) p"
  obtain x h1 where r: "os_remove (sn_os env) ?r h = (x, h1)" by (metis surj_pair)
  have f: "q \<noteq> ?r \<Longrightarrow> ho_files h1 q = ho_files h q"
      "q \<noteq> sidecar ?r \<Longrightarrow> ho_files (snd (os_remove (sn_os env) (sidecar ?r) h1)) q = ho_files h1 q"
    using remove_only [of "sn_os env" ?r h q] r remove_only [of "sn_os env" "sidecar ?r" h1 q] by auto
  show ?thesis
    using assms f by (cases "q = ?r \<or> q = sidecar ?r")
      (auto simp: delete_snapshot_def snapshots_dir_def r Let_def split: option.splits if_splits file_error.splits)
qed

text \<open>Cleaning a rooted path leaves no element that goes up.\<close>

lemma clean_rooted: "set acc \<inter> {[], ''..''} = {} \<Longrightarrow> set (clean_elements True acc xs) \<inter> {[], ''..''} = {}"
proof (induction True acc xs rule: clean_elements.induct)
  case (2 acc x xs)
  then show ?case by (auto split: list.splits)
qed simp

lemma clean_elements_sub: "set (clean_elements root acc xs) \<subseteq> set acc \<union> set xs \<union> {''..''}"
  by (induction root acc xs rule: clean_elements.induct) (auto split: list.splits)

lemma split_on_set: "x \<in> set (split_on c s) \<Longrightarrow> c \<notin> set x"
  by (induction s arbitrary: x) (auto split: list.splits if_splits)

lemma split_on_join:
  "es \<noteq> [] \<Longrightarrow> (\<forall>e\<in>set es. CHR ''/'' \<notin> set e) \<Longrightarrow> split_on CHR ''/'' (join ''/'' es) = es"
proof (induction "''/''" es rule: join.induct)
  case (3 e f es)
  then show ?case using split_on_append [of "CHR ''/''" e] by simp
qed (simp_all add: split_on_free)

lemma abs_elements:
  assumes "rooted cwd"
  shows "rooted (path_abs cwd p) \<and> ''..'' \<notin> set (split_on CHR ''/'' (path_abs cwd p))"
proof -
  have c: "rooted (path_clean q) \<and> ''..'' \<notin> set (split_on CHR ''/'' (path_clean q))" if "rooted q" for q
  proof -
    let ?es = "clean_elements True [] (split_on CHR ''/'' q)"
    have e: "path_clean q = CHR ''/'' # join ''/'' ?es" using that by (simp add: path_clean_def)
    have n: "''..'' \<notin> set ?es" using clean_rooted [of "[]"] by auto
    have s: "\<forall>x\<in>set ?es. CHR ''/'' \<notin> set x"
      using clean_elements_sub [of True "[]" "split_on CHR ''/'' q"] split_on_set [of _ "CHR ''/''" q] by fastforce
    show ?thesis
    proof (cases "?es = []")
      case False
      then show ?thesis using split_on_join [OF False s] n unfolding e by (simp add: rooted_def is_slash_def)
    qed (simp add: e rooted_def is_slash_def)
  qed
  have "cwd \<noteq> []" using assms by (auto simp: rooted_def)
  then have "path_join [cwd, p] = path_clean (join ''/'' (filter (\<lambda>x. x \<noteq> []) [cwd, p]))" "rooted (join ''/'' (filter (\<lambda>x. x \<noteq> []) [cwd, p]))"
    using assms by (auto simp: path_join_def rooted_def)
  then show ?thesis using c unfolding path_abs_def by (auto simp del: join.simps)
qed

text \<open>
  C15. Deleting a snapshot changes nothing outside the directory of the snapshots, whatever path it is given: a file that is gone
  afterwards has a path below that directory without an element that goes up, and is the one asked for or its sidecar.
\<close>

theorem deletion_stays_in_the_directory:
  assumes "rooted (sn_cwd env)" "ho_files (snd (delete_snapshot env p h)) q \<noteq> ho_files h q"
  shows "prefix (snapshots_path env @ ''/'') q \<and> ''..'' \<notin> set (split_on CHR ''/'' (path_abs (sn_cwd env) p)) \<and>
    (q = path_abs (sn_cwd env) p \<or> q = sidecar (path_abs (sn_cwd env) p))"
  using delete_removes_at [OF assms(2)] abs_elements [OF assms(1), of p] by (auto simp: sidecar_def prefix_def)

section \<open>Taking\<close>

text \<open>Existing files other than \<open>p\<close> stay; \<open>p\<close> gets the new content exactly when the write succeeded.\<close>

lemma overwrites_trans:
  assumes "overwrites p a ok u v" "overwrites q b ok' v w" "ok" "q \<noteq> p"
  shows "ho_files w p = Some a \<and> ho_files w q = (if ok' then Some b else ho_files v q) \<and>
    (\<forall>x c. x \<noteq> p \<and> x \<noteq> q \<and> ho_files u x = Some c \<longrightarrow> ho_files w x = Some c)"
proof -
  have "ho_files v p = Some a" using assms(1,3) by (simp add: overwrites_def)
  then have "ho_files w p = Some a" using assms(2,4) by (auto simp: overwrites_def)
  with assms(1,2) show ?thesis by (simp add: overwrites_def)
qed

lemma snapshots_path_nonempty: "snapshots_path env \<noteq> []"
  by (simp add: snapshots_path_def path_join_def path_clean_nonempty)

lemma temp_last:
  assumes "d \<noteq> []" "CHR ''/'' \<notin> set pre" "pre \<noteq> []"
  shows "last (temp_name d pre ''.tmp'' n) = CHR ''p''"
proof -
  let ?x = "pre @ nat_digits n @ ''.tmp''"
  have x: "CHR ''/'' \<notin> set ?x" using assms(2) digits_no_slash by simp
  have ne: "?x \<noteq> []" "?x \<noteq> ''.''" "?x \<noteq> ''..''" using assms(3) by (cases pre; simp)+
  obtain u where "path_join [d, ?x] = u @ ?x" using path_join_file [OF assms(1) x ne] .
  then show ?thesis by (simp add: temp_name_def)
qed

lemma write_checksum_overwrites:
  assumes "write_checksum fs p digest h = (e, h')"
  shows "overwrites (sidecar p) (checksum_body p digest) (e = None) h h'"
proof -
  let ?tmp = "temp_name (path_dir p) ''.locorum-cs-'' ''.tmp'' (os_rand fs h)"
  have "last ?tmp = CHR ''p''" by (rule temp_last) (simp_all add: path_dir_def path_clean_nonempty)
  then have ne: "?tmp \<noteq> sidecar p" by (auto simp: sidecar_def)
  show ?thesis
  proof (cases "os_fail fs ''create'' ?tmp h = None \<and> ho_files h ?tmp = None")
    case True
    then show ?thesis
      using assms ne by (auto simp: write_checksum_def os_create_temp_def Let_def os_defs overwrites_def split: option.splits if_splits)
  next
    case False
    then show ?thesis
      using assms by (auto simp: write_checksum_def os_create_temp_def Let_def overwrites_def split: option.splits if_splits)
  qed
qed

definition dump_keeps_files :: "'x snap_env \<Rightarrow> bool" where
  "dump_keeps_files env \<longleftrightarrow> (\<forall>c cmd h. ho_files (snd (sn_dump env c cmd h)) = ho_files h)"

text \<open>The dump a snapshot took, with the state it was taken in.\<close>

definition dumped :: "'x snap_env \<Rightarrow> site \<Rightarrow> string \<Rightarrow> bool" where
  "dumped env s data \<longleftrightarrow> data \<noteq> [] \<and>
     (\<exists>h. fst (sn_dump env (site_container_name (site_slug s) ''database'') (dump_command (resolve_engine s)) h) = (data, Inr 0))"

lemma engine_snapshot_dumped:
  assumes "engine_snapshot env s h = ((data, None), h')"
  shows "dumped env s data"
proof -
  obtain d r h2 where q: "sn_dump env (site_container_name (site_slug s) ''database'') (dump_command (resolve_engine s)) h = ((d, r), h2)"
    by (metis surj_pair)
  then have "d = data \<and> data \<noteq> [] \<and> r = Inr 0" using assms by (auto simp: engine_snapshot_def Let_def split: sum.splits if_splits)
  with q show ?thesis unfolding dumped_def by (metis fst_conv)
qed

lemma engine_snapshot_files:
  assumes "dump_keeps_files env" "engine_snapshot env s h = (r, h')"
  shows "ho_files h' = ho_files h"
proof -
  obtain d x h2 where q: "sn_dump env (site_container_name (site_slug s) ''database'') (dump_command (resolve_engine s)) h = ((d, x), h2)"
    by (metis surj_pair)
  then have "h' = h2" using assms(2) by (simp add: engine_snapshot_def Let_def)
  moreover have "ho_files h2 = ho_files h" using assms(1) q unfolding dump_keeps_files_def by (metis snd_conv)
  ultimately show ?thesis by simp
qed

lemma name_ends: "\<exists>stem. build_snapshot_name slug label e v t default_codec = stem @ ext_zstd"
  by (simp add: build_snapshot_name_def Let_def default_codec_def)

lemma name_no_slash:
  assumes "CHR ''/'' \<notin> set slug" "CHR ''/'' \<notin> set label"
  shows "CHR ''/'' \<notin> set (build_snapshot_name slug label e v t default_codec)"
proof -
  have p: "CHR ''/'' \<notin> set (pad_digits w n)" for w n
    using nat_digits_props [of n] by (auto simp: pad_digits_def Let_def list_all_iff is_digit_def)
  then have "CHR ''/'' \<notin> set (compact_stamp t)"
    by (simp add: compact_stamp_def Let_def year_digits_def split_beta)
  then show ?thesis
    using assms by (auto simp: build_snapshot_name_def Let_def default_codec_def ext_zstd_def snapshot_sep_def
        word_char_def tag_char_def byte_defs)
qed

lemma final_path_shape:
  assumes "CHR ''/'' \<notin> set (site_slug s)" "CHR ''/'' \<notin> set label"
  obtains u where "final_path (snapshots_path env) s label c = u @ build_snapshot_name (site_slug s) label (engine_kind (resolve_engine s))
     (site_db_version s) c default_codec" "u = [] \<or> last u = CHR ''/''"
proof -
  let ?n = "build_snapshot_name (site_slug s) label (engine_kind (resolve_engine s)) (site_db_version s) c default_codec"
  obtain stem where st: "?n = stem @ ext_zstd" using name_ends by blast
  have ne: "?n \<noteq> []" "?n \<noteq> ''.''" "?n \<noteq> ''..''"
    unfolding st by (auto simp: ext_zstd_def dest: arg_cong [of _ _ last])
  show thesis using path_join_file [OF snapshots_path_nonempty name_no_slash [OF assms] ne, of env] that
    unfolding final_path_def by blast
qed

lemma snapshot_stages_run:
  assumes "tmp \<noteq> p" "temp_stages (sn_os env) tmp (snapshot_stages env tmp p data) h = (e, h')"
  shows "(\<forall>q. q \<noteq> tmp \<and> q \<noteq> p \<longrightarrow> ho_files h' q = ho_files h q) \<and>
    ho_files h' p = (if e = None then Some (sn_compress env default_codec data) else ho_files h p)"
  using assms by (auto simp: snapshot_stages_def Let_def os_defs split: option.splits if_splits)

lemma take_snapshot_effect:
  assumes k: "dump_keeps_files env" and sl: "CHR ''/'' \<notin> set (site_slug s)" "CHR ''/'' \<notin> set label"
    and t: "take_snapshot env s label h = (r, h')"
  shows "case r of
      Inl e \<Rightarrow> \<forall>q b. ho_files h q = Some b \<longrightarrow> ho_files h' q = Some b
    | Inr p \<Rightarrow> p = final_path (snapshots_path env) s label (sn_clock env h) \<and> (\<exists>data. dumped env s data \<and> ho_files h' p = Some (sn_compress env default_codec data) \<and>
        (ho_files h' (sidecar p) = Some (checksum_body p (sn_digest env data)) \<or> ho_files h' (sidecar p) = ho_files h (sidecar p)) \<and>
        (\<forall>q b. q \<noteq> p \<and> q \<noteq> sidecar p \<and> ho_files h q = Some b \<longrightarrow> ho_files h' q = Some b))"
proof -
  let ?fs = "sn_os env" and ?p = "final_path (snapshots_path env) s label (sn_clock env h)"
  let ?tmp = "temp_name (snapshots_path env) ''.locorum-snap-'' ''.tmp'' (os_rand ?fs h)"
  obtain u where u: "?p = u @ build_snapshot_name (site_slug s) label (engine_kind (resolve_engine s)) (site_db_version s)
      (sn_clock env h) default_codec" using final_path_shape [OF sl] .
  obtain stem where stem: "build_snapshot_name (site_slug s) label (engine_kind (resolve_engine s)) (site_db_version s)
      (sn_clock env h) default_codec = stem @ ext_zstd" using name_ends by blast
  have l: "last ?p = CHR ''t''" unfolding u stem by (simp add: ext_zstd_def)
  moreover have "last ?tmp = CHR ''p''" by (rule temp_last) (simp_all add: snapshots_path_nonempty)
  ultimately have ne: "?tmp \<noteq> ?p" by auto
  have ns: "sidecar ?p \<noteq> ?p" by (simp add: sidecar_def)
  show ?thesis
  proof (cases "os_fail ?fs ''mkdir'' (snapshots_path env) h = None \<and> os_fail ?fs ''create'' ?tmp h = None \<and> ho_files h ?tmp = None")
    case False
    then have "r \<in> range Inl \<and> h' = h"
      using t by (auto simp: take_snapshot_def Let_def snapshots_dir_def os_create_temp_def split: option.splits if_splits)
    then show ?thesis by auto
  next
    case True
    let ?h1 = "put_file ?tmp [] h"
    have old: "q \<noteq> ?tmp" if "ho_files h q = Some b" for q b using that True by auto
    obtain data x h2 where sn: "engine_snapshot env s ?h1 = ((data, x), h2)" by (metis surj_pair)
    have f2: "ho_files h2 = ho_files ?h1" by (rule engine_snapshot_files [OF k sn])
    obtain e h3 where st: "temp_stages ?fs ?tmp (snapshot_stages env ?tmp ?p data) h2 = (e, h3)" by (metis surj_pair)
    have f3: "(\<forall>q. q \<noteq> ?tmp \<and> q \<noteq> ?p \<longrightarrow> ho_files h3 q = ho_files h2 q) \<and>
        ho_files h3 ?p = (if e = None then Some (sn_compress env default_codec data) else ho_files h2 ?p)"
      by (rule snapshot_stages_run [OF ne st])
    have run: "(r, h') = (case os_fail ?fs ''compressor'' ?tmp ?h1 of
          Some e \<Rightarrow> (Inl (''compressor: '' @ e), snd (os_remove ?fs ?tmp ?h1))
        | None \<Rightarrow> (case x of Some e \<Rightarrow> (Inl (''engine snapshot: '' @ e), snd (os_remove ?fs ?tmp h2))
           | None \<Rightarrow> (case e of Some e \<Rightarrow> (Inl e, h3) | None \<Rightarrow> (Inr ?p, snd (write_checksum ?fs ?p (sn_digest env data) h3)))))"
      using t True st sn unfolding take_snapshot_def Let_def snapshots_dir_def os_create_temp_def
      by (auto split: option.splits)
    have rm: "ho_files (snd (os_remove ?fs ?tmp w)) q = ho_files w q" if "q \<noteq> ?tmp" for w :: "'a host" and q
      using that remove_only by metis
    show ?thesis
    proof (cases r)
      case (Inl a)
      then have "ho_files h' q = Some b" if "ho_files h q = Some b" for q b
        using run that old [OF that] rm f2 f3 by (auto split: option.splits)
      then show ?thesis using Inl by simp
    next
      case (Inr p)
      then have ok: "x = None" "e = None" "p = ?p" "h' = snd (write_checksum ?fs ?p (sn_digest env data) h3)"
        using run by (auto split: option.splits)
      obtain c where "write_checksum ?fs ?p (sn_digest env data) h3 = (c, h')" using ok(4) by (metis prod.collapse)
      from write_checksum_overwrites [OF this]
      have w: "overwrites (sidecar ?p) (checksum_body ?p (sn_digest env data)) (c = None) h3 h'" .
      have "ho_files h' ?p = Some (sn_compress env default_codec data)" using w f3 ok(2) ns by (auto simp: overwrites_def)
      moreover have "ho_files h' (sidecar ?p) = Some (checksum_body ?p (sn_digest env data)) \<or> ho_files h' (sidecar ?p) = ho_files h (sidecar ?p)"
      proof -
        have "last ?tmp = CHR ''p''" by (rule temp_last) (simp_all add: snapshots_path_nonempty)
        moreover have "last (sidecar ?p) = CHR ''6''" by (simp add: sidecar_def)
        ultimately have "last (sidecar ?p) \<noteq> last ?tmp" by simp
        then have "sidecar ?p \<noteq> ?tmp" by metis
        then have "ho_files h3 (sidecar ?p) = ho_files h (sidecar ?p)" using f3 f2 ns by simp
        then show ?thesis using w by (auto simp: overwrites_def)
      qed
      moreover have "ho_files h' q = Some b" if "q \<noteq> ?p" "q \<noteq> sidecar ?p" "ho_files h q = Some b" for q b
      proof -
        have "ho_files h3 q = Some b" using f3 f2 that old [OF that(3)] by simp
        then show ?thesis using w that(2) by (simp add: overwrites_def)
      qed
      moreover have "dumped env s data" by (rule engine_snapshot_dumped) (use sn ok(1) in simp)
      ultimately show ?thesis using Inr ok(3) by auto
    qed
  qed
qed

section \<open>Surroundings to try it in\<close>

definition still_runtime :: "'e runtime" where
  "still_runtime = \<lparr>rt_ensure = (\<lambda>c sp w. (Inr [], w)), rt_start = (\<lambda>c n. no_effect), rt_stop = (\<lambda>c n t. no_effect),
     rt_remove = (\<lambda>c n. no_effect), rt_pull = (\<lambda>c n. no_effect), rt_wait_ready = (\<lambda>c n t. no_effect)\<rparr>"

text \<open>A dump that prints three bytes, a compressor that puts one in front and a digest that sees the parity of the length.\<close>

definition sample_snap_env :: "unit snap_env" where
  "sample_snap_env =
     \<lparr>sn_mgr = idle_env (idle_services still_runtime None), sn_os = \<lparr>os_fail = (\<lambda>op p h. None), os_torn = (\<lambda>p h. []), os_rand = (\<lambda>h. 7)\<rparr>,
      sn_clock = (\<lambda>h. 1777248000 * second), sn_dump = (\<lambda>c cmd h. ((''sql'', Inr 0), h)), sn_load = (\<lambda>c cmd r h. (Inr 0, h)),
      sn_compress = (\<lambda>c d. ''z'' @ d), sn_decompress = (\<lambda>c b. Inr (tl b, None)),
      sn_digest = (\<lambda>b. replicate 64 (if even (length b) then CHR ''0'' else CHR ''1'')), sn_cwd = ''/'',
      sn_entries = (\<lambda>d h. Inr []), sn_tie = (\<lambda>n. 0), sn_iter = (\<lambda>V. []), sn_policy = (\<lambda>t. None), sn_policy_json = (\<lambda>p. [])\<rparr>"

definition no_files :: "unit host" where "no_files = \<lparr>ho_files = Map.empty, ho_rest = ()\<rparr>"

definition started_site :: site where "started_site = sample_site\<lparr>site_started := True\<rparr>"

lemma started_slug: "CHR ''/'' \<notin> set (site_slug started_site)" by (simp add: started_site_def sample_site_def)

text \<open>Where no call on a file fails and the dump succeeds, a snapshot is taken with its sidecar.\<close>

definition smooth :: "'x snap_env \<Rightarrow> bool" where
  "smooth env \<longleftrightarrow> (\<forall>op p h. os_fail (sn_os env) op p h = None)"

lemma smooth_stages:
  assumes "smooth env" "tmp \<noteq> p"
  shows "temp_stages (sn_os env) tmp (snapshot_stages env tmp p data) h =
    (None, put_file p (sn_compress env default_codec data) (drop_file tmp (put_file tmp (sn_compress env default_codec data) h)))"
  using assms by (simp add: smooth_def snapshot_stages_def Let_def os_defs)

lemma smooth_checksum:
  assumes "smooth env" "ho_files h (temp_name (path_dir p) ''.locorum-cs-'' ''.tmp'' (os_rand (sn_os env) h)) = None"
  shows "ho_files (snd (write_checksum (sn_os env) p digest h)) (sidecar p) = Some (checksum_body p digest)"
proof -
  let ?fs = "sn_os env"
  let ?tmp = "temp_name (path_dir p) ''.locorum-cs-'' ''.tmp'' (os_rand ?fs h)"
  have "os_create_temp ?fs (path_dir p) ''.locorum-cs-'' ''.tmp'' h = (Inr ?tmp, put_file ?tmp [] h)"
    using assms by (simp add: os_create_temp_def Let_def smooth_def)
  moreover have "temp_stages ?fs ?tmp [([], os_write ?fs ?tmp (checksum_body p digest)), ([], os_call ?fs ''sync'' ?tmp),
      ([], os_call ?fs ''close'' ?tmp), ([], os_call ?fs ''chmod'' ?tmp)] (put_file ?tmp [] h) =
      (None, put_file ?tmp (checksum_body p digest) (put_file ?tmp [] h))"
    using assms(1) by (simp add: smooth_def os_defs)
  ultimately show ?thesis using assms(1) by (simp add: write_checksum_def os_rename_def smooth_def)
qed

lemma smooth_take:
  assumes e: "smooth env" "\<And>x. engine_snapshot env s x = ((data, None), x)" "ho_files h = Map.empty"
    and s: "CHR ''/'' \<notin> set (site_slug s)" "CHR ''/'' \<notin> set label"
  defines "p \<equiv> final_path (snapshots_path env) s label (sn_clock env h)"
  obtains h' where "take_snapshot env s label h = (Inr p, h')" "ho_files h' (sidecar p) \<noteq> None"
proof -
  let ?fs = "sn_os env" and ?d = "snapshots_path env"
  let ?tmp = "temp_name ?d ''.locorum-snap-'' ''.tmp'' (os_rand ?fs h)"
  obtain u where u: "p = u @ build_snapshot_name (site_slug s) label (engine_kind (resolve_engine s)) (site_db_version s)
      (sn_clock env h) default_codec" using final_path_shape [OF s] unfolding p_def by metis
  obtain stem where "build_snapshot_name (site_slug s) label (engine_kind (resolve_engine s)) (site_db_version s)
      (sn_clock env h) default_codec = stem @ ext_zstd" using name_ends by blast
  then have lp: "last p = CHR ''t''" unfolding u by (simp add: ext_zstd_def)
  have l: "last ?tmp = CHR ''p''" "last (temp_name (path_dir p) ''.locorum-cs-'' ''.tmp'' n) = CHR ''p''" for n
    by (rule temp_last; simp add: snapshots_path_nonempty path_dir_def path_clean_nonempty)+
  have ne: "?tmp \<noteq> p" "temp_name (path_dir p) ''.locorum-cs-'' ''.tmp'' n \<noteq> p" for n
  proof -
    have d: "last x \<noteq> last y \<Longrightarrow> x \<noteq> y" for x y :: string by auto
    show "?tmp \<noteq> p" "temp_name (path_dir p) ''.locorum-cs-'' ''.tmp'' n \<noteq> p" by (rule d, simp add: lp l)+
  qed
  let ?z = "sn_compress env default_codec data"
  let ?h2 = "put_file p ?z (drop_file ?tmp (put_file ?tmp ?z (put_file ?tmp [] h)))"
  have c: "os_create_temp ?fs ?d ''.locorum-snap-'' ''.tmp'' h = (Inr ?tmp, put_file ?tmp [] h)"
    using e by (simp add: os_create_temp_def Let_def smooth_def)
  have dr: "snapshots_dir env h = Inr ?d" "os_fail ?fs ''compressor'' ?tmp (put_file ?tmp [] h) = None"
    using e(1) by (simp_all add: snapshots_dir_def smooth_def)
  have t: "take_snapshot env s label h = (Inr p, snd (write_checksum ?fs p (sn_digest env data) ?h2))"
    unfolding take_snapshot_def Let_def dr(1) sum.case c prod.case dr(2) option.case e(2)
    unfolding p_def [symmetric] smooth_stages [OF e(1) ne(1)] by simp
  show thesis
    by (rule that [OF t], subst smooth_checksum [OF e(1)]) (use ne(2) e(3) in simp_all)
qed

lemma sample_smooth: "smooth sample_snap_env" "dump_keeps_files sample_snap_env" "engine_snapshot sample_snap_env s x = ((''sql'', None), x)"
proof -
  have d: "sn_dump sample_snap_env c cmd h = ((''sql'', Inr 0), h)" for c cmd h by (simp add: sample_snap_env_def)
  show "smooth sample_snap_env" by (simp add: smooth_def sample_snap_env_def)
  show "dump_keeps_files sample_snap_env" by (simp add: dump_keeps_files_def d)
  show "engine_snapshot sample_snap_env s x = ((''sql'', None), x)" unfolding engine_snapshot_def d Let_def by simp
qed

definition home_snap_env :: "unit snap_env" where
  "home_snap_env = sample_snap_env\<lparr>sn_mgr := idle_env ((idle_services still_runtime None)\<lparr>sv_home := ''/home''\<rparr>)\<rparr>"

lemma home_path: "snapshots_path home_snap_env = ''/home/.locorum/snapshots''"
proof -
  have "sv_home (me_sv (sn_mgr home_snap_env)) = ''/home''" by (simp add: home_snap_env_def idle_env_def)
  moreover have "path_join [''/home'', ''.locorum'', snapshots_root] = ''/home/.locorum/snapshots''" by code_simp
  ultimately show ?thesis by (simp add: snapshots_path_def)
qed

lemma deletion_stays_in_the_directory_witness:
  "\<exists>q h. ho_files (snd (delete_snapshot home_snap_env ''/home/x/../.locorum/snapshots/one'' h)) q \<noteq> ho_files h q \<and>
     prefix ''/home/.locorum/snapshots/'' q"
proof -
  let ?q = "''/home/.locorum/snapshots/one''" and ?p = "''/home/x/../.locorum/snapshots/one''"
  let ?h = "put_file ?q ''z'' no_files"
  have e: "sn_cwd home_snap_env = ''/''" "os_fail (sn_os home_snap_env) op p h = None" for op p h
    by (simp_all add: home_snap_env_def sample_snap_env_def)
  have a: "path_abs ''/'' ?p = ?q" by code_simp
  have r: "rooted (sn_cwd home_snap_env)" unfolding e(1) by code_simp
  have "prefix (''/home/.locorum/snapshots'' @ ''/'') ?q" by code_simp
  then have d: "delete_snapshot home_snap_env ?p ?h = (None, snd (os_remove (sn_os home_snap_env) (sidecar ?q) (drop_file ?q ?h)))"
    by (simp add: delete_snapshot_def snapshots_dir_def e home_path a Let_def os_remove_def)
  have c: "ho_files (snd (delete_snapshot home_snap_env ?p ?h)) ?q \<noteq> ho_files ?h ?q"
    unfolding d by (simp add: os_remove_def e)
  have "prefix (''/home/.locorum/snapshots'' @ ''/'') ?q"
    using conjunct1 [OF deletion_stays_in_the_directory [OF r c]] unfolding home_path .
  then have "prefix ''/home/.locorum/snapshots/'' ?q" by simp
  with c show ?thesis by blast
qed

text \<open>
  C14. A snapshot is there as a whole or not at all: without an error the file holds the compressed output of a dump that printed
  something and returned 0; with one no file that was there has changed. Nothing else is overwritten but the sidecar.
\<close>

theorem snapshot_whole_or_absent:
  assumes "dump_keeps_files env" "CHR ''/'' \<notin> set (site_slug s)" "CHR ''/'' \<notin> set label" "take_snapshot env s label h = (r, h')"
  shows "case r of
      Inl e \<Rightarrow> \<forall>q b. ho_files h q = Some b \<longrightarrow> ho_files h' q = Some b
    | Inr p \<Rightarrow> (\<exists>data. dumped env s data \<and> ho_files h' p = Some (sn_compress env default_codec data)) \<and>
        (\<forall>q b. q \<noteq> p \<and> q \<noteq> sidecar p \<and> ho_files h q = Some b \<longrightarrow> ho_files h' q = Some b)"
  using take_snapshot_effect [OF assms] by (auto split: sum.split)

lemma snapshot_whole_or_absent_witness:
  "\<exists>p h'. take_snapshot sample_snap_env started_site ''manual'' no_files = (Inr p, h') \<and>
     (\<exists>data. dumped sample_snap_env started_site data \<and> ho_files h' p = Some (CHR ''z'' # data))"
proof -
  have l: "CHR ''/'' \<notin> set ''manual''" by simp
  obtain p h' where t: "take_snapshot sample_snap_env started_site ''manual'' no_files = (Inr p, h')"
    using smooth_take [OF sample_smooth(1,3) _ started_slug l] by (metis no_files_def host.select_convs(1))
  have "sn_compress sample_snap_env c d = CHR ''z'' # d" for c d by (simp add: sample_snap_env_def)
  then show ?thesis
    using snapshot_whole_or_absent [OF sample_smooth(2) started_slug l t] t by auto
qed

section \<open>The checksum refuses what it was made for\<close>

definition printable :: "char \<Rightarrow> bool" where "printable c \<longleftrightarrow> 33 \<le> byte c \<and> byte c \<le> 126"

lemma spaces_not_printable:
  "list_all (\<lambda>p. p \<noteq> [] \<and> \<not> printable (hd p) \<and> \<not> printable (last p)) space_encodings" by code_simp

lemma strip_all_id: "\<forall>p\<in>set ps. p \<noteq> [] \<and> hd p \<notin> set s \<Longrightarrow> strip_all ps s = s"
proof -
  assume a: "\<forall>p\<in>set ps. p \<noteq> [] \<and> hd p \<notin> set s"
  have "strip_prefix ps s = None"
  proof (rule strip_prefix_none, intro ballI impI)
    fix p
    assume "p \<in> set ps" "p \<noteq> []"
    with a show "\<not> prefix p s" by (auto simp: prefix_def)
  qed
  then show ?thesis by (simp add: strip_all.simps [of ps s])
qed

lemma trim_space_printable:
  assumes "list_all printable s"
  shows "trim_space s = s"
proof -
  have sp: "p \<noteq> [] \<and> hd p \<notin> set s \<and> last p \<notin> set s" if "p \<in> set space_encodings" for p
    using that spaces_not_printable assms unfolding list_all_iff by blast
  have "strip_all space_encodings s = s" by (rule strip_all_id) (use sp in blast)
  moreover have "strip_all (map rev space_encodings) (rev s) = rev s"
    by (rule strip_all_id) (use sp in \<open>simp add: hd_rev\<close>)
  ultimately show ?thesis by (simp add: trim_space_def)
qed

definition digest_hex :: "'x snap_env \<Rightarrow> bool" where
  "digest_hex env \<longleftrightarrow> (\<forall>b. length (sn_digest env b) = 64 \<and> list_all is_hex (sn_digest env b))"

lemma hex_printable: "list_all is_hex s \<Longrightarrow> list_all printable s \<and> CHR '' '' \<notin> set s"
  by (auto simp: list_all_iff is_hex_def printable_def byte_defs)

lemma takeWhile_stop: "c \<notin> set s \<Longrightarrow> takeWhile (\<lambda>x. x \<noteq> c) (s @ c # t) = s"
  by (induction s) auto

lemma verify_refuses:
  assumes "digest_hex env" "ho_files h p = Some b" "ho_files h (sidecar p) = Some (checksum_body p (sn_digest env d))"
    and "sn_digest env b \<noteq> sn_digest env d"
  shows "\<exists>e. verify_checksum env p h = Some (VerifyError e)"
proof -
  have hx: "length (sn_digest env d) = 64" "list_all is_hex (sn_digest env d)" using assms(1) by (simp_all add: digest_hex_def)
  have "takeWhile (\<lambda>c. c \<noteq> CHR '' '') (checksum_body p (sn_digest env d)) = sn_digest env d"
    using hex_printable [OF hx(2)] by (simp add: checksum_body_def takeWhile_stop)
  then show ?thesis
    using assms(2-4) hx trim_space_printable [of "sn_digest env d"] hex_printable [OF hx(2)]
    by (auto simp: verify_checksum_def os_read_file_def Let_def split: option.splits)
qed

lemma load_refused:
  "verify_checksum env p h = Some (VerifyError e) \<Longrightarrow> \<not> ro_skip_checksum opts \<Longrightarrow>
    load_snapshot env s p opts h = (Some (''checksum verify: '' @ e), h)"
  by (simp add: load_snapshot_def)

text \<open>A snapshot that got its sidecar, when the digest tells a dump from the same dump compressed.\<close>

definition digest_tells :: "'x snap_env \<Rightarrow> bool" where
  "digest_tells env \<longleftrightarrow> (\<forall>d. sn_digest env (sn_compress env default_codec d) \<noteq> sn_digest env d)"

lemma fresh_refused:
  assumes "dump_keeps_files env" "CHR ''/'' \<notin> set (site_slug s)" "CHR ''/'' \<notin> set label" "take_snapshot env s label h = (Inr p, h1)"
    and "ho_files h (sidecar p) = None" "ho_files h1 (sidecar p) \<noteq> None" "digest_hex env" "digest_tells env"
    and "ho_files h2 p = ho_files h1 p" "ho_files h2 (sidecar p) = ho_files h1 (sidecar p)"
  shows "\<exists>e. verify_checksum env p h2 = Some (VerifyError e)"
proof -
  obtain d where d: "ho_files h1 p = Some (sn_compress env default_codec d)" "ho_files h1 (sidecar p) = Some (checksum_body p (sn_digest env d))"
    using take_snapshot_effect [OF assms(1-4)] assms(5,6) by auto
  then show ?thesis
    using verify_refuses [OF assms(7), of h2 p "sn_compress env default_codec d" d] assms(8-10) by (simp add: digest_tells_def)
qed

text \<open>
  C37. The checksum in the sidecar is that of the dump, the one computed before a restore is that of the compressed file. A snapshot
  that got its sidecar is therefore refused for as long as both files stay as they were written: the restore ends in an
  error and changes nothing.
\<close>

theorem fresh_snapshot_is_refused:
  assumes "dump_keeps_files env" "CHR ''/'' \<notin> set (site_slug s)" "CHR ''/'' \<notin> set label" "take_snapshot env s label h = (Inr p, h1)"
    and "ho_files h (sidecar p) = None" "ho_files h1 (sidecar p) \<noteq> None" "digest_hex env" "digest_tells env"
    and "ho_files h2 p = ho_files h1 p" "ho_files h2 (sidecar p) = ho_files h1 (sidecar p)" "\<not> ro_skip_checksum opts"
  shows "\<exists>e. load_snapshot env t p opts h2 = (Some e, h2)"
  using fresh_refused [OF assms(1-10)] load_refused [OF _ assms(11)] by blast

lemma sample_digest: "digest_hex sample_snap_env" "digest_tells sample_snap_env"
proof -
  have d: "sn_digest sample_snap_env b = replicate 64 (if even (length b) then CHR ''0'' else CHR ''1'')" for b
    by (simp add: sample_snap_env_def)
  have c: "sn_compress sample_snap_env k b = CHR ''z'' # b" for k b by (simp add: sample_snap_env_def)
  have h: "is_hex CHR ''0''" "is_hex CHR ''1''" by code_simp+
  show "digest_hex sample_snap_env" by (simp add: digest_hex_def d list_all_iff h)
  have "replicate 64 CHR ''0'' \<noteq> replicate 64 CHR ''1''" by (simp add: replicate_eq_replicate)
  then show "digest_tells sample_snap_env" unfolding digest_tells_def d c by (simp add: eq_commute)
qed

lemma fresh_snapshot_is_refused_witness:
  "\<exists>p h1 e. take_snapshot sample_snap_env started_site ''manual'' no_files = (Inr p, h1) \<and>
     load_snapshot sample_snap_env started_site p \<lparr>ro_allow_mismatch = False, ro_skip_checksum = False, ro_skip_auto = True\<rparr> h1 = (Some e, h1)"
proof -
  have l: "CHR ''/'' \<notin> set ''manual''" by simp
  have n: "ho_files no_files = Map.empty" by (simp add: no_files_def)
  obtain p h1 where t: "take_snapshot sample_snap_env started_site ''manual'' no_files = (Inr p, h1)" "ho_files h1 (sidecar p) \<noteq> None"
    using smooth_take [OF sample_smooth(1,3) n started_slug l] by metis
  have "\<exists>e. load_snapshot sample_snap_env started_site p \<lparr>ro_allow_mismatch = False, ro_skip_checksum = False, ro_skip_auto = True\<rparr> h1 = (Some e, h1)"
    by (rule fresh_snapshot_is_refused [OF sample_smooth(2) started_slug l t(1) _ t(2) sample_digest refl refl]) (simp_all add: n)
  then show ?thesis using t(1) by blast
qed

section \<open>Retention\<close>

definition touches :: "'x snap_env \<Rightarrow> snapshot_info \<Rightarrow> string \<Rightarrow> bool" where
  "touches env i q \<longleftrightarrow> q = path_abs (sn_cwd env) (si_host_path i) \<or> q = sidecar (path_abs (sn_cwd env) (si_host_path i))"

lemma sweep_group_removes:
  assumes "ho_files (snd (sweep_group env p now i ss (n, h))) q \<noteq> ho_files h q"
  shows "\<exists>k<length ss. dropped p now (i + k) (ss ! k) \<and> touches env (ss ! k) q"
  using assms
proof (induction ss arbitrary: i n h)
  case (Cons s ss)
  have rest: "\<exists>k<length (s # ss). dropped p now (i + k) ((s # ss) ! k) \<and> touches env ((s # ss) ! k) q"
    if c: "ho_files (snd (sweep_group env p now (Suc i) ss (n', h'))) q \<noteq> ho_files h' q" for n' h'
  proof -
    obtain k where "k < length ss" "dropped p now (Suc i + k) (ss ! k)" "touches env (ss ! k) q" using Cons.IH [OF c] by blast
    then show ?thesis by (intro exI [of _ "Suc k"]) simp
  qed
  obtain e h1 where d: "delete_snapshot env (si_host_path s) h = (e, h1)" by (metis surj_pair)
  show ?case
  proof (cases "dropped p now i s \<and> ho_files h1 q \<noteq> ho_files h q")
    case True
    then have "touches env s q" using delete_removes_at [of env "si_host_path s" h q] d by (simp add: touches_def)
    then show ?thesis using True by (intro exI [of _ 0]) simp
  next
    case False
    let ?h = "if dropped p now i s then h1 else h"
    obtain n' where "sweep_group env p now i (s # ss) (n, h) = sweep_group env p now (Suc i) ss (n', ?h)"
      using d by (cases "dropped p now i s"; cases e) auto
    then show ?thesis using Cons.prems False by (intro rest [of n' ?h]) auto
  qed
qed simp

lemma sweep_fold_removes:
  assumes "ho_files (snd (fold (\<lambda>slug. sweep_group env p now 0 (g slug)) slugs (n, h))) q \<noteq> ho_files h q"
  shows "\<exists>slug\<in>set slugs. \<exists>k<length (g slug). dropped p now k (g slug ! k) \<and> touches env (g slug ! k) q"
  using assms
proof (induction slugs arbitrary: n h)
  case (Cons slug slugs)
  obtain n1 h1 where g: "sweep_group env p now 0 (g slug) (n, h) = (n1, h1)" by (metis surj_pair)
  show ?case
  proof (cases "ho_files h1 q = ho_files h q")
    case True
    then show ?thesis using Cons.prems Cons.IH [of n1 h1] g by auto
  next
    case False
    then show ?thesis using sweep_group_removes [of env p now 0 "g slug" n h q] g by auto
  qed
qed simp

text \<open>In a list with the newest first, no snapshot before another is older.\<close>

lemma newest_ahead:
  assumes "sorted (map (\<lambda>i. (- si_created i, f i)) xs)" "k < length xs"
  shows "k < length (filter (\<lambda>t. si_created (xs ! k) \<le> si_created t) xs)"
proof -
  have "si_created (xs ! k) \<le> si_created t" if t: "t \<in> set (take (Suc k) xs)" for t
  proof -
    obtain j where "j < Suc k" "t = xs ! j" using t assms(2) by (auto simp: in_set_conv_nth)
    then show ?thesis using sorted_nth_mono [OF assms(1), of j k] assms(2) by (auto simp: less_eq_prod_def)
  qed
  then have f: "filter (\<lambda>t. si_created (xs ! k) \<le> si_created t) (take (Suc k) xs) = take (Suc k) xs" by (simp add: filter_id_conv)
  have "filter P xs = filter P (take (Suc k) xs) @ filter P (drop (Suc k) xs)" for P
    unfolding filter_append [symmetric] append_take_drop_id ..
  from arg_cong [OF this [of "\<lambda>t. si_created (xs ! k) \<le> si_created t"], of length] show ?thesis
    unfolding f length_append using assms(2) by simp
qed

lemma sorted_filter_key: "sorted (map f xs) \<Longrightarrow> sorted (map f (filter P xs))" for f :: "'a \<Rightarrow> 'b :: linorder"
  by (rule sorted_filter)

lemma listed_newest: "list_snapshots env slug h = Inr all \<Longrightarrow> sorted (map (\<lambda>i. (- si_created i, sn_tie env (si_filename i))) all)"
  by (auto simp: list_snapshots_def newest_snapshots_def split: sum.splits)

text \<open>
  C16. The retention sweep deletes nothing but what the policy drops: a file it changed belongs to a listed snapshot that is older
  than the maximal age, or that is preceded by as many snapshots of its site, none of them older, as the policy keeps.
\<close>

theorem sweep_deletes_what_the_policy_drops:
  assumes "ho_files (snd (sweep_snapshots env p h)) q \<noteq> ho_files h q"
  shows "\<exists>all s. list_snapshots env [] h = Inr all \<and> s \<in> set all \<and> touches env s q \<and>
    (0 < rp_max_per_site p \<and> rp_max_per_site p < int (length (filter (\<lambda>t. si_slug t = si_slug s \<and> si_created s \<le> si_created t) all)) \<or>
     0 < rp_max_age p \<and> rp_max_age p < time_sub (sn_clock env h) (si_created s))"
proof -
  obtain all where all: "list_snapshots env [] h = Inr all"
    using assms by (cases "list_snapshots env [] h") (auto simp: sweep_snapshots_def split: if_splits)
  let ?g = "\<lambda>slug. filter (\<lambda>i. si_slug i = slug) all"
  have "ho_files (snd (fold (\<lambda>slug. sweep_group env p (sn_clock env h) 0 (?g slug)) (sn_iter env (set (map si_slug all))) (0, h))) q
      \<noteq> ho_files h q"
    using assms all by (auto simp: sweep_snapshots_def Let_def split: if_splits prod.splits)
  from sweep_fold_removes [OF this] obtain slug k where k: "k < length (?g slug)"
      "dropped p (sn_clock env h) k (?g slug ! k)" "touches env (?g slug ! k) q" by blast
  let ?s = "?g slug ! k"
  have s: "?s \<in> set all" "si_slug ?s = slug" using nth_mem [OF k(1)] by auto
  have "k < length (filter (\<lambda>t. si_created ?s \<le> si_created t) (?g slug))"
    by (rule newest_ahead [OF sorted_filter_key [OF listed_newest [OF all]] k(1)])
  then have "k < length (filter (\<lambda>t. si_slug t = si_slug ?s \<and> si_created ?s \<le> si_created t) all)"
    using s(2) by (simp add: conj_commute)
  then show ?thesis using all s(1) k(2,3) by (auto simp: dropped_def)
qed

definition old_name :: string where "old_name = ''one--manual--20200101T000000Z--mysql-8.4.sql.zst''"

definition old_path :: string where "old_path = ''/home/.locorum/snapshots/'' @ old_name"

definition old_snapshot :: snapshot_info where
  "old_snapshot = \<lparr>si_filename = old_name, si_host_path = old_path, si_slug = ''one'',
     si_label = ''manual'', si_engine = ''mysql'', si_version = ''8.4'', si_created = 1577836800 * second, si_size = 1,
     si_compression = ''zstd'', si_has_checksum = False\<rparr>"

definition sweep_env :: "unit snap_env" where
  "sweep_env = home_snap_env\<lparr>sn_entries := (\<lambda>d h. Inr [old_name]), sn_iter := (\<lambda>V. [''one''])\<rparr>"

lemma sweep_deletes_what_the_policy_drops_witness:
  "\<exists>q h. ho_files (snd (sweep_snapshots sweep_env \<lparr>rp_max_per_site = 0, rp_max_age = 1\<rparr> h)) q \<noteq> ho_files h q \<and>
     touches sweep_env old_snapshot q"
proof -
  let ?q = old_path
  let ?h = "put_file ?q ''z'' no_files" and ?p = "\<lparr>rp_max_per_site = 0, rp_max_age = 1\<rparr>"
  have d: "snapshots_path sweep_env = ''/home/.locorum/snapshots''"
    using home_path by (simp add: snapshots_path_def sweep_env_def)
  have f: "os_fail (sn_os sweep_env) op p h = None" for op p h
    by (simp add: sweep_env_def home_snap_env_def sample_snap_env_def)
  have c: "sn_cwd sweep_env = ''/''" "sn_entries sweep_env x h = Inr [old_name]" "sn_iter sweep_env V = [''one'']"
      "sn_clock sweep_env h = 1777248000 * second" for x h V
    by (simp_all add: sweep_env_def home_snap_env_def sample_snap_env_def)
  have n: "parse_snapshot_name old_name = Some (old_snapshot\<lparr>si_host_path := [], si_size := 0\<rparr>)" by code_simp
  have j: "path_join [''/home/.locorum/snapshots'', old_name] = ?q" by code_simp
  have a: "path_abs ''/'' ?q = ?q" by code_simp
  have x: "prefix (''/home/.locorum/snapshots'' @ ''/'') ?q" by code_simp
  have i: "found_snapshot sweep_env ''/home/.locorum/snapshots'' [] ?h old_name = Some old_snapshot"
    unfolding found_snapshot_def j n Let_def by (simp add: f no_files_def old_snapshot_def sidecar_def)
  have l: "list_snapshots sweep_env [] ?h = Inr [old_snapshot]"
    by (simp add: list_snapshots_def snapshots_dir_def f d c i newest_snapshots_def List.map_filter_def)
  have o: "si_host_path old_snapshot = ?q" "si_slug old_snapshot = ''one''" "si_created old_snapshot = 1577836800 * second"
    by (simp_all add: old_snapshot_def)
  have r: "delete_snapshot sweep_env ?q ?h = (None, snd (os_remove (sn_os sweep_env) (sidecar ?q) (drop_file ?q ?h)))"
    using x by (simp add: delete_snapshot_def snapshots_dir_def f d c a Let_def os_remove_def)
  have "dropped ?p (1777248000 * second) 0 old_snapshot" by (simp add: dropped_def o time_sub_def second_def)
  then have "snd (sweep_snapshots sweep_env ?p ?h) = snd (os_remove (sn_os sweep_env) (sidecar ?q) (drop_file ?q ?h))"
    unfolding sweep_snapshots_def l Let_def c by (simp add: o r)
  then have g: "ho_files (snd (sweep_snapshots sweep_env ?p ?h)) ?q \<noteq> ho_files ?h ?q" by (simp add: os_remove_def f)
  from sweep_deletes_what_the_policy_drops [OF g] have "touches sweep_env old_snapshot ?q" unfolding l by auto
  with g show ?thesis by blast
qed

end
