(* ===== verification/Migrate.thy ===== *)
theory Migrate
  imports Snapshot_Claims Lifecycle_Claims
begin









section \<open>Start and stop leave a part of the host alone\<close>








section \<open>The slug of the row\<close>






section \<open>A migration cannot finish\<close>














end
