(* ===== verification/Spec2Isabelle.thy ===== *)
theory Spec2Isabelle
  imports Go_Prelude Go_Net Go_Text Secrets Orch Site_Types Hooks Hook_Runner Storage Activity
    Config Site_Lan Retry Platform Health Health_Checks Owner_Lock Rpc
    Docker_Specs Db_Engine Docker_Engine Site_Steps Docker_Fake Plan_Logic Site_Plans
    Lifecycle Lifecycle_Props Lifecycle_Inv Lifecycle_Claims
    Host_Files Assets Go_Time Snapshots Snapshot_Claims Migrate
begin

text \<open>
  A verification development for Locorum (\<^verbatim>\<open>src/\<close>), a Go program that runs local WordPress sites in
  Docker containers. It models the parts of the program that decide something; what they ask of the
  Docker daemon, the operating system and the commands inside a container is a parameter of the model.

  The parts and how they interact. A user's action reaches the site manager
  (\<^verbatim>\<open>internal/sites\<close>), which turns it into a plan of steps with undo functions and has the orchestrator
  (\<^verbatim>\<open>internal/orch\<close>) run it; lifecycle hooks (\<^verbatim>\<open>internal/hooks\<close>) run around it, the state is rows of the
  storage (\<^verbatim>\<open>internal/storage\<close>), settings are read through the typed facade (\<^verbatim>\<open>internal/config\<close>), the
  outcome becomes a row of the activity timeline, and every text that leaves the process passes the
  secret registry (\<^verbatim>\<open>internal/secrets\<close>). The command line and MCP clients reach the same manager through the
  daemon (\<^verbatim>\<open>internal/daemon\<close>), of which one process at a time is the owner. Calls of the Docker engine go through a
  retry policy (\<^verbatim>\<open>internal/docker\<close>), and a runner of health checks (\<^verbatim>\<open>internal/health\<close>) watches the host.

  Theories:
  \<^item> \<open>Go_Prelude\<close>, \<open>Go_Net\<close>, \<open>Go_Text\<close>: what the code uses of the standard library. Strings are byte lists,
    times are nanosecond counts, an IP address a list of bytes, JSON a datatype and its text.
  \<^item> \<open>Secrets\<close>: \<^verbatim>\<open>secrets/registry.go\<close>. Redaction is complete and idempotent; locale \<open>redactor\<close>.
  \<^item> \<open>Orch\<close>: \<^verbatim>\<open>orch/plan.go\<close>, \<^verbatim>\<open>orch/dryrun.go\<close>. Every step is accounted for, and \<open>run\<close> refines a transaction
    with an undo log; locale \<open>compensating_steps\<close> states when a failed plan restores what it changed.
  \<^item> \<open>Site_Types\<close>: the \<^verbatim>\<open>Site\<close> struct and the names derived from it.
  \<^item> \<open>Hooks\<close>, \<open>Hook_Runner\<close>: \<^verbatim>\<open>hooks/*.go\<close>. Which tasks a hook row may become, and the runner with its
    results, callbacks and summary.
  \<^item> \<open>Storage\<close>: \<^verbatim>\<open>storage/*.go\<close> on tables with the schema's constraints and arbitrary driver failures;
    the database invariant, all-or-nothing transactions, ordering of hooks and of the timeline.
  \<^item> \<open>Activity\<close>: \<^verbatim>\<open>sites/activity.go\<close>, joining the orchestrator's result, the registry and the storage.
  \<^item> \<open>Config\<close>: \<^verbatim>\<open>config/*.go\<close> over the interface \<open>settings_store\<close>, interpreted on the storage.
  \<^item> \<open>Site_Lan\<close>: \<^verbatim>\<open>sites/lanhost.go\<close> and the LAN operations of \<^verbatim>\<open>sites/sites.go\<close>, the composition of all of
    the above in one plan; interprets \<open>compensating_steps\<close>.

  \<^item> \<open>Retry\<close>: \<^verbatim>\<open>docker/retry.go\<close>. Attempts and waiting are bounded whatever the world does, and each class of
    error is tried the number of times its policy says.
  \<^item> \<open>Platform\<close>: \<^verbatim>\<open>platform/*.go\<close>, \<^verbatim>\<open>version/images.go\<close>, \<^verbatim>\<open>docker/engine_provider.go\<close>. User names made
    canonical, host paths, the provider of the engine and the version it reports.
  \<^item> \<open>Health\<close>, \<open>Health_Checks\<close>: \<^verbatim>\<open>health/*.go\<close>. A batch is a function of the results in the order they arrive, and the
    order is shown not to matter; the history of first observations and of over-budget runs is given by
    reference definitions (\<open>streak\<close>, \<open>over_streak\<close>), and so is the breaker (\<open>may_call\<close>). The two steps of a
    publication are also modelled apart, as an interleaving, to show what overlapping batches lose.
  \<^item> \<open>Owner_Lock\<close>: \<^verbatim>\<open>daemon/lock.go\<close>, \<^verbatim>\<open>daemon/lock_unix.go\<close> as a machine of steps between system calls, over a file
    system with inodes and advisory locks; one owner for uninterrupted calls, and the interleaving that
    gives two.
  \<^item> \<open>Docker_Specs\<close>, \<open>Db_Engine\<close>: \<^verbatim>\<open>docker/specs.go\<close>, \<^verbatim>\<open>docker/specs_builders.go\<close>, \<^verbatim>\<open>docker/engine_container.go\<close> and
    \<^verbatim>\<open>dbengine/*.go\<close>. What a container of a site may do, what its configuration hash sees, which engine may
    open which volume, and the filter an import passes.
  \<^item> \<open>Docker_Engine\<close>, \<open>Docker_Fake\<close>: the engine above the Docker SDK and the one in memory. The SDK is the record
    \<open>daemon\<close>, its documented behaviour the hypothesis \<open>daemon_ok\<close>; both engines keep the contract
    \<open>container_runtime\<close>, the locale of \<open>Site_Steps\<close>.
  \<^item> \<open>Site_Steps\<close>, \<open>Plan_Logic\<close>, \<open>Site_Plans\<close>: \<^verbatim>\<open>sites/sitesteps/*.go\<close>. The groups of goroutines as turns under any
    schedule, the other steps, and the plans of start, stop and deletion, with rules for a plan that ends well and
    for one that cannot get past a step.
  \<^item> \<open>Lifecycle\<close>, \<open>Lifecycle_Props\<close>, \<open>Lifecycle_Inv\<close>, \<open>Lifecycle_Claims\<close>: the operations of \<^verbatim>\<open>sites/sites.go\<close> on rows,
    containers and the registry. A start without an error leaves exactly the containers of the site as specified;
    a deletion stays in its family of worktrees; an inductive step relation keeps stored passwords redacted.
  \<^item> \<open>Host_Files\<close>, \<open>Go_Time\<close>: files and paths of the host with \<^verbatim>\<open>genmark/genmark.go\<close>, and the calendar with the
    format of time stamps. A write through a temporary file leaves the old content or the new one.
  \<^item> \<open>Assets\<close>: \<^verbatim>\<open>assets/assets.go\<close>. Embedded configuration replaces untouched files only; a refresh that fails once
    is taken for a user edit ever after.
  \<^item> \<open>Snapshots\<close>, \<open>Snapshot_Claims\<close>, \<open>Migrate\<close>: \<^verbatim>\<open>sites/snapshot.go\<close> and \<^verbatim>\<open>sites/migrate.go\<close>. Names read back,
    deletion stays in its directory, a snapshot is whole or absent; the digest in the sidecar is that of the dump
    and not of the file, so verification refuses every snapshot and a migration never completes.
  \<^item> \<open>Rpc\<close>: \<^verbatim>\<open>daemon/protocol.go\<close>, \<^verbatim>\<open>daemon/server.go\<close>, \<^verbatim>\<open>daemon/methods.go\<close>. The handlers return the calls they
    make on the site service, so that what a profile or a scope permits is a property of that list; the
    redaction of errors rests on the interface \<open>redactor\<close>.

  Bounds and fuel. Times and durations are unbounded integers of nanoseconds; the sums of the code stay far
  below the 64 bits of a duration for the values it uses. Where the width decides, it is kept: parsed numbers
  and JSON numbers outside the range of an \<^verbatim>\<open>int\<close> are errors. All loops are structural or recursive with a
  proof of termination, except three: the attempts of \<open>Retry\<close> are counted by the code itself; the poll of
  \<open>wait_ready\<close> takes fuel, and \<open>poll_fuel\<close>, one inspection per interval up to the deadline and one more, is enough
  when the clock moves (\<open>wait_ready_ends\<close>); the cascade of \<open>delete_site_opts\<close> takes fuel, and as many levels as worktrees
  are nested are enough (\<open>delete_ends\<close>), which cannot be had when the rows form a cycle.

  Operations of the site manager run one at a time; the read of a row before the mutex of the site is modelled as a
  value read earlier. File systems have no symbolic links, and a file is read in one call.

  Not modelled: the user interface, the command line and MCP clients; image pulls, log streams, exec and one-shot
  containers of the Docker engine; the router's files, TLS certificates and the application log; the import and export of
  databases around the filter, cloning and worktree creation, shells and WP-CLI of the site manager, and the text of
  \<^verbatim>\<open>wp-config.php\<close> with the salts in it; the accept loop and shutdown of the daemon; the remediation actions of the
  health checks; the opening and migration of the database file. They move bytes or call other programs and decide little.
\<close>

end
